(* ===== verification/Asp_Prelude.thy ===== *)
theory Asp_Prelude
  imports Main "HOL-Library.Word" "HOL-Library.Finite_Map"
begin

text \<open>
  Shared vocabulary of the development.

  Rust's unsigned machine integers \<open>u16\<close>, \<open>u32\<close>, \<open>u64\<close> and \<open>usize\<close> (64-bit
  targets) are natural numbers; every place where the source relies on the
  width uses one of the operations below, which write the saturation or the
  overflow check out.  Bytes are \<open>8 word\<close>, a byte slice is a list of them.
  A \<open>String\<close> is its UTF-8 byte string, written as a \<^typ>\<open>string\<close>, so that
  \<open>len\<close> is \<^const>\<open>length\<close>.  A \<open>HashMap\<close> or \<open>BTreeMap\<close> is a finite map.
\<close>

type_synonym byte = "8 word"
type_synonym bytes = "8 word list"
type_synonym u16 = nat
type_synonym u32 = nat
type_synonym u64 = nat
type_synonym usize = nat
type_synonym uuid = "128 word"

named_theorems consts_simps \<open>numeric values of the source's constants\<close>
named_theorems arith_simps \<open>saturating and checked arithmetic\<close>
named_theorems inv_intros \<open>preservation of component invariants\<close>

section \<open>Machine arithmetic\<close>

definition u64_max :: nat where
  "u64_max = 18446744073709551615"

definition u32_max :: nat where
  "u32_max = 4294967295"

definition u16_max :: nat where
  "u16_max = 65535"

lemmas int_bounds = u64_max_def u32_max_def u16_max_def

definition saturating_add :: "u64 \<Rightarrow> u64 \<Rightarrow> u64" where
  "saturating_add a b = min (a + b) u64_max"

definition saturating_sub :: "u64 \<Rightarrow> u64 \<Rightarrow> u64" where
  "saturating_sub a b = a - b"

definition saturating_mul :: "u64 \<Rightarrow> u64 \<Rightarrow> u64" where
  "saturating_mul a b = min (a * b) u64_max"

definition checked_add :: "u64 \<Rightarrow> u64 \<Rightarrow> u64 option" where
  "checked_add a b = (if a + b \<le> u64_max then Some (a + b) else None)"

definition checked_sub :: "u64 \<Rightarrow> u64 \<Rightarrow> u64 option" where
  "checked_sub a b = (if b \<le> a then Some (a - b) else None)"

lemma saturating_sub_eq [simp]: "saturating_sub a b = a - b"
  by (simp add: saturating_sub_def)

lemma saturating_add_exact [arith_simps]:
  "a + b \<le> u64_max \<Longrightarrow> saturating_add a b = a + b"
  by (simp add: saturating_add_def)

lemma saturating_add_le: "saturating_add a b \<le> a + b"
  by (simp add: saturating_add_def)

lemma saturating_add_bound [simp]: "saturating_add a b \<le> u64_max"
  by (simp add: saturating_add_def)

lemma saturating_add_le_iff:
  "n < u64_max \<Longrightarrow> saturating_add a b \<le> n \<longleftrightarrow> a + b \<le> n"
  by (auto simp: saturating_add_def min_def)

lemma saturating_add_mono:
  "a \<le> c \<Longrightarrow> b \<le> d \<Longrightarrow> saturating_add a b \<le> saturating_add c d"
  by (simp add: saturating_add_def min_def)

lemma checked_add_Some_iff [simp]:
  "checked_add a b = Some c \<longleftrightarrow> c = a + b \<and> a + b \<le> u64_max"
  by (auto simp: checked_add_def)

lemma checked_add_None_iff [simp]:
  "checked_add a b = None \<longleftrightarrow> u64_max < a + b"
  by (auto simp: checked_add_def)

lemma checked_sub_Some_iff [simp]:
  "checked_sub a b = Some c \<longleftrightarrow> b \<le> a \<and> c = a - b"
  by (auto simp: checked_sub_def)

lemma checked_sub_None_iff [simp]:
  "checked_sub a b = None \<longleftrightarrow> a < b"
  by (auto simp: checked_sub_def)

section \<open>Fallible computations\<close>

text \<open>The \<open>?\<close> operator on \<open>Result\<close>: the error of the first computation is the
  error of the whole, otherwise its value is passed on.\<close>

fun and_then :: "'e + 'a \<Rightarrow> ('a \<Rightarrow> 'e + 'b) \<Rightarrow> 'e + 'b" where
  "and_then (Inl e) k = Inl e"
| "and_then (Inr a) k = k a"

lemma and_then_Inr_iff [simp]:
  "and_then r k = Inr b \<longleftrightarrow> (\<exists>a. r = Inr a \<and> k a = Inr b)"
  by (cases r) auto

fun ok_or :: "'e \<Rightarrow> 'a option \<Rightarrow> 'e + 'a" where
  "ok_or e None = Inl e"
| "ok_or e (Some a) = Inr a"

lemma ok_or_Inr_iff [simp]: "ok_or e r = Inr a \<longleftrightarrow> r = Some a"
  by (cases r) auto

lemma ok_or_Inl_iff [simp]: "ok_or e r = Inl e' \<longleftrightarrow> r = None \<and> e' = e"
  by (cases r) auto

fun map_err :: "('e \<Rightarrow> 'f) \<Rightarrow> 'e + 'a \<Rightarrow> 'f + 'a" where
  "map_err f (Inl e) = Inl (f e)"
| "map_err f (Inr a) = Inr a"

lemma map_err_Inr_iff [simp]: "map_err f r = Inr a \<longleftrightarrow> r = Inr a"
  by (cases r) auto

section \<open>Byte strings\<close>

text \<open>\<open>to_be_bytes\<close>/\<open>from_be_bytes\<close> of an unsigned integer of \<open>n\<close> bytes.\<close>

fun be_bytes :: "nat \<Rightarrow> nat \<Rightarrow> bytes" where
  "be_bytes 0 v = []"
| "be_bytes (Suc n) v = of_nat (v div 256 ^ n) # be_bytes n (v mod 256 ^ n)"

fun be_nat :: "bytes \<Rightarrow> nat" where
  "be_nat [] = 0"
| "be_nat (b # bs) = unat b * 256 ^ length bs + be_nat bs"

lemma length_be_bytes [simp]: "length (be_bytes n v) = n"
  by (induction n v rule: be_bytes.induct) auto

lemma be_bytes_eq_Nil [simp]: "be_bytes n v = [] \<longleftrightarrow> n = 0"
  by (cases n) auto

lemma be_nat_be_bytes [simp]: "v < 256 ^ n \<Longrightarrow> be_nat (be_bytes n v) = v"
proof (induction n v rule: be_bytes.induct)
  case (2 n v)
  have "v div 256 ^ n < 256"
    using 2(2) by (simp add: less_mult_imp_div_less)
  then show ?case
    using 2 div_mult_mod_eq [of v "256 ^ n"] by (simp add: unat_of_nat take_bit_eq_mod)
qed simp

lemma be_nat_bound: "be_nat bs < 256 ^ length bs"
proof (induction bs)
  case (Cons b bs)
  have "unat b < 256" using unsigned_less [of b, where ?'a = nat] by simp
  then have le: "(unat b + 1) * 256 ^ length bs \<le> 256 * 256 ^ length bs"
    by (intro mult_le_mono1) simp
  have "be_nat (b # bs) < (unat b + 1) * 256 ^ length bs"
    using Cons by simp
  also note le
  finally show ?case by simp
qed simp

lemma be_bytes_be_nat: "be_bytes (length bs) (be_nat bs) = bs"
proof (induction bs)
  case (Cons b bs)
  have "be_nat bs < 256 ^ length bs" by (rule be_nat_bound)
  then show ?case using Cons by simp
qed simp

lemma be_bytes_4: "be_bytes 4 v = [of_nat (v div 16777216), of_nat (v mod 16777216 div 65536),
    of_nat (v mod 16777216 mod 65536 div 256), of_nat (v mod 16777216 mod 65536 mod 256)]"
proof -
  have "(4::nat) = Suc (Suc (Suc (Suc 0)))" by simp
  then show ?thesis by (simp only: be_bytes.simps) simp
qed

text \<open>Bytes of a \<open>String\<close>.\<close>

definition as_bytes :: "string \<Rightarrow> bytes" where
  "as_bytes s = map of_char s"

lemma length_as_bytes [simp]: "length (as_bytes s) = length s"
  by (simp add: as_bytes_def)

section \<open>Characters of a string\<close>

text \<open>\<open>str::chars\<close>: the Unicode scalar values of a valid UTF-8 byte string.\<close>

definition byte_of :: "char \<Rightarrow> nat" where
  "byte_of c = of_char c"

fun str_chars :: "string \<Rightarrow> nat list" where
  "str_chars [] = []"
| "str_chars (c # cs) = (let b = byte_of c in
     if b < 128 then b # str_chars cs
     else if b < 224 then
       (case cs of c1 # r \<Rightarrow> (b mod 32 * 64 + byte_of c1 mod 64) # str_chars r | _ \<Rightarrow> [b])
     else if b < 240 then
       (case cs of c1 # c2 # r \<Rightarrow>
          (b mod 16 * 4096 + byte_of c1 mod 64 * 64 + byte_of c2 mod 64) # str_chars r
        | _ \<Rightarrow> [b])
     else
       (case cs of c1 # c2 # c3 # r \<Rightarrow>
          (b mod 8 * 262144 + byte_of c1 mod 64 * 4096 + byte_of c2 mod 64 * 64
             + byte_of c3 mod 64) # str_chars r
        | _ \<Rightarrow> [b]))"

text \<open>\<open>char::is_control\<close> (general category Cc) and \<open>char::is_whitespace\<close>
  (property White\_Space).\<close>

definition is_control :: "nat \<Rightarrow> bool" where
  "is_control c \<longleftrightarrow> c < 32 \<or> 127 \<le> c \<and> c < 160"

definition is_whitespace :: "nat \<Rightarrow> bool" where
  "is_whitespace c \<longleftrightarrow> 9 \<le> c \<and> c \<le> 13 \<or> c = 32 \<or> c = 133 \<or> c = 160 \<or> c = 5760
     \<or> 8192 \<le> c \<and> c \<le> 8202 \<or> c \<in> {8232, 8233, 8239, 8287, 12288}"

definition is_ascii_hexdigit :: "nat \<Rightarrow> bool" where
  "is_ascii_hexdigit c \<longleftrightarrow> 48 \<le> c \<and> c \<le> 57 \<or> 65 \<le> c \<and> c \<le> 70 \<or> 97 \<le> c \<and> c \<le> 102"

definition is_ascii_alphanumeric :: "nat \<Rightarrow> bool" where
  "is_ascii_alphanumeric c \<longleftrightarrow> 48 \<le> c \<and> c \<le> 57 \<or> 65 \<le> c \<and> c \<le> 90 \<or> 97 \<le> c \<and> c \<le> 122"

section \<open>Lists\<close>

definition slice :: "nat \<Rightarrow> nat \<Rightarrow> 'a list \<Rightarrow> 'a list" where
  "slice i j xs = take (j - i) (drop i xs)"

lemma length_slice [simp]: "length (slice i j xs) = min (j - i) (length xs - i)"
  by (simp add: slice_def)

lemma slice_0 [simp]: "slice 0 j xs = take j xs"
  by (simp add: slice_def)

lemma slice_to_end [simp]: "length xs \<le> j \<Longrightarrow> slice i j xs = drop i xs"
  by (simp add: slice_def)

lemma slice_append_drop: "i \<le> j \<Longrightarrow> slice i j xs @ drop j xs = drop i xs"
proof -
  assume "i \<le> j"
  then have "drop j xs = drop (j - i) (drop i xs)" by simp
  then show ?thesis by (simp add: slice_def del: drop_drop)
qed

lemma slice_append_slice:
  "i \<le> j \<Longrightarrow> j \<le> k \<Longrightarrow> slice i j xs @ slice j k xs = slice i k xs"
proof -
  assume le: "i \<le> j" "j \<le> k"
  then have "drop j xs = drop (j - i) (drop i xs)" by simp
  moreover have "k - i = (j - i) + (k - j)" using le by simp
  ultimately show ?thesis by (simp only: slice_def take_add)
qed

lemma take_append_slice: "i \<le> j \<Longrightarrow> take i xs @ slice i j xs = take j xs"
  using slice_append_slice [of 0 i j xs] by simp

definition starts_with :: "'a list \<Rightarrow> 'a list \<Rightarrow> bool" where
  "starts_with xs p \<longleftrightarrow> take (length p) xs = p"

lemma starts_with_append [simp]: "starts_with (p @ xs) p"
  by (simp add: starts_with_def)

section \<open>Finite maps\<close>

definition fmsize :: "('k, 'v) fmap \<Rightarrow> nat" where
  "fmsize m = fcard (fmdom m)"

definition fmretain :: "('k \<Rightarrow> 'v \<Rightarrow> bool) \<Rightarrow> ('k, 'v) fmap \<Rightarrow> ('k, 'v) fmap" where
  "fmretain P m = fmfilter (\<lambda>k. case fmlookup m k of Some v \<Rightarrow> P k v | None \<Rightarrow> False) m"

definition fmcontains :: "'k \<Rightarrow> ('k, 'v) fmap \<Rightarrow> bool" where
  "fmcontains k m \<longleftrightarrow> fmlookup m k \<noteq> None"

definition fmany :: "('k \<Rightarrow> 'v \<Rightarrow> bool) \<Rightarrow> ('k, 'v) fmap \<Rightarrow> bool" where
  "fmany P m \<longleftrightarrow> \<not> fmpred (\<lambda>k v. \<not> P k v) m"

lemma fmretain_lookup [simp]:
  "fmlookup (fmretain P m) k =
     (case fmlookup m k of Some v \<Rightarrow> if P k v then Some v else None | None \<Rightarrow> None)"
  by (auto simp: fmretain_def split: option.splits)

lemma fmsize_empty [simp]: "fmsize fmempty = 0"
  by (simp add: fmsize_def)

lemma fmsize_upd:
  "fmsize (fmupd k v m) = (if fmcontains k m then fmsize m else Suc (fmsize m))"
  by (auto simp: fmsize_def fmcontains_def fcard_finsert_if fmlookup_dom_iff)

lemma fmsize_drop:
  "fmsize (fmdrop k m) = (if fmcontains k m then fmsize m - 1 else fmsize m)"
  by (auto simp: fmsize_def fmcontains_def fcard_fminus_fsingleton_if fmlookup_dom_iff)

lemma fmsize_mono: "fmdom m |\<subseteq>| fmdom n \<Longrightarrow> fmsize m \<le> fmsize n"
  by (simp add: fmsize_def fcard_mono)

lemma fmsize_retain_le: "fmsize (fmretain P m) \<le> fmsize m"
  by (rule fmsize_mono) (auto simp: fmretain_def)

lemma fmsize_drop_le: "fmsize (fmdrop k m) \<le> fmsize m"
  by (simp add: fmsize_drop)

lemma fmcontains_simps [simp]:
  "\<not> fmcontains k fmempty"
  "fmcontains k (fmupd k' v m) \<longleftrightarrow> k = k' \<or> fmcontains k m"
  "fmcontains k (fmdrop k' m) \<longleftrightarrow> k \<noteq> k' \<and> fmcontains k m"
  by (auto simp: fmcontains_def)

definition fmcount :: "('v \<Rightarrow> bool) \<Rightarrow> ('k, 'v) fmap \<Rightarrow> nat" where
  "fmcount P m = fcard (ffilter (\<lambda>k. P (the (fmlookup m k))) (fmdom m))"

lemma fmcount_empty [simp]: "fmcount P fmempty = 0"
  by (simp add: fmcount_def fset_eq_iff)

lemma ffilter_cong_dom:
  "(\<And>k. k |\<in>| S \<Longrightarrow> P k = Q k) \<Longrightarrow> ffilter P S = ffilter Q S"
  by (auto simp: fset_eq_iff)

lemma fmcount_drop:
  "fmcount P (fmdrop k m) = (case fmlookup m k of
     Some v \<Rightarrow> if P v then fmcount P m - 1 else fmcount P m | None \<Rightarrow> fmcount P m)"
proof -
  let ?S = "ffilter (\<lambda>k. P (the (fmlookup m k))) (fmdom m)"
  have "ffilter (\<lambda>i. P (the (fmlookup (fmdrop k m) i))) (fmdom (fmdrop k m)) = ?S |-| {|k|}"
    by (auto simp: fset_eq_iff)
  then have "fmcount P (fmdrop k m) = (if k |\<in>| ?S then fcard ?S - 1 else fcard ?S)"
    by (simp only: fmcount_def fcard_fminus_fsingleton_if)
  moreover have "k |\<in>| ?S \<longleftrightarrow> (\<exists>v. fmlookup m k = Some v \<and> P v)"
    by (auto simp: fmlookup_dom_iff)
  ultimately show ?thesis by (auto simp: fmcount_def split: option.splits)
qed

lemma fmcount_pos: "fmlookup m k = Some v \<Longrightarrow> P v \<Longrightarrow> 0 < fmcount P m"
  by (force simp: fmcount_def fmlookup_dom_iff fset_eq_iff zero_less_iff_neq_zero
      simp del: neq0_conv)

lemma fmcount_upd:
  "fmcount P (fmupd k v m) = (if P v then 1 else 0) + fmcount P (fmdrop k m)"
proof -
  let ?S = "ffilter (\<lambda>i. P (the (fmlookup (fmdrop k m) i))) (fmdom (fmdrop k m))"
  have "ffilter (\<lambda>i. P (the (fmlookup (fmupd k v m) i))) (fmdom (fmupd k v m))
      = (if P v then finsert k ?S else ?S)"
    by (auto simp: fset_eq_iff)
  moreover have "k |\<notin>| ?S" by simp
  ultimately show ?thesis by (simp add: fmcount_def fcard_finsert_if)
qed

lemma fmany_iff: "fmany P m \<longleftrightarrow> (\<exists>k v. fmlookup m k = Some v \<and> P k v)"
  by (auto simp: fmany_def fmpred_iff)

lemma fmany_empty [simp]: "\<not> fmany P fmempty"
  by (simp add: fmany_iff)

end
