(* ===== verification/Wire.thy ===== *)
theory Wire
  imports Asp_Prelude
begin

text \<open>
  The message vocabulary of \<open>crates/asp-protocol/src/lib.rs\<close>: protocol versions,
  features and operation labels, events, snapshots, requests and responses, and
  the classification of requests and responses (stream priority, audit label,
  storage admission, encode gate, subscription filter).  An \<open>i32\<close> is an
  \<^typ>\<open>int\<close>.
\<close>

section \<open>Versions, features and operations\<close>

definition PROTOCOL_VERSION :: u16 where [consts_simps]:
  "PROTOCOL_VERSION = 17"

definition LEGACY_PROTOCOL_VERSION :: u16 where [consts_simps]:
  "LEGACY_PROTOCOL_VERSION = 16"

definition SUPPORTED_PROTOCOL_VERSIONS :: "u16 list" where
  "SUPPORTED_PROTOCOL_VERSIONS = [LEGACY_PROTOCOL_VERSION, PROTOCOL_VERSION]"

definition protocol_version_supported :: "u16 \<Rightarrow> bool" where
  "protocol_version_supported version \<longleftrightarrow> version \<in> set SUPPORTED_PROTOCOL_VERSIONS"

definition SUPPORTED_FEATURES :: "string list" where
  "SUPPORTED_FEATURES =
    [''resume_stream'', ''file_stream'', ''file_upload_resume'', ''workspace_state'',
     ''pty_datagram'', ''principal_scopes'', ''event_subscriptions'', ''port_forward'',
     ''exec_summary'', ''process_log_stream'', ''file_preconditions'', ''workspace_index'',
     ''workspace_digest'', ''artifact_stream'']"

definition OPTIONAL_FEATURES :: "string list" where
  "OPTIONAL_FEATURES =
    [''event_consumer_leases'', ''pty_rich_state'', ''pty_rich_compression'',
     ''file_patch_ranges'', ''pty_state_delta'', ''pty_scrollback'']"

definition feature_supported :: "string \<Rightarrow> bool" where
  "feature_supported feature \<longleftrightarrow>
     feature \<in> set SUPPORTED_FEATURES \<or> feature \<in> set OPTIONAL_FEATURES"

definition SUPPORTED_OPERATIONS :: "string list" where
  "SUPPORTED_OPERATIONS =
    [''hello'', ''hello_features'', ''health'', ''open_session'', ''resume_session'',
     ''resume_session_stream'', ''ack_events'', ''ack_events_consumer'', ''subscribe_events'',
     ''exec'', ''exec_summary'', ''process_output_stream'', ''process_state'', ''spawn'',
     ''signal'', ''pty_open'', ''pty_input'', ''pty_input_sequenced'', ''pty_resize'',
     ''file_get'', ''file_get_stream'', ''file_put'', ''file_put_stream_begin'',
     ''file_put_stream_resume_begin'', ''file_put_stream_chunk'', ''file_put_stream_end'',
     ''file_patch'', ''file_patch_ranges'', ''workspace_state'', ''port_open'',
     ''artifact_get_stream'', ''artifact_put_stream_begin'', ''artifact_put_stream_resume_begin'',
     ''artifact_put_stream_chunk'', ''artifact_put_stream_end'']"

section \<open>Size limits\<close>

definition MAX_FRAME_BYTES :: usize where [consts_simps]:
  "MAX_FRAME_BYTES = 134217728"

definition FRAME_HEADER_BYTES :: usize where [consts_simps]:
  "FRAME_HEADER_BYTES = 7"

definition MAX_WIRE_FRAME_BYTES :: usize where [consts_simps]:
  "MAX_WIRE_FRAME_BYTES = MAX_FRAME_BYTES + FRAME_HEADER_BYTES"

definition FRAME_CODEC_OFFLOAD_MIN_BYTES :: usize where [consts_simps]:
  "FRAME_CODEC_OFFLOAD_MIN_BYTES = 65536"

definition PTY_SCROLLBACK_MAX_LINES :: usize where [consts_simps]:
  "PTY_SCROLLBACK_MAX_LINES = 256"

definition PTY_SCROLLBACK_MAX_LINE_BYTES :: usize where [consts_simps]:
  "PTY_SCROLLBACK_MAX_LINE_BYTES = 65536"

definition PTY_SCROLLBACK_MAX_BYTES :: usize where [consts_simps]:
  "PTY_SCROLLBACK_MAX_BYTES = 262144"

section \<open>Events and snapshots\<close>

datatype output_stream = Stdout | Stderr

datatype (plugins only: code size) event_kind =
    SessionCreated
  | ProcessStarted uuid string "u32 option" "uuid option"
      \<comment> \<open>process id, command, pid, request id\<close>
  | ProcessOutput uuid output_stream u64 bytes
      \<comment> \<open>process id, stream, offset, data\<close>
  | ProcessExited uuid "int option"
  | PtyStarted
  | PtyStateAdvanced u64
  | FileChanged string u64
      \<comment> \<open>path, version\<close>
  | FileMutation uuid string string u64 string
      \<comment> \<open>request id, request hash, path, version, sha256\<close>
  | SignalApplied uuid string uuid int bool "string option"
      \<comment> \<open>request id, request hash, process id, signal, success, message\<close>
  | ArtifactCreated uuid string string u64 "string option"
      \<comment> \<open>request id, request hash, artifact id, total size, name\<close>
  | ArtifactDeleted string u64
      \<comment> \<open>artifact id, total size\<close>

record event =
  ev_id :: u64
  ev_unix_ms :: u64
  ev_kind :: event_kind

record pty_snapshot =
  ps_generation :: u64
  ps_rows :: u16
  ps_cols :: u16
  ps_screen :: "string list"
  ps_cursor_row :: u16
  ps_cursor_col :: u16
  ps_tail :: bytes

record pty_scrollback_snapshot =
  sb_generation :: u64
  sb_rows :: u16
  sb_cols :: u16
  sb_lines :: "string list"

record process_snapshot =
  prs_process_id :: uuid
  prs_command :: string
  prs_running :: bool
  prs_exit_code :: "int option"
  prs_stdout_bytes :: u64
  prs_stderr_bytes :: u64

record session_snapshot =
  ss_session_id :: uuid
  ss_latest_event_id :: u64
  ss_processes :: "process_snapshot list"
  ss_pty :: "pty_snapshot option"

record workspace_tree_entry =
  wt_path :: string
  wt_bytes :: u64

record workspace_search_hit =
  wh_query :: string
  wh_path :: string
  wh_line :: u64
  wh_text :: string

record workspace_file =
  wf_path :: string
  wf_sha256 :: string
  wf_data :: bytes

record workspace_version =
  wv_epoch :: uuid
  wv_generation :: u64

record file_patch_range =
  fr_offset :: u64
  fr_remove_len :: u64
  fr_replacement :: bytes

record pty_rich_snapshot =
  rs_generation :: u64
  rs_rows :: u16
  rs_cols :: u16
  rs_screen :: bytes
  rs_cursor_row :: u16
  rs_cursor_col :: u16

section \<open>Requests and responses\<close>

datatype (plugins only: code size) request =
    ReqHello u16 "string option"
      \<comment> \<open>version, auth token\<close>
  | ReqHelloFeatures u16 "string option" "string list"
      \<comment> \<open>version, auth token, features\<close>
  | ReqHealth
  | ReqOpenSession uuid
      \<comment> \<open>request id\<close>
  | ReqResumeSession uuid u64
      \<comment> \<open>session id, last event id\<close>
  | ReqResumeSessionStream uuid u64
      \<comment> \<open>session id, last event id\<close>
  | ReqAckEvents uuid u64
      \<comment> \<open>session id, through event id\<close>
  | ReqSubscribeEvents uuid u64 "uuid option" bool
      \<comment> \<open>session id, after event id, process id, include output\<close>
  | ReqExec uuid uuid string
      \<comment> \<open>session id, request id, command\<close>
  | ReqExecSummary uuid uuid string u32
      \<comment> \<open>session id, request id, command, tail bytes\<close>
  | ReqProcessOutputStream uuid uuid output_stream u64 "u64 option"
      \<comment> \<open>session id, process id, stream, offset, length\<close>
  | ReqProcessState uuid uuid
      \<comment> \<open>session id, process id\<close>
  | ReqSpawn uuid uuid string
      \<comment> \<open>session id, request id, command\<close>
  | ReqSignal uuid uuid uuid int
      \<comment> \<open>session id, request id, process id, signal\<close>
  | ReqPtyOpen uuid u16 u16
      \<comment> \<open>session id, rows, cols\<close>
  | ReqPtyInput uuid bytes
  | ReqPtyInputSequenced uuid u64 bytes
      \<comment> \<open>session id, sequence, data\<close>
  | ReqPtyResize uuid u16 u16
  | ReqFileGet uuid string
  | ReqFileGetStream uuid string u64 "u64 option"
      \<comment> \<open>session id, path, offset, length\<close>
  | ReqFilePut uuid uuid string "string option" bool bytes
      \<comment> \<open>session id, request id, path, expected sha256, allow blind, data\<close>
  | ReqFilePutStreamBegin uuid uuid string u64 string "string option" bool
      \<comment> \<open>session id, request id, path, total size, sha256, expected sha256, allow blind\<close>
  | ReqFilePutStreamResumeBegin uuid uuid string u64 string "string option" bool
  | ReqFilePutStreamChunk u64 bytes
      \<comment> \<open>offset, data\<close>
  | ReqFilePutStreamEnd
  | ReqFilePatch uuid uuid string string u64 u64 bytes
      \<comment> \<open>session id, request id, path, expected sha256, prefix, suffix, replacement\<close>
  | ReqWorkspaceState uuid string bool bool bool u16 "string list" "string list"
      "workspace_version option" "string option"
      \<comment> \<open>session id, workspace, include tree, git status, diff, recent commits, searches,
          read paths, known tree version, known state digest\<close>
  | ReqPortOpen uuid string u16
      \<comment> \<open>session id, host, port\<close>
  | ReqArtifactGetStream uuid string u64 "u64 option"
      \<comment> \<open>session id, artifact id, offset, length\<close>
  | ReqArtifactPutStreamBegin uuid uuid string u64 "string option"
      \<comment> \<open>session id, request id, artifact id, total size, name\<close>
  | ReqArtifactPutStreamResumeBegin uuid uuid string u64 "string option"
  | ReqArtifactPutStreamChunk u64 bytes
  | ReqArtifactPutStreamEnd
  | ReqAckEventsConsumer uuid string u64
      \<comment> \<open>session id, consumer id, through event id\<close>
  | ReqFilePatchRanges uuid uuid string string "file_patch_range list"
      \<comment> \<open>session id, request id, path, expected sha256, ranges\<close>

record health_report =
  hr_protocol_version :: u16
  hr_server :: string
  hr_sessions :: u32
  hr_running_processes :: u32
  hr_active_connections :: u32
  hr_event_log_bytes :: u64
  hr_uptime_ms :: u64
  hr_requests_total :: u64
  hr_request_failures :: u64
  hr_auth_required :: bool
  hr_pty_backend :: string

record workspace_state_report =
  wr_workspace :: string
  wr_tree_version :: "workspace_version option"
  wr_tree_unchanged :: bool
  wr_tree :: "workspace_tree_entry list"
  wr_git_status :: "string option"
  wr_diff :: "string option"
  wr_recent_commits :: "string list"
  wr_search_hits :: "workspace_search_hit list"
  wr_files :: "workspace_file list"
  wr_state_digest :: string
  wr_state_unchanged :: bool

text \<open>The fields of the two widest response variants (\<open>Health\<close> and
  \<open>WorkspaceState\<close>) are grouped into the records above.\<close>

datatype (plugins only: code size) response =
    RespHello u16 string
  | RespHelloFeatures u16 string "string list"
  | RespHealth health_report
  | RespSessionOpened uuid u64
  | RespResumed session_snapshot "event list" bool u64
      \<comment> \<open>snapshot, events, compacted, retained from\<close>
  | RespResumeBegin session_snapshot bool u64 u64
      \<comment> \<open>snapshot, compacted, retained from, event count\<close>
  | RespResumeEvent event
  | RespResumeEnd u64
  | RespAcked u64
  | RespSubscriptionReady session_snapshot u64 u64 bool
      \<comment> \<open>snapshot, through, retained from, compacted\<close>
  | RespEventNotification event
  | RespProcessAccepted uuid u64
  | RespProcessOutput uuid u64 output_stream u64 bytes
      \<comment> \<open>process id, event id, stream, offset, data\<close>
  | RespProcessSummary uuid u64 u64 u64 bytes bytes bool bool
      \<comment> \<open>process id, event id, stdout/stderr bytes, tails, truncated flags\<close>
  | RespProcessOutputStreamBegin uuid output_stream u64 u64 u64
      \<comment> \<open>process id, stream, total size, offset, length\<close>
  | RespProcessOutputStreamChunk u64 bytes
  | RespProcessOutputStreamEnd u64 bool
  | RespProcessState process_snapshot
  | RespProcessExited uuid u64 "int option"
  | RespPtyReady pty_snapshot
  | RespPtyOutput u64 bytes
  | RespPtyInputAck u64
  | RespFileData string u64 string bytes
  | RespFileStreamBegin string u64 u64 u64 u64 string
      \<comment> \<open>path, version, total size, offset, length, sha256\<close>
  | RespFileStreamChunk u64 bytes
  | RespFileStreamEnd u64 string
  | RespFileUploadReady string u64 u64 string
      \<comment> \<open>path, total size, offset, sha256\<close>
  | RespFileStored string u64 string
      \<comment> \<open>path, version, sha256\<close>
  | RespWorkspaceState workspace_state_report
  | RespPortReady string u16
  | RespArtifactUploadReady string u64 u64
  | RespArtifactStored string u64 "string option" u64
      \<comment> \<open>artifact id, total size, name, event id\<close>
  | RespArtifactStreamBegin string u64 u64 u64 string "string option"
      \<comment> \<open>artifact id, total size, offset, length, sha256, name\<close>
  | RespArtifactStreamChunk u64 bytes
  | RespArtifactStreamEnd u64 string
  | RespError string string
      \<comment> \<open>code, message\<close>
  | RespSubscriptionCaughtUp u64
  | RespPtyReadyRich pty_rich_snapshot
  | RespPtyReadyScrollback pty_scrollback_snapshot

section \<open>Classification of messages\<close>

definition QUIC_STREAM_PRIORITY_INTERACTIVE :: int where [consts_simps]:
  "QUIC_STREAM_PRIORITY_INTERACTIVE = 10"

definition QUIC_STREAM_PRIORITY_CONTROL :: int where [consts_simps]:
  "QUIC_STREAM_PRIORITY_CONTROL = 5"

definition QUIC_STREAM_PRIORITY_BULK :: int where [consts_simps]:
  "QUIC_STREAM_PRIORITY_BULK = -5"

definition ranges_replacement_len :: "file_patch_range list \<Rightarrow> usize" where
  "ranges_replacement_len ranges =
     fold (\<lambda>r total. saturating_add total (length (fr_replacement r))) ranges 0"

definition quic_stream_priority :: "request \<Rightarrow> int" where
  "quic_stream_priority x = (case x of
     ReqPtyOpen _ _ _ \<Rightarrow> QUIC_STREAM_PRIORITY_INTERACTIVE
   | ReqPtyInput _ _ \<Rightarrow> QUIC_STREAM_PRIORITY_INTERACTIVE
   | ReqPtyInputSequenced _ _ _ \<Rightarrow> QUIC_STREAM_PRIORITY_INTERACTIVE
   | ReqPtyResize _ _ _ \<Rightarrow> QUIC_STREAM_PRIORITY_INTERACTIVE
   | ReqExecSummary _ _ _ _ \<Rightarrow> QUIC_STREAM_PRIORITY_CONTROL
   | ReqFilePut _ _ _ _ _ data \<Rightarrow>
       (if FRAME_CODEC_OFFLOAD_MIN_BYTES \<le> length data then QUIC_STREAM_PRIORITY_BULK else QUIC_STREAM_PRIORITY_CONTROL)
   | ReqFilePatch _ _ _ _ _ _ replacement \<Rightarrow>
       (if FRAME_CODEC_OFFLOAD_MIN_BYTES \<le> length replacement then QUIC_STREAM_PRIORITY_BULK else QUIC_STREAM_PRIORITY_CONTROL)
   | ReqFilePatchRanges _ _ _ _ ranges \<Rightarrow>
       (if FRAME_CODEC_OFFLOAD_MIN_BYTES \<le> ranges_replacement_len ranges then QUIC_STREAM_PRIORITY_BULK else QUIC_STREAM_PRIORITY_CONTROL)
   | ReqHello _ _ \<Rightarrow> QUIC_STREAM_PRIORITY_CONTROL
   | ReqHelloFeatures _ _ _ \<Rightarrow> QUIC_STREAM_PRIORITY_CONTROL
   | ReqHealth \<Rightarrow> QUIC_STREAM_PRIORITY_CONTROL
   | ReqOpenSession _ \<Rightarrow> QUIC_STREAM_PRIORITY_CONTROL
   | ReqAckEvents _ _ \<Rightarrow> QUIC_STREAM_PRIORITY_CONTROL
   | ReqAckEventsConsumer _ _ _ \<Rightarrow> QUIC_STREAM_PRIORITY_CONTROL
   | ReqSpawn _ _ _ \<Rightarrow> QUIC_STREAM_PRIORITY_CONTROL
   | ReqSignal _ _ _ _ \<Rightarrow> QUIC_STREAM_PRIORITY_CONTROL
   | ReqProcessState _ _ \<Rightarrow> QUIC_STREAM_PRIORITY_CONTROL
   | ReqFilePutStreamBegin _ _ _ _ _ _ _ \<Rightarrow> QUIC_STREAM_PRIORITY_CONTROL
   | ReqFilePutStreamResumeBegin _ _ _ _ _ _ _ \<Rightarrow> QUIC_STREAM_PRIORITY_CONTROL
   | _ \<Rightarrow> QUIC_STREAM_PRIORITY_BULK)"

definition request_kind :: "request \<Rightarrow> string" where
  "request_kind x = (case x of
     ReqHello _ _ \<Rightarrow> ''hello''
   | ReqHelloFeatures _ _ _ \<Rightarrow> ''hello_features''
   | ReqHealth \<Rightarrow> ''health''
   | ReqOpenSession _ \<Rightarrow> ''open_session''
   | ReqResumeSession _ _ \<Rightarrow> ''resume_session''
   | ReqResumeSessionStream _ _ \<Rightarrow> ''resume_session_stream''
   | ReqAckEvents _ _ \<Rightarrow> ''ack_events''
   | ReqAckEventsConsumer _ _ _ \<Rightarrow> ''ack_events_consumer''
   | ReqSubscribeEvents _ _ _ _ \<Rightarrow> ''subscribe_events''
   | ReqExec _ _ _ \<Rightarrow> ''exec''
   | ReqExecSummary _ _ _ _ \<Rightarrow> ''exec_summary''
   | ReqProcessOutputStream _ _ _ _ _ \<Rightarrow> ''process_output_stream''
   | ReqProcessState _ _ \<Rightarrow> ''process_state''
   | ReqSpawn _ _ _ \<Rightarrow> ''spawn''
   | ReqSignal _ _ _ _ \<Rightarrow> ''signal''
   | ReqPtyOpen _ _ _ \<Rightarrow> ''pty_open''
   | ReqPtyInput _ _ \<Rightarrow> ''pty_input''
   | ReqPtyInputSequenced _ _ _ \<Rightarrow> ''pty_input_sequenced''
   | ReqPtyResize _ _ _ \<Rightarrow> ''pty_resize''
   | ReqFileGet _ _ \<Rightarrow> ''file_get''
   | ReqFileGetStream _ _ _ _ \<Rightarrow> ''file_get_stream''
   | ReqFilePut _ _ _ _ _ _ \<Rightarrow> ''file_put''
   | ReqFilePutStreamBegin _ _ _ _ _ _ _ \<Rightarrow> ''file_put_stream_begin''
   | ReqFilePutStreamResumeBegin _ _ _ _ _ _ _ \<Rightarrow> ''file_put_stream_resume_begin''
   | ReqFilePutStreamChunk _ _ \<Rightarrow> ''file_put_stream_chunk''
   | ReqFilePutStreamEnd \<Rightarrow> ''file_put_stream_end''
   | ReqFilePatch _ _ _ _ _ _ _ \<Rightarrow> ''file_patch''
   | ReqFilePatchRanges _ _ _ _ _ \<Rightarrow> ''file_patch_ranges''
   | ReqWorkspaceState _ _ _ _ _ _ _ _ _ _ \<Rightarrow> ''workspace_state''
   | ReqPortOpen _ _ _ \<Rightarrow> ''port_open''
   | ReqArtifactGetStream _ _ _ _ \<Rightarrow> ''artifact_get_stream''
   | ReqArtifactPutStreamBegin _ _ _ _ _ \<Rightarrow> ''artifact_put_stream_begin''
   | ReqArtifactPutStreamResumeBegin _ _ _ _ _ \<Rightarrow> ''artifact_put_stream_resume_begin''
   | ReqArtifactPutStreamChunk _ _ \<Rightarrow> ''artifact_put_stream_chunk''
   | ReqArtifactPutStreamEnd \<Rightarrow> ''artifact_put_stream_end'')"

definition request_requires_storage_headroom :: "request \<Rightarrow> bool" where
  "request_requires_storage_headroom x = (case x of
     ReqOpenSession _ \<Rightarrow> True
   | ReqExec _ _ _ \<Rightarrow> True
   | ReqExecSummary _ _ _ _ \<Rightarrow> True
   | ReqSpawn _ _ _ \<Rightarrow> True
   | ReqSignal _ _ _ _ \<Rightarrow> True
   | ReqPtyOpen _ _ _ \<Rightarrow> True
   | ReqPtyInput _ _ \<Rightarrow> True
   | ReqPtyInputSequenced _ _ _ \<Rightarrow> True
   | ReqFilePut _ _ _ _ _ _ \<Rightarrow> True
   | ReqFilePutStreamBegin _ _ _ _ _ _ _ \<Rightarrow> True
   | ReqFilePutStreamResumeBegin _ _ _ _ _ _ _ \<Rightarrow> True
   | ReqFilePatch _ _ _ _ _ _ _ \<Rightarrow> True
   | ReqFilePatchRanges _ _ _ _ _ \<Rightarrow> True
   | ReqArtifactPutStreamBegin _ _ _ _ _ \<Rightarrow> True
   | ReqArtifactPutStreamResumeBegin _ _ _ _ _ \<Rightarrow> True
   | ReqAckEventsConsumer _ _ _ \<Rightarrow> True
   | _ \<Rightarrow> False)"

fun event_is_large :: "event_kind \<Rightarrow> bool" where
  "event_is_large (ProcessOutput _ _ _ data) \<longleftrightarrow> FRAME_CODEC_OFFLOAD_MIN_BYTES \<le> length data"
| "event_is_large _ \<longleftrightarrow> False"

definition response_requires_encode_gate :: "response \<Rightarrow> bool" where
  "response_requires_encode_gate x = (case x of
     RespResumed _ _ _ _ \<Rightarrow> True
   | RespResumeBegin _ _ _ _ \<Rightarrow> True
   | RespSubscriptionReady _ _ _ _ \<Rightarrow> True
   | RespWorkspaceState _ \<Rightarrow> True
   | RespResumeEvent e \<Rightarrow> event_is_large (ev_kind e)
   | RespEventNotification e \<Rightarrow> event_is_large (ev_kind e)
   | RespProcessOutput _ _ _ _ data \<Rightarrow>
       (FRAME_CODEC_OFFLOAD_MIN_BYTES \<le> length data)
   | RespPtyOutput _ data \<Rightarrow> (FRAME_CODEC_OFFLOAD_MIN_BYTES \<le> length data)
   | RespFileStreamChunk _ data \<Rightarrow> (FRAME_CODEC_OFFLOAD_MIN_BYTES \<le> length data)
   | RespProcessOutputStreamChunk _ data \<Rightarrow>
       (FRAME_CODEC_OFFLOAD_MIN_BYTES \<le> length data)
   | RespArtifactStreamChunk _ data \<Rightarrow>
       (FRAME_CODEC_OFFLOAD_MIN_BYTES \<le> length data)
   | RespProcessSummary _ _ _ _ out_tail err_tail _ _ \<Rightarrow>
       (FRAME_CODEC_OFFLOAD_MIN_BYTES \<le> saturating_add (length out_tail) (length err_tail))
   | RespPtyReady s \<Rightarrow>
       (FRAME_CODEC_OFFLOAD_MIN_BYTES \<le> saturating_add (length (ps_tail s)) (sum_list (map length (ps_screen s))))
   | RespPtyReadyRich s \<Rightarrow> (FRAME_CODEC_OFFLOAD_MIN_BYTES \<le> length (rs_screen s))
   | RespPtyReadyScrollback s \<Rightarrow>
       (FRAME_CODEC_OFFLOAD_MIN_BYTES \<le> sum_list (map length (sb_lines s)))
   | RespFileData _ _ _ data \<Rightarrow> (FRAME_CODEC_OFFLOAD_MIN_BYTES \<le> length data)
   | _ \<Rightarrow> False)"

definition event_process_id :: "event_kind \<Rightarrow> uuid option" where
  "event_process_id k = (case k of
     ProcessStarted p _ _ _ \<Rightarrow> Some p
   | ProcessOutput p _ _ _ \<Rightarrow> Some p
   | ProcessExited p _ \<Rightarrow> Some p
   | SignalApplied _ _ p _ _ _ \<Rightarrow> Some p
   | _ \<Rightarrow> None)"

definition is_process_output :: "event_kind \<Rightarrow> bool" where
  "is_process_output k = (case k of ProcessOutput _ _ _ _ \<Rightarrow> True | _ \<Rightarrow> False)"

definition event_matches_subscription :: "event \<Rightarrow> uuid option \<Rightarrow> bool \<Rightarrow> bool" where
  "event_matches_subscription e process_id include_output =
     (if \<not> include_output \<and> is_process_output (ev_kind e) then False
      else case process_id of
             None \<Rightarrow> True
           | Some wanted \<Rightarrow> event_process_id (ev_kind e) = Some wanted)"

end
