(* ===== verification/Framed_Stream.thy ===== *)
theory Framed_Stream
  imports Asp_Prelude
begin

text \<open>
  The contract between a writer that appends self-delimiting records to a byte
  stream and a reader that consumes them one by one.  It is stated once, for any
  codec parameter \<open>c\<close> that satisfies the laws \<open>lawful\<close>, and interpreted on the
  QUIC frames of the protocol crate and on the event log of the server.
\<close>

text \<open>A writer called for every message in turn, stopping at the first error; and
  a reader called until it reports the end of the stream, with fuel.\<close>

fun write_seq :: "('s \<Rightarrow> 'a \<Rightarrow> 'e + 's) \<Rightarrow> 's \<Rightarrow> 'a list \<Rightarrow> 'e + 's" where
  "write_seq wr s [] = Inr s"
| "write_seq wr s (m # ms) = and_then (wr s m) (\<lambda>s'. write_seq wr s' ms)"

fun read_seq :: "nat \<Rightarrow> ('s \<Rightarrow> 'e + ('a option \<times> 's)) \<Rightarrow> 's \<Rightarrow> ('e + 'a list) option" where
  "read_seq 0 rd s = None"
| "read_seq (Suc n) rd s =
     (case rd s of
        Inl e \<Rightarrow> Some (Inl e)
      | Inr (None, _) \<Rightarrow> Some (Inr [])
      | Inr (Some m, s') \<Rightarrow> map_option (map_sum id (Cons m)) (read_seq n rd s'))"

locale framed_stream =
  fixes lawful :: "'c \<Rightarrow> bool"
    and wr :: "'c \<Rightarrow> bytes \<Rightarrow> 'a \<Rightarrow> 'e + bytes"
    and rd :: "'c \<Rightarrow> bytes \<Rightarrow> 'e + ('a option \<times> bytes)"
  assumes write_one: "\<lbrakk>lawful c; wr c s m = Inr s'\<rbrakk>
      \<Longrightarrow> \<exists>w. s' = s @ w \<and> w \<noteq> [] \<and> (\<forall>rest. rd c (w @ rest) = Inr (Some m, rest))
            \<and> (\<forall>n. 0 < n \<and> n < length w \<longrightarrow> (\<exists>e. rd c (take n w) = Inl e))"
    and read_end: "rd c [] = Inr (None, [])"
begin

lemma write_seq_appends:
  assumes "lawful c" "write_seq (wr c) s ms = Inr s'"
  shows "\<exists>w. s' = s @ w"
  using assms(2)
proof (induction ms arbitrary: s)
  case (Cons m ms)
  then obtain t where t: "wr c s m = Inr t" "write_seq (wr c) t ms = Inr s'" by auto
  then show ?case using Cons.IH write_one [OF assms(1) t(1)] by fastforce
qed simp

lemma read_seq_write_seq:
  assumes "lawful c" "write_seq (wr c) s ms = Inr (s @ w)" "length ms < fuel"
  shows "read_seq fuel (rd c) w = Some (Inr ms)"
  using assms(2,3)
proof (induction ms arbitrary: s w fuel)
  case Nil
  then show ?case by (cases fuel) (simp_all add: read_end)
next
  case (Cons m ms)
  then obtain t where t: "wr c s m = Inr t" "write_seq (wr c) t ms = Inr (s @ w)" by auto
  obtain v where v: "t = s @ v" "\<And>rest. rd c (v @ rest) = Inr (Some m, rest)"
    using write_one [OF assms(1) t(1)] by auto
  obtain u where u: "s @ w = t @ u" using write_seq_appends [OF assms(1) t(2)] by blast
  then have w: "w = v @ u" using v(1) by simp
  obtain f where f: "fuel = Suc f" using Cons.prems(2) by (cases fuel) auto
  have "read_seq f (rd c) u = Some (Inr ms)"
    using Cons.IH [of t u f] t(2) u Cons.prems(2) f by simp
  then show ?case by (simp add: f w v(2))
qed

text \<open>A stream cut short at any byte: the reader reports an error, or the complete
  messages before the cut; it never invents or reorders one.\<close>

lemma read_seq_truncated:
  assumes "lawful c" "write_seq (wr c) s ms = Inr (s @ w)" "length ms < fuel"
  shows "(\<exists>k. read_seq fuel (rd c) (take n w) = Some (Inr (take k ms)))
    \<or> (\<exists>e. read_seq fuel (rd c) (take n w) = Some (Inl e))"
  using assms(2,3)
proof (induction ms arbitrary: s w n fuel)
  case Nil
  then show ?case by (cases fuel) (simp_all add: read_end)
next
  case (Cons m ms)
  then obtain t where t: "wr c s m = Inr t" "write_seq (wr c) t ms = Inr (s @ w)" by auto
  obtain v where v: "t = s @ v" "\<And>rest. rd c (v @ rest) = Inr (Some m, rest)"
    "\<And>n. 0 < n \<Longrightarrow> n < length v \<Longrightarrow> \<exists>e. rd c (take n v) = Inl e"
    using write_one [OF assms(1) t(1)] by auto
  obtain u where u: "s @ w = t @ u" using write_seq_appends [OF assms(1) t(2)] by blast
  then have w: "w = v @ u" using v(1) by simp
  obtain f where f: "fuel = Suc f" using Cons.prems(2) by (cases fuel) auto
  consider (start) "n = 0" | (inside) "0 < n" "n < length v" | (after) "length v \<le> n" by linarith
  then show ?case
  proof cases
    case start
    then show ?thesis by (auto simp: f read_end intro: exI [of _ 0])
  next
    case inside
    then obtain e where "rd c (take n v) = Inl e" using v(3) by blast
    then show ?thesis using inside by (simp add: f w)
  next
    case after
    have IH: "(\<exists>k. read_seq f (rd c) (take (n - length v) u) = Some (Inr (take k ms)))
        \<or> (\<exists>e. read_seq f (rd c) (take (n - length v) u) = Some (Inl e))"
      using Cons.IH [of t u f] t(2) u Cons.prems(2) f by simp
    have rd: "rd c (take n w) = Inr (Some m, take (n - length v) u)"
      using after v(2) by (simp add: w)
    from IH show ?thesis
    proof
      assume "\<exists>k. read_seq f (rd c) (take (n - length v) u) = Some (Inr (take k ms))"
      then obtain k where "read_seq f (rd c) (take (n - length v) u) = Some (Inr (take k ms))"
        by blast
      then have "read_seq fuel (rd c) (take n w) = Some (Inr (take (Suc k) (m # ms)))"
        by (simp add: f rd)
      then show ?thesis by blast
    qed (auto simp: f rd)
  qed
qed

end

end
