(* ===== verification/Frame_Codec.thy ===== *)
theory Frame_Codec
  imports Wire Framed_Stream
begin

text \<open>
  The stream-frame envelope of \<open>crates/asp-protocol/src/lib.rs\<close>: the compression
  heuristic, encoding and decoding of one frame payload for both protocol
  versions, and the length-prefixed frames of a reliable QUIC stream.

  \<open>flate2\<close> and \<open>postcard\<close> are parameters.  \<open>deflate\<close> is the finished output of
  \<open>ZlibEncoder\<close> (or an error); \<open>inflate\<close> gives the bytes a \<open>ZlibDecoder\<close> yields
  and whether reading past them fails.  \<open>ser\<close>/\<open>de\<close> are
  \<open>postcard::to_allocvec\<close> and \<open>postcard::from_bytes\<close>.  A send stream is the list
  of bytes written so far, a receive stream the bytes still to be read before
  the peer's FIN.
\<close>

datatype frame_error =
    FrameTooLarge
  | LengthExceedsU32
  | CompressFailed
  | ShorterThanEnvelope
  | InvalidMarker
  | TooLargeAfterDecompression
  | PlainLengthMismatch
  | EmptyCompressedPayload
  | DecompressFailed
  | CompressedLengthMismatch
  | UnknownEncoding byte
  | LegacyFrameTooLarge
  | UnsupportedFrameVersion u16
  | SerializeFailed
  | DecodeFailed
  | PeerWireFrameTooLarge
  | FinishedEarly usize
  | DatagramTooLarge
  | DatagramTruncated

type_synonym deflater = "bytes \<Rightarrow> bytes option"
type_synonym inflater = "bytes \<Rightarrow> bytes \<times> bool"

section \<open>Constants\<close>

definition FRAME_MAGIC :: bytes where [consts_simps]:
  "FRAME_MAGIC = [0x41, 0x46]"

definition FRAME_ENCODING_PLAIN :: byte where [consts_simps]:
  "FRAME_ENCODING_PLAIN = 0"

definition FRAME_ENCODING_ZLIB :: byte where [consts_simps]:
  "FRAME_ENCODING_ZLIB = 1"

definition FRAME_COMPRESSION_MIN_BYTES :: usize where [consts_simps]:
  "FRAME_COMPRESSION_MIN_BYTES = 1024"

definition FRAME_COMPRESSION_HEURISTIC_MIN_BYTES :: usize where [consts_simps]:
  "FRAME_COMPRESSION_HEURISTIC_MIN_BYTES = 65536"

definition FRAME_COMPRESSION_SAMPLE_BYTES :: usize where [consts_simps]:
  "FRAME_COMPRESSION_SAMPLE_BYTES = 4096"

definition FRAME_COMPRESSION_HIGH_DIVERSITY_BYTES :: usize where [consts_simps]:
  "FRAME_COMPRESSION_HIGH_DIVERSITY_BYTES = 240"

section \<open>Compression heuristic\<close>

definition sample_windows :: "bytes \<Rightarrow> bytes list" where
  "sample_windows payload =
     (let window = min FRAME_COMPRESSION_SAMPLE_BYTES (length payload);
          starts = [0, saturating_sub (length payload) window div 2,
                    saturating_sub (length payload) window]
      in map (\<lambda>start. slice start (min (saturating_add start window) (length payload)) payload)
           starts)"

definition histogram_step :: "byte \<Rightarrow> usize list \<times> usize \<Rightarrow> usize list \<times> usize" where
  "histogram_step b = (\<lambda>(histogram, sampled).
     (histogram[unat b := saturating_add (histogram ! unat b) 1], saturating_add sampled 1))"

definition histogram_of :: "bytes \<Rightarrow> usize list \<times> usize" where
  "histogram_of bs = fold histogram_step bs (replicate 256 0, 0)"

definition should_attempt_frame_compression :: "bytes \<Rightarrow> bool" where
  "should_attempt_frame_compression payload =
     (if length payload < FRAME_COMPRESSION_MIN_BYTES then False
      else if length payload < FRAME_COMPRESSION_HEURISTIC_MIN_BYTES then True
      else
        let (histogram, sampled) = histogram_of (concat (sample_windows payload));
            distinct_bytes = length (filter (\<lambda>count. count \<noteq> 0) histogram);
            largest_bucket = fold max histogram 0
        in \<not> (FRAME_COMPRESSION_HIGH_DIVERSITY_BYTES \<le> distinct_bytes
              \<and> largest_bucket \<le> sampled div 32))"

section \<open>One frame payload\<close>

definition encode_frame_payload :: "deflater \<Rightarrow> bytes \<Rightarrow> frame_error + bytes" where
  "encode_frame_payload deflate payload =
     (if MAX_FRAME_BYTES < length payload then Inl FrameTooLarge
      else if u32_max < length payload then Inl LengthExceedsU32
      else
        let original_len = be_bytes 4 (length payload);
            plain = FRAME_MAGIC @ [FRAME_ENCODING_PLAIN] @ original_len @ payload
        in if should_attempt_frame_compression payload then
             case deflate payload of
               None \<Rightarrow> Inl CompressFailed
             | Some compressed \<Rightarrow>
                 let framed = FRAME_MAGIC @ [FRAME_ENCODING_ZLIB] @ original_len @ compressed
                 in if length compressed < length payload
                       \<and> length framed \<le> MAX_WIRE_FRAME_BYTES
                    then Inr framed else Inr plain
           else Inr plain)"

text \<open>\<open>Read::take(limit).read_to_end\<close>: stops at the limit before it can observe an
  error behind it.\<close>

definition take_read_to_end :: "nat \<Rightarrow> bytes \<times> bool \<Rightarrow> bytes option" where
  "take_read_to_end limit = (\<lambda>(produced, fails).
     if limit \<le> length produced then Some (take limit produced)
     else if fails then None else Some produced)"

definition header_original_len :: "bytes \<Rightarrow> usize" where
  "header_original_len payload = be_nat (slice 3 7 payload)"

definition decode_frame_payload :: "inflater \<Rightarrow> bytes \<Rightarrow> frame_error + bytes" where
  "decode_frame_payload inflate payload =
     (if length payload < FRAME_HEADER_BYTES then Inl ShorterThanEnvelope
      else if take 2 payload \<noteq> FRAME_MAGIC then Inl InvalidMarker
      else
        let encoding = payload ! 2;
            original_len = header_original_len payload;
            body = drop FRAME_HEADER_BYTES payload
        in if MAX_FRAME_BYTES < original_len then Inl TooLargeAfterDecompression
           else if encoding = FRAME_ENCODING_PLAIN then
             (if length body \<noteq> original_len then Inl PlainLengthMismatch else Inr body)
           else if encoding = FRAME_ENCODING_ZLIB then
             (if body = [] then Inl EmptyCompressedPayload
              else case take_read_to_end (original_len + 1) (inflate body) of
                     None \<Rightarrow> Inl DecompressFailed
                   | Some decoded \<Rightarrow>
                       if length decoded \<noteq> original_len then Inl CompressedLengthMismatch
                       else Inr decoded)
           else Inl (UnknownEncoding encoding))"

definition frame_decoded_len :: "bytes \<Rightarrow> frame_error + usize" where
  "frame_decoded_len header =
     (if length header < FRAME_HEADER_BYTES then Inl ShorterThanEnvelope
      else if take 2 header \<noteq> FRAME_MAGIC then Inl InvalidMarker
      else if header ! 2 \<notin> {FRAME_ENCODING_PLAIN, FRAME_ENCODING_ZLIB}
      then Inl (UnknownEncoding (header ! 2))
      else if MAX_FRAME_BYTES < header_original_len header then Inl TooLargeAfterDecompression
      else Inr (header_original_len header))"

definition encode_frame_payload_for_version ::
    "deflater \<Rightarrow> bytes \<Rightarrow> u16 \<Rightarrow> frame_error + bytes" where
  "encode_frame_payload_for_version deflate payload version =
     (if version = LEGACY_PROTOCOL_VERSION then
        (if MAX_FRAME_BYTES < length payload then Inl LegacyFrameTooLarge else Inr payload)
      else if version = PROTOCOL_VERSION then encode_frame_payload deflate payload
      else Inl (UnsupportedFrameVersion version))"

definition decode_frame_payload_for_version ::
    "inflater \<Rightarrow> bytes \<Rightarrow> u16 \<Rightarrow> frame_error + bytes" where
  "decode_frame_payload_for_version inflate payload version =
     (if version = LEGACY_PROTOCOL_VERSION then
        (if MAX_FRAME_BYTES < length payload then Inl LegacyFrameTooLarge else Inr payload)
      else if version = PROTOCOL_VERSION then decode_frame_payload inflate payload
      else Inl (UnsupportedFrameVersion version))"

section \<open>Messages and streams\<close>

definition encode_message :: "('a \<Rightarrow> bytes option) \<Rightarrow> 'a \<Rightarrow> frame_error + bytes" where
  "encode_message ser v = ok_or SerializeFailed (ser v)"

definition decode_message :: "(bytes \<Rightarrow> 'a option) \<Rightarrow> bytes \<Rightarrow> frame_error + 'a" where
  "decode_message de payload = ok_or DecodeFailed (de payload)"

definition write_frame_for_version ::
    "('a \<Rightarrow> bytes option) \<Rightarrow> deflater \<Rightarrow> u16 \<Rightarrow> bytes \<Rightarrow> 'a \<Rightarrow> frame_error + bytes" where
  "write_frame_for_version ser deflate version send v =
     and_then (encode_message ser v) (\<lambda>message.
     and_then (encode_frame_payload_for_version deflate message version) (\<lambda>payload.
       if u32_max < length payload then Inl LengthExceedsU32
       else Inr (send @ be_bytes 4 (length payload) @ payload)))"

definition write_frame :: "('a \<Rightarrow> bytes option) \<Rightarrow> deflater \<Rightarrow> bytes \<Rightarrow> 'a \<Rightarrow> frame_error + bytes" where
  "write_frame ser deflate = write_frame_for_version ser deflate PROTOCOL_VERSION"

text \<open>\<open>RecvStream::read_exact\<close> on a stream whose peer has finished.\<close>

definition read_exact :: "bytes \<Rightarrow> usize \<Rightarrow> frame_error + (bytes \<times> bytes)" where
  "read_exact recv n =
     (if n \<le> length recv then Inr (take n recv, drop n recv)
      else Inl (FinishedEarly (length recv)))"

definition read_frame_payload_for_version ::
    "u16 \<Rightarrow> bytes \<Rightarrow> frame_error + (bytes option \<times> bytes)" where
  "read_frame_payload_for_version version recv =
     (case read_exact recv 4 of
        Inl (FinishedEarly 0) \<Rightarrow> Inr (None, [])
      | Inl e \<Rightarrow> Inl e
      | Inr (prefix, recv) \<Rightarrow>
          let len = be_nat prefix;
              maximum = (if version = LEGACY_PROTOCOL_VERSION then MAX_FRAME_BYTES
                         else MAX_WIRE_FRAME_BYTES)
          in if maximum < len then Inl PeerWireFrameTooLarge
             else and_then (read_exact recv len) (\<lambda>(payload, recv).
                    Inr (Some payload, recv)))"

definition read_frame_for_version ::
    "(bytes \<Rightarrow> 'a option) \<Rightarrow> inflater \<Rightarrow> u16 \<Rightarrow> bytes \<Rightarrow> frame_error + ('a option \<times> bytes)" where
  "read_frame_for_version de inflate version recv =
     and_then (read_frame_payload_for_version version recv) (\<lambda>(payload, recv).
       case payload of
         None \<Rightarrow> Inr (None, recv)
       | Some payload \<Rightarrow>
           and_then (decode_frame_payload_for_version inflate payload version) (\<lambda>decoded.
           and_then (decode_message de decoded) (\<lambda>v. Inr (Some v, recv))))"

definition read_frame :: "(bytes \<Rightarrow> 'a option) \<Rightarrow> inflater \<Rightarrow> bytes \<Rightarrow> frame_error + ('a option \<times> bytes)" where
  "read_frame de inflate = read_frame_for_version de inflate PROTOCOL_VERSION"

text \<open>What the callers rely on of the two libraries.\<close>

definition zlib_law :: "deflater \<Rightarrow> inflater \<Rightarrow> bool" where
  "zlib_law deflate inflate \<longleftrightarrow>
     (\<forall>p c. deflate p = Some c \<longrightarrow> c \<noteq> [] \<and> inflate c = (p, False))"

definition postcard_law :: "('a \<Rightarrow> bytes option) \<Rightarrow> (bytes \<Rightarrow> 'a option) \<Rightarrow> bool" where
  "postcard_law ser de \<longleftrightarrow> (\<forall>v b. ser v = Some b \<longrightarrow> de b = Some v)"

section \<open>The histogram counts the sampled bytes\<close>

declare upt_rec_numeral [simp del]

lemma fold_histogram_step:
  assumes "length h = 256" "\<And>i. i < 256 \<Longrightarrow> h ! i + length bs \<le> u64_max"
    and "n + length bs \<le> u64_max"
  shows "fold histogram_step bs (h, n) =
    (map (\<lambda>i. h ! i + count_list bs (of_nat i)) [0..<256], n + length bs)"
  using assms
proof (induction bs arbitrary: h n)
  case Nil
  then show ?case by (simp add: list_eq_iff_nth_eq)
next
  case (Cons b bs)
  define h' where "h' = h[unat b := saturating_add (h ! unat b) 1]"
  have lt: "unat b < 256" using unsigned_less [of b, where ?'a = nat] by simp
  have sat: "saturating_add (h ! unat b) 1 = Suc (h ! unat b)" "saturating_add n 1 = Suc n"
    using Cons.prems(2) [OF lt] Cons.prems(3) by (simp_all add: saturating_add_def)
  have nth: "h' ! i = (if i = unat b then Suc (h ! i) else h ! i)" if "i < 256" for i
    using that Cons.prems(1) sat by (auto simp: h'_def nth_list_update)
  have "fold histogram_step bs (h', Suc n) =
      (map (\<lambda>i. h' ! i + count_list bs (of_nat i)) [0..<256], Suc n + length bs)"
  proof (rule Cons.IH)
    show "length h' = 256" using Cons.prems(1) by (simp add: h'_def)
    show "h' ! i + length bs \<le> u64_max" if "i < 256" for i
      using Cons.prems(2) [OF that] nth [OF that] by (auto split: if_splits)
  qed (use Cons.prems(3) in simp)
  moreover have "h' ! i + count_list bs (of_nat i) = h ! i + count_list (b # bs) (of_nat i)"
    if "i < 256" for i
  proof -
    have "b = of_nat i \<longleftrightarrow> i = unat b"
      using that by (auto simp: unat_of_nat take_bit_eq_mod)
    then show ?thesis using nth [OF that] by simp
  qed
  moreover have "histogram_step b (h, n) = (h', Suc n)"
    using sat by (simp add: histogram_step_def h'_def)
  ultimately show ?case by simp
qed

lemma histogram_of_eq:
  assumes "length bs \<le> u64_max"
  shows "histogram_of bs = (map (\<lambda>i. count_list bs (of_nat i)) [0..<256], length bs)"
  unfolding histogram_of_def
  using fold_histogram_step [of "replicate 256 0" bs 0] assms by simp

lemma unat_of_nat_byte: "i < 256 \<Longrightarrow> unat (of_nat i :: byte) = i"
  by (simp add: unat_of_nat take_bit_eq_mod)

lemma count_list_eq_0_iff: "count_list xs x = 0 \<longleftrightarrow> x \<notin> set xs"
  by (induction xs) auto

lemma byte_is_of_nat: "\<exists>i < 256. b = (of_nat i :: byte)"
  using unsigned_less [of b, where ?'a = nat] by (intro exI [of _ "unat b"]) simp

lemma distinct_bytes_eq:
  "length (filter (\<lambda>c. c \<noteq> 0) (map (\<lambda>i. count_list bs (of_nat i :: byte)) [0..<256]))
     = card (set bs)"
proof -
  let ?I = "{i. (of_nat i :: byte) \<in> set bs} \<inter> {..<256}"
  have "length (filter (\<lambda>c. c \<noteq> 0) (map (\<lambda>i. count_list bs (of_nat i :: byte)) [0..<256]))
      = card ?I"
    by (simp add: filter_map o_def count_list_eq_0_iff distinct_length_filter lessThan_atLeast0
        del: neq0_conv)
  also have "\<dots> = card ((\<lambda>i. of_nat i :: byte) ` ?I)"
  proof (rule card_image [symmetric], rule inj_onI)
    fix i j assume "i \<in> ?I" "j \<in> ?I" "(of_nat i :: byte) = of_nat j"
    then show "i = j" by (metis Int_iff lessThan_iff unat_of_nat_byte)
  qed
  also have "(\<lambda>i. of_nat i :: byte) ` ?I = set bs"
  proof (intro set_eqI iffI)
    fix b assume "b \<in> set bs"
    moreover obtain i where "i < 256" "b = (of_nat i :: byte)" using byte_is_of_nat by blast
    ultimately show "b \<in> (\<lambda>i. of_nat i :: byte) ` ?I" by blast
  qed blast
  finally show ?thesis .
qed

lemma fold_max_le_iff: "fold max xs (a::nat) \<le> n \<longleftrightarrow> a \<le> n \<and> (\<forall>x \<in> set xs. x \<le> n)"
  by (induction xs arbitrary: a) auto

lemma largest_bucket_le_iff:
  "fold max (map (\<lambda>i. count_list bs (of_nat i :: byte)) [0..<256]) 0 \<le> n
     \<longleftrightarrow> (\<forall>b \<in> set bs. count_list bs b \<le> n)"
proof
  assume "fold max (map (\<lambda>i. count_list bs (of_nat i :: byte)) [0..<256]) 0 \<le> n"
  then have *: "count_list bs (of_nat i :: byte) \<le> n" if "i < 256" for i
    using that by (auto simp: fold_max_le_iff)
  show "\<forall>b \<in> set bs. count_list bs b \<le> n"
  proof
    fix b
    obtain i where "i < 256" "b = (of_nat i :: byte)" using byte_is_of_nat by blast
    then show "count_list bs b \<le> n" using * by simp
  qed
next
  assume "\<forall>b \<in> set bs. count_list bs b \<le> n"
  then have "count_list bs b \<le> n" for b
    by (cases "b \<in> set bs") (simp_all add: count_list_eq_0_iff [THEN iffD2])
  then show "fold max (map (\<lambda>i. count_list bs (of_nat i :: byte)) [0..<256]) 0 \<le> n"
    by (simp add: fold_max_le_iff)
qed

lemma length_concat_sample_windows:
  "FRAME_COMPRESSION_HEURISTIC_MIN_BYTES \<le> length p \<Longrightarrow> length p \<le> u64_max
     \<Longrightarrow> length (concat (sample_windows p)) = 12288"
  by (simp add: sample_windows_def consts_simps Let_def saturating_add_def min_def) linarith

text \<open>Reference form of the heuristic: skip only a payload of at least 64 KiB whose
  three sampled windows hold at least 240 distinct bytes, none of them more than
  one thirty-second of the sample.\<close>

definition looks_incompressible :: "bytes \<Rightarrow> bool" where
  "looks_incompressible payload \<longleftrightarrow>
     (let sample = concat (sample_windows payload) in
       240 \<le> card (set sample) \<and> (\<forall>b \<in> set sample. count_list sample b \<le> 384))"

lemma should_attempt_eq:
  assumes "length payload \<le> u64_max"
  shows "should_attempt_frame_compression payload \<longleftrightarrow>
    1024 \<le> length payload \<and> (65536 \<le> length payload \<longrightarrow> \<not> looks_incompressible payload)"
proof (cases "65536 \<le> length payload")
  case True
  then have "length (concat (sample_windows payload)) = 12288"
    using length_concat_sample_windows [of payload] assms by (simp add: consts_simps)
  moreover from this
  have "histogram_of (concat (sample_windows payload)) =
      (map (\<lambda>i. count_list (concat (sample_windows payload)) (of_nat i)) [0..<256], 12288)"
    by (subst histogram_of_eq) (simp_all add: u64_max_def)
  ultimately show ?thesis
    using True
    by (simp only: should_attempt_frame_compression_def Let_def prod.case distinct_bytes_eq
        largest_bucket_le_iff looks_incompressible_def consts_simps) simp
next
  case False
  then show ?thesis
    by (auto simp: should_attempt_frame_compression_def consts_simps)
qed

declare upt_rec_numeral [simp]

section \<open>Round trip of one frame\<close>

lemma frame_fields:
  assumes "n < 4294967296"
  shows "take 2 (FRAME_MAGIC @ [e] @ be_bytes 4 n @ body) = FRAME_MAGIC"
    and "(FRAME_MAGIC @ [e] @ be_bytes 4 n @ body) ! 2 = e"
    and "header_original_len (FRAME_MAGIC @ [e] @ be_bytes 4 n @ body) = n"
    and "drop FRAME_HEADER_BYTES (FRAME_MAGIC @ [e] @ be_bytes 4 n @ body) = body"
    and "length (FRAME_MAGIC @ [e] @ be_bytes 4 n @ body) = FRAME_HEADER_BYTES + length body"
  using assms be_nat_be_bytes [of n 4]
  by (simp_all add: consts_simps header_original_len_def slice_def)

lemma frame_header_take:
  "take FRAME_HEADER_BYTES (FRAME_MAGIC @ [e] @ be_bytes 4 n @ body)
     = FRAME_MAGIC @ [e] @ be_bytes 4 n @ []"
  by (simp add: consts_simps)

lemma take_read_to_end_exact [simp]: "take_read_to_end (Suc (length p)) (p, False) = Some p"
  by (simp add: take_read_to_end_def)

lemma decode_plain_frame:
  assumes "length p \<le> MAX_FRAME_BYTES"
  shows "decode_frame_payload inflate
    (FRAME_MAGIC @ [FRAME_ENCODING_PLAIN] @ be_bytes 4 (length p) @ p) = Inr p"
proof -
  have "length p < 4294967296" using assms by (simp add: consts_simps)
  note fields = frame_fields [OF this, of FRAME_ENCODING_PLAIN p]
  show ?thesis using assms
    by (simp only: decode_frame_payload_def fields Let_def) simp
qed

lemma decode_zlib_frame:
  assumes "zlib_law deflate inflate" "deflate p = Some c" "length p \<le> MAX_FRAME_BYTES"
  shows "decode_frame_payload inflate
    (FRAME_MAGIC @ [FRAME_ENCODING_ZLIB] @ be_bytes 4 (length p) @ c) = Inr p"
proof -
  have "length p < 4294967296" using assms by (simp add: consts_simps)
  note fields = frame_fields [OF this, of FRAME_ENCODING_ZLIB c]
  have "c \<noteq> []" "inflate c = (p, False)" using assms by (auto simp: zlib_law_def)
  moreover have "FRAME_ENCODING_ZLIB \<noteq> FRAME_ENCODING_PLAIN" by (simp add: consts_simps)
  ultimately show ?thesis using assms(3)
    by (simp only: decode_frame_payload_def fields Let_def) simp
qed

lemma encode_frame_payload_cases:
  assumes "encode_frame_payload deflate p = Inr f"
  obtains (plain) "f = FRAME_MAGIC @ [FRAME_ENCODING_PLAIN] @ be_bytes 4 (length p) @ p"
      "length p \<le> MAX_FRAME_BYTES"
  | (zlib) c where "f = FRAME_MAGIC @ [FRAME_ENCODING_ZLIB] @ be_bytes 4 (length p) @ c"
      "length p \<le> MAX_FRAME_BYTES" "deflate p = Some c" "length c < length p"
  using assms
  by (auto simp: encode_frame_payload_def Let_def not_less
      split: if_splits option.splits)

lemma encode_frame_payload_roundtrip:
  assumes "zlib_law deflate inflate" "encode_frame_payload deflate p = Inr f"
  shows "decode_frame_payload inflate f = Inr p"
  using assms(2)
  by (cases rule: encode_frame_payload_cases)
     (use assms(1) decode_plain_frame decode_zlib_frame in blast)+

lemma encode_frame_payload_length:
  assumes "encode_frame_payload deflate p = Inr f"
  shows "length f \<le> FRAME_HEADER_BYTES + length p" "FRAME_HEADER_BYTES \<le> length f"
    "length p \<le> MAX_FRAME_BYTES"
  using assms by (cases rule: encode_frame_payload_cases; simp add: consts_simps)+

lemma frame_decoded_len_encoded:
  assumes "encode_frame_payload deflate p = Inr f"
  shows "frame_decoded_len (take FRAME_HEADER_BYTES f) = Inr (length p)"
proof -
  have len: "frame_decoded_len (FRAME_MAGIC @ [e] @ be_bytes 4 n @ []) = Inr n"
    if "e \<in> {FRAME_ENCODING_PLAIN, FRAME_ENCODING_ZLIB}" "n \<le> MAX_FRAME_BYTES" for e n
  proof -
    have "n < 4294967296" using that by (simp add: consts_simps)
    note fields = frame_fields [OF this, of e "[]"]
    show ?thesis using that by (simp only: frame_decoded_len_def fields) simp
  qed
  show ?thesis using assms
    by (cases rule: encode_frame_payload_cases)
       (simp_all only: frame_header_take len insert_iff simp_thms)
qed

lemma decode_frame_payload_advertised:
  assumes "decode_frame_payload inflate f = Inr d"
  shows "frame_decoded_len (take FRAME_HEADER_BYTES f) = Inr (length d)"
    "length d \<le> MAX_FRAME_BYTES"
proof -
  have *: "header_original_len (take FRAME_HEADER_BYTES f) = header_original_len f"
    by (simp add: header_original_len_def slice_def consts_simps drop_take)
  from assms show "frame_decoded_len (take FRAME_HEADER_BYTES f) = Inr (length d)"
    "length d \<le> MAX_FRAME_BYTES"
    using * by (auto simp: decode_frame_payload_def frame_decoded_len_def Let_def not_less
        consts_simps split: if_splits option.splits)
qed

section \<open>Frames on a stream\<close>

text \<open>The external codecs of one endpoint, bundled.\<close>

record 'a codec =
  c_deflate :: deflater
  c_inflate :: inflater
  c_ser :: "'a \<Rightarrow> bytes option"
  c_de :: "bytes \<Rightarrow> 'a option"

definition codec_lawful :: "'a codec \<Rightarrow> bool" where
  "codec_lawful c \<longleftrightarrow>
     zlib_law (c_deflate c) (c_inflate c) \<and> postcard_law (c_ser c) (c_de c)"

definition frame_writer :: "'a codec \<times> u16 \<Rightarrow> bytes \<Rightarrow> 'a \<Rightarrow> frame_error + bytes" where
  "frame_writer = (\<lambda>(c, version). write_frame_for_version (c_ser c) (c_deflate c) version)"

definition frame_reader :: "'a codec \<times> u16 \<Rightarrow> bytes \<Rightarrow> frame_error + ('a option \<times> bytes)" where
  "frame_reader = (\<lambda>(c, version). read_frame_for_version (c_de c) (c_inflate c) version)"

lemma encode_for_version_roundtrip:
  assumes "zlib_law deflate inflate"
    and "encode_frame_payload_for_version deflate message version = Inr payload"
  shows "decode_frame_payload_for_version inflate payload version = Inr message"
  using assms encode_frame_payload_roundtrip
  by (auto simp: encode_frame_payload_for_version_def decode_frame_payload_for_version_def
      split: if_splits)

lemma encode_for_version_length:
  assumes "encode_frame_payload_for_version deflate message version = Inr payload"
  shows "length payload \<le> (if version = LEGACY_PROTOCOL_VERSION then MAX_FRAME_BYTES
                          else MAX_WIRE_FRAME_BYTES)"
  using assms encode_frame_payload_length [of deflate message payload]
  by (auto simp: encode_frame_payload_for_version_def consts_simps split: if_splits)

lemma read_exact_append [simp]: "length xs = n \<Longrightarrow> read_exact (xs @ ys) n = Inr (xs, ys)"
  by (simp add: read_exact_def)

lemma read_frame_payload_written:
  assumes "length payload \<le> (if version = LEGACY_PROTOCOL_VERSION then MAX_FRAME_BYTES
                             else MAX_WIRE_FRAME_BYTES)"
  shows "read_frame_payload_for_version version (be_bytes 4 (length payload) @ payload @ rest)
    = Inr (Some payload, rest)"
proof -
  have "length payload < 256 ^ 4" using assms by (auto simp: consts_simps split: if_splits)
  then show ?thesis using assms
    by (auto simp: read_frame_payload_for_version_def Let_def)
qed

lemma read_frame_payload_cut:
  assumes "0 < n" "n < 4 + length payload"
    and "length payload \<le> (if version = LEGACY_PROTOCOL_VERSION then MAX_FRAME_BYTES
                           else MAX_WIRE_FRAME_BYTES)"
  shows "\<exists>k. read_frame_payload_for_version version
      (take n (be_bytes 4 (length payload) @ payload)) = Inl (FinishedEarly k)"
proof (cases "n < 4")
  case True
  then have "read_exact (take n (be_bytes 4 (length payload) @ payload)) 4 = Inl (FinishedEarly n)"
    using assms by (simp add: read_exact_def)
  then show ?thesis using assms(1)
    by (cases n) (simp_all add: read_frame_payload_for_version_def)
next
  case False
  have "length payload < 256 ^ 4" using assms(3) by (auto simp: consts_simps split: if_splits)
  then show ?thesis using False assms
    by (auto simp: read_frame_payload_for_version_def read_exact_def Let_def)
qed

lemma write_frame_Inr_iff:
  "write_frame_for_version ser deflate version send v = Inr s \<longleftrightarrow>
     (\<exists>message payload. ser v = Some message
        \<and> encode_frame_payload_for_version deflate message version = Inr payload
        \<and> length payload \<le> u32_max \<and> s = send @ be_bytes 4 (length payload) @ payload)"
  by (auto simp: write_frame_for_version_def encode_message_def not_less split: if_splits)

interpretation frames: framed_stream "\<lambda>(c, version). codec_lawful c" frame_writer frame_reader
proof
  fix cv :: "'a codec \<times> u16" and s s' m
  obtain c version where cv: "cv = (c, version)" by force
  assume "case cv of (c, version) \<Rightarrow> codec_lawful c" "frame_writer cv s m = Inr s'"
  then have law: "zlib_law (c_deflate c) (c_inflate c)" "postcard_law (c_ser c) (c_de c)"
    and wr: "write_frame_for_version (c_ser c) (c_deflate c) version s m = Inr s'"
    by (simp_all add: cv codec_lawful_def frame_writer_def)
  from wr obtain message payload where w: "c_ser c m = Some message"
      "encode_frame_payload_for_version (c_deflate c) message version = Inr payload"
      "s' = s @ be_bytes 4 (length payload) @ payload"
    by (auto simp: write_frame_Inr_iff)
  note len = encode_for_version_length [OF w(2)]
  have "frame_reader cv ((be_bytes 4 (length payload) @ payload) @ rest) = Inr (Some m, rest)" for rest
    using read_frame_payload_written [OF len, of rest] law w(1)
      encode_for_version_roundtrip [OF law(1) w(2)]
    by (simp add: frame_reader_def cv read_frame_for_version_def decode_message_def postcard_law_def)
  moreover have "\<exists>e. frame_reader cv (take n (be_bytes 4 (length payload) @ payload)) = Inl e"
    if "0 < n" "n < length (be_bytes 4 (length payload) @ payload)" for n
    using read_frame_payload_cut [OF that(1) _ len] that(2)
    by (auto simp: frame_reader_def cv read_frame_for_version_def)
  ultimately show "\<exists>w. s' = s @ w \<and> w \<noteq> [] \<and> (\<forall>rest. frame_reader cv (w @ rest) = Inr (Some m, rest))
      \<and> (\<forall>n. 0 < n \<and> n < length w \<longrightarrow> (\<exists>e. frame_reader cv (take n w) = Inl e))"
    using w(3) by (intro exI [of _ "be_bytes 4 (length payload) @ payload"])
      (auto simp flip: length_greater_0_conv)
next
  fix cv :: "'a codec \<times> u16"
  show "frame_reader cv [] = Inr (None, [])"
    by (cases cv) (simp add: frame_reader_def read_frame_for_version_def
        read_frame_payload_for_version_def read_exact_def)
qed

section \<open>A concrete codec\<close>

text \<open>A codec that satisfies the laws, used to instantiate the parameters: stored
  blocks behind a tag byte, and a one-byte code for one long run.\<close>

definition demo_deflate :: deflater where
  "demo_deflate p = (if p = replicate 2000 7 then Some [9] else Some (0 # p))"

definition demo_inflate :: inflater where
  "demo_inflate c = (case c of [] \<Rightarrow> ([], True)
     | b # p \<Rightarrow> if b = 9 then (replicate 2000 7, p \<noteq> []) else (p, False))"

definition demo_codec :: "bytes codec" where
  "demo_codec = \<lparr>c_deflate = demo_deflate, c_inflate = demo_inflate, c_ser = Some, c_de = Some\<rparr>"

lemma demo_zlib_law: "zlib_law demo_deflate demo_inflate"
  by (auto simp: zlib_law_def demo_deflate_def demo_inflate_def split: if_splits)

lemma demo_codec_lawful: "codec_lawful demo_codec"
  by (simp add: codec_lawful_def demo_codec_def demo_zlib_law postcard_law_def)

section \<open>Properties\<close>

text \<open>Claim C33. Whatever \<open>encode_frame_payload\<close> produces is decoded by
  \<open>decode_frame_payload\<close> to the original message; the envelope header alone already
  advertises the exact decoded length; and the envelope costs at most seven bytes.\<close>

theorem frame_payload_roundtrip:
  assumes "zlib_law deflate inflate" "encode_frame_payload deflate payload = Inr framed"
  shows "decode_frame_payload inflate framed = Inr payload
    \<and> frame_decoded_len (take FRAME_HEADER_BYTES framed) = Inr (length payload)
    \<and> length framed \<le> FRAME_HEADER_BYTES + length payload"
  using assms encode_frame_payload_roundtrip frame_decoded_len_encoded encode_frame_payload_length
  by blast

theorem frame_payload_roundtrip_witness:
  "\<exists>framed. zlib_law demo_deflate demo_inflate
     \<and> encode_frame_payload demo_deflate (replicate 2000 7) = Inr framed
     \<and> length framed = 8 \<and> decode_frame_payload demo_inflate framed = Inr (replicate 2000 7)
     \<and> frame_decoded_len (take FRAME_HEADER_BYTES framed) = Inr 2000"
proof -
  let ?f = "FRAME_MAGIC @ [FRAME_ENCODING_ZLIB] @ be_bytes 4 2000 @ [9]"
  have e: "encode_frame_payload demo_deflate (replicate 2000 7) = Inr ?f"
    by (simp add: encode_frame_payload_def should_attempt_frame_compression_def demo_deflate_def
        consts_simps u32_max_def Let_def)
  show ?thesis
    using frame_payload_roundtrip [OF demo_zlib_law e] e demo_zlib_law
    by (intro exI [of _ ?f]) (simp add: consts_simps)
qed

text \<open>Claim C34. \<open>decode_frame_payload\<close> fails closed: it returns \<open>d\<close> exactly for the
  envelopes that carry the marker, a known encoding and the length of \<open>d\<close>, at most
  128 MiB, and whose body is \<open>d\<close> itself or a non-empty zlib stream that ends
  without error after exactly \<open>d\<close> --- for any behaviour of the decompressor.\<close>

theorem decode_frame_payload_accepts_iff:
  "decode_frame_payload inflate framed = Inr d \<longleftrightarrow>
     (\<exists>encoding body.
        framed = FRAME_MAGIC @ [encoding] @ be_bytes 4 (length d) @ body
        \<and> length d \<le> MAX_FRAME_BYTES
        \<and> (encoding = FRAME_ENCODING_PLAIN \<and> body = d
           \<or> encoding = FRAME_ENCODING_ZLIB \<and> body \<noteq> [] \<and> inflate body = (d, False)))"
  (is "?L \<longleftrightarrow> ?R")
proof
  assume ?R
  then obtain encoding body where f: "framed = FRAME_MAGIC @ [encoding] @ be_bytes 4 (length d) @ body"
    and len: "length d \<le> MAX_FRAME_BYTES"
    and enc: "encoding = FRAME_ENCODING_PLAIN \<and> body = d
      \<or> encoding = FRAME_ENCODING_ZLIB \<and> body \<noteq> [] \<and> inflate body = (d, False)" by blast
  have "length d < 4294967296" using len by (simp add: consts_simps)
  note fields = frame_fields [OF this, of encoding body]
  have "FRAME_ENCODING_ZLIB \<noteq> FRAME_ENCODING_PLAIN" by (simp add: consts_simps)
  then show ?L using enc len
    by (simp only: decode_frame_payload_def f fields Let_def) (auto simp: take_read_to_end_def)
next
  assume L: ?L
  then have len: "7 \<le> length framed" and magic: "take 2 framed = FRAME_MAGIC"
    by (auto simp: decode_frame_payload_def consts_simps split: if_splits)
  have "framed = take 2 framed @ drop 2 framed" by simp
  also have "drop 2 framed = framed ! 2 # drop 3 framed"
    using len Cons_nth_drop_Suc [of 2 framed] by simp
  also have "drop 3 framed = slice 3 7 framed @ drop 7 framed"
    by (rule slice_append_drop [symmetric]) simp
  also have "slice 3 7 framed = be_bytes 4 (header_original_len framed)"
  proof -
    have "length (slice 3 7 framed) = 4" using len by simp
    then show ?thesis
      using be_bytes_be_nat [of "slice 3 7 framed"] by (simp only: header_original_len_def)
  qed
  finally have f: "framed = FRAME_MAGIC @ [framed ! 2]
      @ be_bytes 4 (header_original_len framed) @ drop 7 framed"
    using magic by simp
  have d: "length d = header_original_len framed \<and> header_original_len framed \<le> MAX_FRAME_BYTES
      \<and> (framed ! 2 = FRAME_ENCODING_PLAIN \<and> drop 7 framed = d
         \<or> framed ! 2 = FRAME_ENCODING_ZLIB \<and> drop 7 framed \<noteq> []
           \<and> inflate (drop 7 framed) = (d, False))"
    using L by (auto simp: decode_frame_payload_def Let_def FRAME_HEADER_BYTES_def not_less
        take_read_to_end_def split: if_splits option.splits prod.splits)
  show ?R
    by (rule exI [of _ "framed ! 2"], rule exI [of _ "drop 7 framed"]) (use d f in auto)
qed

text \<open>Claim C35. Any sequence of messages written to one stream with
  \<open>write_frame_for_version\<close> is read back by \<open>read_frame_for_version\<close> in order and in
  full, and then the end of the stream is reported; if the stream is cut after any
  number of bytes, the reader delivers complete messages of a prefix of the
  sequence or an error, and nothing else.\<close>

theorem frame_stream_roundtrip:
  assumes "codec_lawful c"
    and "write_seq (write_frame_for_version (c_ser c) (c_deflate c) version) [] messages
      = Inr stream"
    and "length messages < fuel"
  shows "read_seq fuel (read_frame_for_version (c_de c) (c_inflate c) version) stream
      = Some (Inr messages)
    \<and> ((\<exists>k. read_seq fuel (read_frame_for_version (c_de c) (c_inflate c) version) (take n stream)
            = Some (Inr (take k messages)))
      \<or> (\<exists>e. read_seq fuel (read_frame_for_version (c_de c) (c_inflate c) version) (take n stream)
            = Some (Inl e)))"
  using frames.read_seq_write_seq [of "(c, version)" "[]" messages stream fuel]
    frames.read_seq_truncated [of "(c, version)" "[]" messages stream fuel n] assms
  by (simp add: frame_writer_def frame_reader_def)

theorem frame_stream_roundtrip_witness:
  "\<exists>stream. codec_lawful demo_codec
     \<and> write_seq (write_frame_for_version (c_ser demo_codec) (c_deflate demo_codec) 17) []
         [[1, 2], [3]] = Inr stream
     \<and> length stream = 25
     \<and> read_seq 3 (read_frame_for_version (c_de demo_codec) (c_inflate demo_codec) 17) stream
         = Some (Inr [[1, 2], [3]])"
proof -
  let ?s = "[0, 0, 0, 9, 65, 70, 0, 0, 0, 0, 2, 1, 2, 0, 0, 0, 8, 65, 70, 0, 0, 0, 0, 1, 3] :: bytes"
  have w: "write_seq (write_frame_for_version (c_ser demo_codec) (c_deflate demo_codec) 17) []
      [[1, 2], [3]] = Inr ?s"
    by (simp add: write_frame_for_version_def encode_message_def demo_codec_def
        encode_frame_payload_for_version_def encode_frame_payload_def
        should_attempt_frame_compression_def consts_simps int_bounds be_bytes_4)
  show ?thesis
    using frame_stream_roundtrip [OF demo_codec_lawful w, of 3] w demo_codec_lawful
    by (intro exI [of _ ?s]) simp
qed

text \<open>The histogram loop of \<open>should_attempt_frame_compression\<close> decides the
  documented heuristic: compression is skipped exactly for payloads under 1 KiB and
  for payloads of at least 64 KiB whose three 4 KiB windows hold at least 240
  distinct bytes, each at most one thirty-second of the sample.\<close>

theorem should_attempt_frame_compression_spec:
  assumes "length payload \<le> u64_max"
  shows "should_attempt_frame_compression payload \<longleftrightarrow>
    1024 \<le> length payload \<and> (65536 \<le> length payload \<longrightarrow> \<not> looks_incompressible payload)"
  by (rule should_attempt_eq [OF assms])

lemma set_sample_windows: "set (concat (sample_windows p)) \<subseteq> set p"
  by (auto simp: sample_windows_def Let_def slice_def dest!: in_set_takeD in_set_dropD)

theorem should_attempt_frame_compression_spec_witness:
  "length (replicate 70000 (7 :: byte)) \<le> u64_max
     \<and> should_attempt_frame_compression (replicate 70000 7)"
proof -
  have "set (concat (sample_windows (replicate 70000 7))) \<subseteq> {7 :: byte}"
    using set_sample_windows [of "replicate 70000 7"] by simp
  then have "card (set (concat (sample_windows (replicate 70000 7)))) \<le> card {7 :: byte}"
    by (rule card_mono [rotated]) simp
  then have "\<not> looks_incompressible (replicate 70000 7)"
    by (simp add: looks_incompressible_def Let_def)
  then show ?thesis
    using should_attempt_frame_compression_spec [of "replicate 70000 7"]
    by (simp add: u64_max_def)
qed

end
