(* ===== verification/Pty_Datagram.thy ===== *)
theory Pty_Datagram
  imports Frame_Codec
begin

text \<open>
  The replaceable PTY screen datagrams of \<open>crates/asp-protocol/src/lib.rs\<close>: the
  plain, base-relative (\<open>PD\<close>) and attribute-preserving (\<open>PR\<close>, compressed \<open>PZ\<close>)
  forms with their bounds.  The wire structs decode their sequence through
  \<open>BoundedVec\<close>, whose visitor is modelled; the field-by-field Postcard decoding
  is the parameter \<open>de\<close>.
\<close>

record pty_state_datagram =
  pd_session_id :: uuid
  pd_generation :: u64
  pd_rows :: u16
  pd_cols :: u16
  pd_screen :: "string list"
  pd_cursor_row :: u16
  pd_cursor_col :: u16

record pty_row_delta =
  rd_row :: u16
  rd_text :: string

record pty_state_delta_datagram =
  dd_session_id :: uuid
  dd_base_generation :: u64
  dd_generation :: u64
  dd_rows :: u16
  dd_cols :: u16
  dd_changes :: "pty_row_delta list"
  dd_cursor_row :: u16
  dd_cursor_col :: u16

record pty_state_rich_datagram =
  rich_session_id :: uuid
  rich_generation :: u64
  rich_rows :: u16
  rich_cols :: u16
  rich_screen :: bytes
  rich_cursor_row :: u16
  rich_cursor_col :: u16

definition PTY_DATAGRAM_MAX_DECODED_BYTES :: usize where [consts_simps]:
  "PTY_DATAGRAM_MAX_DECODED_BYTES = 8388608"

definition PTY_DATAGRAM_MAX_ROWS :: usize where [consts_simps]:
  "PTY_DATAGRAM_MAX_ROWS = 4096"

definition PTY_DELTA_DATAGRAM_MAGIC :: bytes where [consts_simps]:
  "PTY_DELTA_DATAGRAM_MAGIC = [0x50, 0x44]"

definition PTY_DELTA_DATAGRAM_MAX_DECODED_BYTES :: usize where [consts_simps]:
  "PTY_DELTA_DATAGRAM_MAX_DECODED_BYTES = 8388608"

definition PTY_DELTA_MAX_ROWS :: usize where [consts_simps]:
  "PTY_DELTA_MAX_ROWS = 4096"

definition PTY_RICH_DATAGRAM_MAGIC :: bytes where [consts_simps]:
  "PTY_RICH_DATAGRAM_MAGIC = [0x50, 0x52]"

definition PTY_RICH_COMPRESSED_DATAGRAM_MAGIC :: bytes where [consts_simps]:
  "PTY_RICH_COMPRESSED_DATAGRAM_MAGIC = [0x50, 0x5A]"

definition PTY_RICH_DATAGRAM_MAX_DECODED_BYTES :: usize where [consts_simps]:
  "PTY_RICH_DATAGRAM_MAX_DECODED_BYTES = 8388608"

text \<open>\<open>BoundedVecVisitor::visit_seq\<close>: the elements are consumed one by one and the
  visit fails on the first element past the limit.\<close>

fun visit_seq :: "nat \<Rightarrow> 'a list \<Rightarrow> 'a list \<Rightarrow> 'a list option" where
  "visit_seq limit acc [] = Some acc"
| "visit_seq limit acc (v # sequence) =
     (if limit \<le> length acc then None else visit_seq limit (acc @ [v]) sequence)"

lemma visit_seq_eq:
  "length acc \<le> limit \<Longrightarrow> visit_seq limit acc xs =
     (if length acc + length xs \<le> limit then Some (acc @ xs) else None)"
  by (induction limit acc xs rule: visit_seq.induct) auto

lemma visit_seq_empty: "visit_seq limit [] xs = (if length xs \<le> limit then Some xs else None)"
  by (simp add: visit_seq_eq)

section \<open>Plain form\<close>

definition decode_pty_state_datagram ::
    "(bytes \<Rightarrow> pty_state_datagram option) \<Rightarrow> bytes \<Rightarrow> frame_error + pty_state_datagram" where
  "decode_pty_state_datagram de payload =
     (if PTY_DATAGRAM_MAX_DECODED_BYTES < length payload then Inl DatagramTooLarge
      else and_then (decode_message de payload) (\<lambda>wire.
             case visit_seq PTY_DATAGRAM_MAX_ROWS [] (pd_screen wire) of
               None \<Rightarrow> Inl DecodeFailed
             | Some screen \<Rightarrow> Inr (wire\<lparr>pd_screen := screen\<rparr>)))"

section \<open>Base-relative form\<close>

definition encode_pty_state_delta_datagram ::
    "(pty_state_delta_datagram \<Rightarrow> bytes option) \<Rightarrow> pty_state_delta_datagram \<Rightarrow> usize
       \<Rightarrow> frame_error + bytes option" where
  "encode_pty_state_delta_datagram ser datagram max_size =
     (if PTY_DELTA_MAX_ROWS < length (dd_changes datagram) then Inr None
      else and_then (encode_message ser datagram) (\<lambda>encoded.
        let total = saturating_add (length PTY_DELTA_DATAGRAM_MAGIC) (length encoded)
        in if PTY_DELTA_DATAGRAM_MAX_DECODED_BYTES < length encoded \<or> max_size < total
           then Inr None
           else Inr (Some (PTY_DELTA_DATAGRAM_MAGIC @ encoded))))"

definition decode_pty_state_delta_datagram ::
    "(bytes \<Rightarrow> pty_state_delta_datagram option) \<Rightarrow> bytes
       \<Rightarrow> frame_error + pty_state_delta_datagram option" where
  "decode_pty_state_delta_datagram de payload =
     (if \<not> starts_with payload PTY_DELTA_DATAGRAM_MAGIC then Inr None
      else let body = drop (length PTY_DELTA_DATAGRAM_MAGIC) payload
        in if PTY_DELTA_DATAGRAM_MAX_DECODED_BYTES < length body then Inl DatagramTooLarge
           else and_then (decode_message de body) (\<lambda>wire.
                  case visit_seq PTY_DELTA_MAX_ROWS [] (dd_changes wire) of
                    None \<Rightarrow> Inl DecodeFailed
                  | Some changes \<Rightarrow> Inr (Some (wire\<lparr>dd_changes := changes\<rparr>))))"

section \<open>Attribute-preserving form\<close>

definition encode_pty_rich_datagram ::
    "(pty_state_rich_datagram \<Rightarrow> bytes option) \<Rightarrow> deflater \<Rightarrow> pty_state_rich_datagram \<Rightarrow> usize
       \<Rightarrow> bool \<Rightarrow> frame_error + bytes option" where
  "encode_pty_rich_datagram ser deflate datagram max_size allow_compression =
     and_then (encode_message ser datagram) (\<lambda>encoded.
       if PTY_RICH_DATAGRAM_MAX_DECODED_BYTES < length encoded then Inr None
       else
         let plain_len = saturating_add (length PTY_RICH_DATAGRAM_MAGIC) (length encoded) in
         and_then
           (if allow_compression \<and> FRAME_COMPRESSION_MIN_BYTES \<le> length encoded then
              and_then (encode_frame_payload deflate encoded) (\<lambda>framed.
                if FRAME_HEADER_BYTES \<le> length framed
                   \<and> framed ! length FRAME_MAGIC = FRAME_ENCODING_ZLIB then
                  let compressed_len =
                        saturating_add (length PTY_RICH_COMPRESSED_DATAGRAM_MAGIC) (length framed)
                  in if compressed_len < plain_len \<and> compressed_len \<le> max_size
                     then Inr (Some (PTY_RICH_COMPRESSED_DATAGRAM_MAGIC @ framed))
                     else Inr None
                else Inr None)
            else Inr None)
           (\<lambda>compressed.
              case compressed of
                Some payload \<Rightarrow> Inr (Some payload)
              | None \<Rightarrow>
                  if max_size < plain_len then Inr None
                  else Inr (Some (PTY_RICH_DATAGRAM_MAGIC @ encoded))))"

definition decode_rich_body ::
    "(bytes \<Rightarrow> pty_state_rich_datagram option) \<Rightarrow> bytes
       \<Rightarrow> frame_error + pty_state_rich_datagram option" where
  "decode_rich_body de body =
     and_then (decode_message de body) (\<lambda>wire.
       case visit_seq PTY_RICH_DATAGRAM_MAX_DECODED_BYTES [] (rich_screen wire) of
         None \<Rightarrow> Inl DecodeFailed
       | Some screen \<Rightarrow> Inr (Some (wire\<lparr>rich_screen := screen\<rparr>)))"

definition decode_pty_rich_datagram ::
    "(bytes \<Rightarrow> pty_state_rich_datagram option) \<Rightarrow> inflater \<Rightarrow> bytes \<Rightarrow> bool
       \<Rightarrow> frame_error + pty_state_rich_datagram option" where
  "decode_pty_rich_datagram de inflate payload allow_compression =
     (if starts_with payload PTY_RICH_DATAGRAM_MAGIC then
        (if PTY_RICH_DATAGRAM_MAX_DECODED_BYTES < length payload - length PTY_RICH_DATAGRAM_MAGIC
         then Inl DatagramTooLarge
         else decode_rich_body de (drop (length PTY_RICH_DATAGRAM_MAGIC) payload))
      else if starts_with payload PTY_RICH_COMPRESSED_DATAGRAM_MAGIC then
        (if \<not> allow_compression then Inr None
         else
           let frame = drop (length PTY_RICH_COMPRESSED_DATAGRAM_MAGIC) payload in
           and_then (if FRAME_HEADER_BYTES \<le> length frame
                     then Inr (take FRAME_HEADER_BYTES frame) else Inl DatagramTruncated)
             (\<lambda>header. and_then (frame_decoded_len header) (\<lambda>decoded_len.
               if PTY_RICH_DATAGRAM_MAX_DECODED_BYTES < decoded_len then Inl DatagramTooLarge
               else and_then (decode_frame_payload inflate frame) (decode_rich_body de))))
      else Inr None)"

text \<open>Postcard writes one byte per element of a byte vector, after its length.\<close>

definition rich_postcard_law ::
    "(pty_state_rich_datagram \<Rightarrow> bytes option) \<Rightarrow> (bytes \<Rightarrow> pty_state_rich_datagram option) \<Rightarrow> bool" where
  "rich_postcard_law ser de \<longleftrightarrow> postcard_law ser de
     \<and> (\<forall>d b. ser d = Some b \<longrightarrow> length (rich_screen d) \<le> length b)"

section \<open>Round trips and bounds\<close>

lemma magics_distinct:
  "\<not> starts_with (PTY_DELTA_DATAGRAM_MAGIC @ b) PTY_RICH_DATAGRAM_MAGIC"
  "\<not> starts_with (PTY_DELTA_DATAGRAM_MAGIC @ b) PTY_RICH_COMPRESSED_DATAGRAM_MAGIC"
  "\<not> starts_with (PTY_RICH_DATAGRAM_MAGIC @ b) PTY_DELTA_DATAGRAM_MAGIC"
  "\<not> starts_with (PTY_RICH_COMPRESSED_DATAGRAM_MAGIC @ b) PTY_DELTA_DATAGRAM_MAGIC"
  "\<not> starts_with (PTY_RICH_COMPRESSED_DATAGRAM_MAGIC @ b) PTY_RICH_DATAGRAM_MAGIC"
  by (simp_all add: starts_with_def consts_simps)

lemma encode_delta_Some:
  assumes "encode_pty_state_delta_datagram ser d max_size = Inr (Some payload)"
  shows "\<exists>encoded. ser d = Some encoded \<and> payload = PTY_DELTA_DATAGRAM_MAGIC @ encoded
    \<and> length encoded \<le> PTY_DELTA_DATAGRAM_MAX_DECODED_BYTES
    \<and> saturating_add 2 (length encoded) \<le> max_size
    \<and> length (dd_changes d) \<le> PTY_DELTA_MAX_ROWS"
  using assms
  by (auto simp: encode_pty_state_delta_datagram_def encode_message_def Let_def not_less
      PTY_DELTA_DATAGRAM_MAGIC_def numeral_2_eq_2 split: if_splits)

lemma encode_rich_Some_cases:
  assumes "encode_pty_rich_datagram ser deflate d max_size allow = Inr (Some payload)"
  obtains (plain) encoded where "ser d = Some encoded"
      "length encoded \<le> PTY_RICH_DATAGRAM_MAX_DECODED_BYTES"
      "payload = PTY_RICH_DATAGRAM_MAGIC @ encoded"
      "saturating_add 2 (length encoded) \<le> max_size"
  | (compressed) encoded framed where "ser d = Some encoded"
      "length encoded \<le> PTY_RICH_DATAGRAM_MAX_DECODED_BYTES" "allow"
      "encode_frame_payload deflate encoded = Inr framed"
      "payload = PTY_RICH_COMPRESSED_DATAGRAM_MAGIC @ framed"
      "saturating_add 2 (length framed) \<le> max_size"
      "saturating_add 2 (length framed) < saturating_add 2 (length encoded)"
proof -
  have two: "length PTY_RICH_DATAGRAM_MAGIC = 2" "length PTY_RICH_COMPRESSED_DATAGRAM_MAGIC = 2"
    by (simp_all add: consts_simps)
  from assms show thesis
    by (auto simp: encode_pty_rich_datagram_def encode_message_def Let_def two not_less
        split: if_splits option.splits intro: plain compressed)
qed

lemma decode_rich_body_encoded:
  assumes "rich_postcard_law ser de" "ser d = Some encoded"
    and "length encoded \<le> PTY_RICH_DATAGRAM_MAX_DECODED_BYTES"
  shows "decode_rich_body de encoded = Inr (Some d)"
proof -
  have "de encoded = Some d" "length (rich_screen d) \<le> length encoded"
    using assms by (auto simp: rich_postcard_law_def postcard_law_def)
  then show ?thesis using assms(3)
    by (simp add: decode_rich_body_def decode_message_def visit_seq_empty)
qed

lemma decode_rich_encoded:
  assumes "rich_postcard_law ser de" "zlib_law deflate inflate"
    and "encode_pty_rich_datagram ser deflate d max_size allow = Inr (Some payload)"
  shows "decode_pty_rich_datagram de inflate payload allow = Inr (Some d)"
  using assms(3)
proof (cases rule: encode_rich_Some_cases)
  case (plain encoded)
  then show ?thesis
    using decode_rich_body_encoded [OF assms(1)] by (simp add: decode_pty_rich_datagram_def)
next
  case (compressed encoded framed)
  note rt = encode_frame_payload_roundtrip [OF assms(2) compressed(4)]
    frame_decoded_len_encoded [OF compressed(4)] encode_frame_payload_length [OF compressed(4)]
  show ?thesis
    using compressed(1-3) rt magics_distinct decode_rich_body_encoded [OF assms(1)]
    by (simp add: decode_pty_rich_datagram_def compressed(5) Let_def not_less)
qed

lemma saturating_add_2_le:
  "saturating_add 2 n \<le> m \<Longrightarrow> m < u64_max \<Longrightarrow> 2 + n \<le> m"
  by (simp add: saturating_add_def min_def split: if_splits)

section \<open>Properties\<close>

text \<open>A base-relative PTY datagram that the encoder emits fits the peer's
  datagram budget, is decoded to the same screen update, and is never mistaken for
  the attribute-preserving form.\<close>

theorem pty_delta_datagram_roundtrip:
  assumes "postcard_law ser de" "max_size < u64_max"
    and "encode_pty_state_delta_datagram ser d max_size = Inr (Some payload)"
  shows "decode_pty_state_delta_datagram de payload = Inr (Some d)
    \<and> length payload \<le> max_size
    \<and> decode_pty_rich_datagram de_rich inflate payload allow = Inr None"
proof -
  obtain encoded where e: "ser d = Some encoded" "payload = PTY_DELTA_DATAGRAM_MAGIC @ encoded"
      "length encoded \<le> PTY_DELTA_DATAGRAM_MAX_DECODED_BYTES"
      "saturating_add 2 (length encoded) \<le> max_size"
      "length (dd_changes d) \<le> PTY_DELTA_MAX_ROWS"
    using encode_delta_Some [OF assms(3)] by blast
  have "de encoded = Some d" using assms(1) e(1) by (simp add: postcard_law_def)
  moreover have "length payload \<le> max_size"
    using saturating_add_2_le [OF e(4) assms(2)] by (simp add: e(2) PTY_DELTA_DATAGRAM_MAGIC_def)
  ultimately show ?thesis
    using e(3,5) magics_distinct
    by (simp add: e(2) decode_pty_state_delta_datagram_def decode_message_def visit_seq_empty
        decode_pty_rich_datagram_def Let_def)
qed

definition demo_delta :: pty_state_delta_datagram where
  "demo_delta = \<lparr>dd_session_id = 1, dd_base_generation = 4, dd_generation = 5, dd_rows = 24,
     dd_cols = 80, dd_changes = [\<lparr>rd_row = 3, rd_text = ''ok''\<rparr>], dd_cursor_row = 3,
     dd_cursor_col = 2\<rparr>"

definition demo_delta_ser :: "pty_state_delta_datagram \<Rightarrow> bytes option" where
  "demo_delta_ser d = (if d = demo_delta then Some [5, 6, 7] else None)"

definition demo_delta_de :: "bytes \<Rightarrow> pty_state_delta_datagram option" where
  "demo_delta_de b = (if b = [5, 6, 7] then Some demo_delta else None)"

theorem pty_delta_datagram_roundtrip_witness:
  "postcard_law demo_delta_ser demo_delta_de
     \<and> encode_pty_state_delta_datagram demo_delta_ser demo_delta 1200
         = Inr (Some [0x50, 0x44, 5, 6, 7])
     \<and> decode_pty_state_delta_datagram demo_delta_de [0x50, 0x44, 5, 6, 7]
         = Inr (Some demo_delta)"
proof -
  have law: "postcard_law demo_delta_ser demo_delta_de"
    by (auto simp: postcard_law_def demo_delta_ser_def demo_delta_de_def split: if_splits)
  have e: "encode_pty_state_delta_datagram demo_delta_ser demo_delta 1200
      = Inr (Some [0x50, 0x44, 5, 6, 7])"
    by (simp add: encode_pty_state_delta_datagram_def encode_message_def demo_delta_ser_def
        consts_simps saturating_add_def int_bounds)
       (simp add: demo_delta_def)
  show ?thesis
    using pty_delta_datagram_roundtrip [OF law _ e] law e by (simp add: u64_max_def)
qed

text \<open>An attribute-preserving PTY datagram that the encoder emits --- plain
  or, when negotiated, compressed --- fits the budget, is decoded to the same
  snapshot under the same negotiation, is never mistaken for a base-relative
  update, and the compressed form is used only when it is strictly smaller.\<close>

theorem pty_rich_datagram_roundtrip:
  assumes "rich_postcard_law ser de" "zlib_law deflate inflate" "max_size < u64_max"
    and "encode_pty_rich_datagram ser deflate d max_size allow = Inr (Some payload)"
  shows "decode_pty_rich_datagram de inflate payload allow = Inr (Some d)
    \<and> length payload \<le> max_size
    \<and> decode_pty_state_delta_datagram de_delta payload = Inr None
    \<and> (starts_with payload PTY_RICH_COMPRESSED_DATAGRAM_MAGIC \<longrightarrow>
         allow \<and> length payload < 2 + length (the (ser d)))"
proof -
  have dec: "decode_pty_rich_datagram de inflate payload allow = Inr (Some d)"
    by (rule decode_rich_encoded [OF assms(1,2,4)])
  from assms(4) show ?thesis
  proof (cases rule: encode_rich_Some_cases)
    case (plain encoded)
    have "length payload \<le> max_size"
      using saturating_add_2_le [OF plain(4) assms(3)]
      by (simp add: plain(3) PTY_RICH_DATAGRAM_MAGIC_def)
    moreover have "\<not> starts_with payload PTY_RICH_COMPRESSED_DATAGRAM_MAGIC"
      by (simp add: plain(3) starts_with_def consts_simps)
    ultimately show ?thesis
      using dec magics_distinct by (simp add: plain(3) decode_pty_state_delta_datagram_def)
  next
    case (compressed encoded framed)
    have "length payload \<le> max_size"
      using saturating_add_2_le [OF compressed(6) assms(3)]
      by (simp add: compressed(5) PTY_RICH_COMPRESSED_DATAGRAM_MAGIC_def)
    moreover have "length payload < 2 + length encoded"
      using compressed(7) saturating_add_2_le [OF compressed(6) assms(3)]
      by (simp add: compressed(5) PTY_RICH_COMPRESSED_DATAGRAM_MAGIC_def saturating_add_def
          min_def split: if_splits)
    ultimately show ?thesis
      using dec magics_distinct compressed(1,3)
      by (simp add: compressed(5) decode_pty_state_delta_datagram_def)
  qed
qed

definition demo_rich :: pty_state_rich_datagram where
  "demo_rich = \<lparr>rich_session_id = 1, rich_generation = 5, rich_rows = 24, rich_cols = 80,
     rich_screen = [1, 2, 3], rich_cursor_row = 0, rich_cursor_col = 0\<rparr>"

definition demo_rich_ser :: "pty_state_rich_datagram \<Rightarrow> bytes option" where
  "demo_rich_ser d = (if d = demo_rich then Some (replicate 2000 7) else None)"

definition demo_rich_de :: "bytes \<Rightarrow> pty_state_rich_datagram option" where
  "demo_rich_de b = (if b = replicate 2000 7 then Some demo_rich else None)"

theorem pty_rich_datagram_roundtrip_witness:
  "\<exists>payload. rich_postcard_law demo_rich_ser demo_rich_de
     \<and> encode_pty_rich_datagram demo_rich_ser demo_deflate demo_rich 1200 True
         = Inr (Some payload)
     \<and> length payload = 10
     \<and> decode_pty_rich_datagram demo_rich_de demo_inflate payload True = Inr (Some demo_rich)"
proof -
  let ?p = "PTY_RICH_COMPRESSED_DATAGRAM_MAGIC @ FRAME_MAGIC @ [FRAME_ENCODING_ZLIB]
    @ be_bytes 4 2000 @ [9]"
  have law: "rich_postcard_law demo_rich_ser demo_rich_de"
    by (auto simp: rich_postcard_law_def postcard_law_def demo_rich_ser_def demo_rich_de_def
        demo_rich_def split: if_splits)
  have "encode_frame_payload demo_deflate (replicate 2000 7) =
      Inr (FRAME_MAGIC @ [FRAME_ENCODING_ZLIB] @ be_bytes 4 2000 @ [9])"
    by (simp add: encode_frame_payload_def should_attempt_frame_compression_def demo_deflate_def
        consts_simps u32_max_def Let_def)
  then have e: "encode_pty_rich_datagram demo_rich_ser demo_deflate demo_rich 1200 True
      = Inr (Some ?p)"
    by (simp add: encode_pty_rich_datagram_def encode_message_def demo_rich_ser_def
        consts_simps saturating_add_def int_bounds)
  show ?thesis
    using pty_rich_datagram_roundtrip [OF law demo_zlib_law _ e] law e
    by (intro exI [of _ ?p]) (simp add: consts_simps int_bounds)
qed

end
