(* ===== verification/Server_Framing.thy ===== *)
theory Server_Framing
  imports Frame_Codec
begin

text \<open>
  Request framing of the daemon (\<open>crates/asp-server/src/main.rs\<close>): the memory charge
  of a frame, detection and pinning of the framing mode of a connection, and
  \<open>read_frame_with_budget\<close>.  The semaphore is its number of free permits, the
  atomic \<open>frame_mode\<close> of the connection a cell; between the load of the cell and
  its compare-exchange another stream may have pinned it, so the two values are
  separate arguments.  A peer that stalls until a timeout is a stream that ends
  early: both are an error before anything is decoded.
\<close>

datatype server_frame_error =
    FrameFailure frame_error
  | FrameMemoryOverflow
  | FrameMemoryUnitOverflow
  | UnknownFirstFrameMode nat
  | FrameMemoryBudgetExhausted
  | FrameModeChanged nat nat
  | UnknownFrameMode nat
  | VersionNeedsOtherFraming u16
  | UnsupportedProtocolVersion u16

definition FRAME_MEMORY_UNIT_BYTES :: usize where [consts_simps]:
  "FRAME_MEMORY_UNIT_BYTES = 65536"

definition MAX_IN_FLIGHT_FRAME_BYTES :: usize where [consts_simps]:
  "MAX_IN_FLIGHT_FRAME_BYTES = 268435456"

definition FRAME_MEMORY_UNITS :: usize where [consts_simps]:
  "FRAME_MEMORY_UNITS = MAX_IN_FLIGHT_FRAME_BYTES div FRAME_MEMORY_UNIT_BYTES"

definition FRAME_MODE_UNKNOWN :: nat where [consts_simps]:
  "FRAME_MODE_UNKNOWN = 0"

definition FRAME_MODE_LEGACY :: nat where [consts_simps]:
  "FRAME_MODE_LEGACY = 1"

definition FRAME_MODE_CURRENT :: nat where [consts_simps]:
  "FRAME_MODE_CURRENT = 2"

lemma frame_modes_distinct:
  "FRAME_MODE_LEGACY \<noteq> FRAME_MODE_CURRENT" "FRAME_MODE_LEGACY \<noteq> FRAME_MODE_UNKNOWN"
  "FRAME_MODE_CURRENT \<noteq> FRAME_MODE_UNKNOWN"
  by (simp_all add: consts_simps)

lemmas frame_modes = frame_modes_distinct frame_modes_distinct [symmetric]

section \<open>Memory charge and deadlines\<close>

definition frame_memory_units :: "usize \<Rightarrow> server_frame_error + u32" where
  "frame_memory_units len =
     and_then (ok_or FrameMemoryOverflow (checked_add len (FRAME_MEMORY_UNIT_BYTES - 1)))
       (\<lambda>total. let units = max (total div FRAME_MEMORY_UNIT_BYTES) 1
          in if u32_max < units then Inl FrameMemoryUnitOverflow else Inr units)"

definition add_units :: "u32 \<Rightarrow> u32 \<Rightarrow> server_frame_error + u32" where
  "add_units a b = (if a + b \<le> u32_max then Inr (a + b) else Inl FrameMemoryUnitOverflow)"

definition current_frame_memory_units ::
    "usize \<Rightarrow> bytes \<Rightarrow> server_frame_error + u32" where
  "current_frame_memory_units len header =
     and_then (map_err FrameFailure (frame_decoded_len header)) (\<lambda>decoded_length.
     and_then (frame_memory_units len) (\<lambda>wire_permits.
       if header ! 2 = 1
       then and_then (frame_memory_units decoded_length) (add_units wire_permits)
       else Inr wire_permits))"

definition first_frame_memory_units ::
    "nat \<Rightarrow> usize \<Rightarrow> bytes \<Rightarrow> server_frame_error + u32" where
  "first_frame_memory_units mode len prefix =
     (if mode = FRAME_MODE_LEGACY then frame_memory_units len
      else if mode = FRAME_MODE_CURRENT then current_frame_memory_units len prefix
      else Inl (UnknownFirstFrameMode mode))"

definition process_summary_memory_units :: "usize \<Rightarrow> server_frame_error + u32" where
  "process_summary_memory_units tail_bytes =
     (if u64_max < tail_bytes * 2 then Inl FrameMemoryOverflow
      else frame_memory_units (tail_bytes * 2))"

text \<open>Deadlines in seconds.\<close>

definition frame_body_timeout :: "usize \<Rightarrow> u64" where
  "frame_body_timeout len =
     (let seconds = min ((len + 65535) div 65536) 300 in min (max 10 seconds) 300)"

definition response_frame_write_timeout :: "usize \<Rightarrow> u64" where
  "response_frame_write_timeout payload_bytes =
     min (max (saturating_add payload_bytes 65535 div 65536) 10) 300"

section \<open>Framing mode\<close>

definition frame_mode_for_version :: "u16 \<Rightarrow> nat option" where
  "frame_mode_for_version version =
     (if version = LEGACY_PROTOCOL_VERSION then Some FRAME_MODE_LEGACY
      else if version = PROTOCOL_VERSION then Some FRAME_MODE_CURRENT else None)"

definition frame_mode_version :: "nat \<Rightarrow> u16 option" where
  "frame_mode_version mode =
     (if mode = FRAME_MODE_LEGACY then Some LEGACY_PROTOCOL_VERSION
      else if mode = FRAME_MODE_CURRENT then Some PROTOCOL_VERSION else None)"

definition compare_exchange_mode :: "nat \<Rightarrow> nat \<Rightarrow> nat" where
  "compare_exchange_mode cell desired = (if cell = FRAME_MODE_UNKNOWN then desired else cell)"

definition validate_frame_mode_for_version ::
    "nat \<Rightarrow> u16 \<Rightarrow> nat \<times> (server_frame_error + unit)" where
  "validate_frame_mode_for_version cell version =
     (case frame_mode_for_version version of
        None \<Rightarrow> (cell, Inl (UnsupportedProtocolVersion version))
      | Some expected \<Rightarrow>
          let actual = compare_exchange_mode cell expected
          in (actual, if actual \<noteq> expected then Inl (VersionNeedsOtherFraming version)
                      else Inr ()))"

definition detect_frame_mode :: "bytes \<Rightarrow> nat" where
  "detect_frame_mode prefix =
     (if 2 \<le> length prefix \<and> take 2 prefix = [0x41, 0x46]
      then FRAME_MODE_CURRENT else FRAME_MODE_LEGACY)"

section \<open>Reading one request\<close>

definition decode_request_frame ::
    "(bytes \<Rightarrow> 'a option) \<Rightarrow> inflater \<Rightarrow> bytes \<Rightarrow> u16 \<Rightarrow> server_frame_error + 'a" where
  "decode_request_frame de inflate payload version =
     map_err FrameFailure
       (and_then (decode_frame_payload_for_version inflate payload version) (decode_message de))"

type_synonym 'a read_outcome =
  "nat \<times> usize \<times> (server_frame_error + ('a \<times> u32 \<times> usize) option \<times> bytes)"

definition read_first_frame ::
    "(bytes \<Rightarrow> 'a option) \<Rightarrow> inflater \<Rightarrow> nat \<Rightarrow> usize \<Rightarrow> usize \<Rightarrow> bytes \<Rightarrow> 'a read_outcome" where
  "read_first_frame de inflate cell available len recv =
     (let prefix_len = min len FRAME_HEADER_BYTES in
      case read_exact recv prefix_len of
        Inl e \<Rightarrow> (cell, available, Inl (FrameFailure e))
      | Inr (prefix, recv) \<Rightarrow>
      let detected_mode = detect_frame_mode prefix in
      case first_frame_memory_units detected_mode len prefix of
        Inl e \<Rightarrow> (cell, available, Inl e)
      | Inr permits \<Rightarrow>
      if available < permits then (cell, available, Inl FrameMemoryBudgetExhausted)
      else case read_exact recv (len - prefix_len) of
        Inl e \<Rightarrow> (cell, available, Inl (FrameFailure e))
      | Inr (rest, recv) \<Rightarrow>
      let cell' = compare_exchange_mode cell detected_mode in
      if cell' \<noteq> detected_mode then (cell', available, Inl (FrameModeChanged cell' detected_mode))
      else
        let version = (if detected_mode = FRAME_MODE_CURRENT then PROTOCOL_VERSION
                       else LEGACY_PROTOCOL_VERSION)
        in case decode_request_frame de inflate (prefix @ rest) version of
             Inl e \<Rightarrow> (cell', available, Inl e)
           | Inr v \<Rightarrow> (cell', available - permits, Inr (Some (v, permits, len), recv)))"

definition read_legacy_frame ::
    "(bytes \<Rightarrow> 'a option) \<Rightarrow> inflater \<Rightarrow> nat \<Rightarrow> usize \<Rightarrow> usize \<Rightarrow> bytes \<Rightarrow> 'a read_outcome" where
  "read_legacy_frame de inflate cell available len recv =
     (if MAX_FRAME_BYTES < len then (cell, available, Inl (FrameFailure LegacyFrameTooLarge))
      else case frame_memory_units len of
        Inl e \<Rightarrow> (cell, available, Inl e)
      | Inr permits \<Rightarrow>
      if available < permits then (cell, available, Inl FrameMemoryBudgetExhausted)
      else case read_exact recv len of
        Inl e \<Rightarrow> (cell, available, Inl (FrameFailure e))
      | Inr (payload, recv) \<Rightarrow>
      case decode_request_frame de inflate payload LEGACY_PROTOCOL_VERSION of
        Inl e \<Rightarrow> (cell, available, Inl e)
      | Inr v \<Rightarrow> (cell, available - permits, Inr (Some (v, permits, len), recv)))"

definition read_current_frame ::
    "(bytes \<Rightarrow> 'a option) \<Rightarrow> inflater \<Rightarrow> nat \<Rightarrow> usize \<Rightarrow> usize \<Rightarrow> bytes \<Rightarrow> 'a read_outcome" where
  "read_current_frame de inflate cell available len recv =
     (if len < FRAME_HEADER_BYTES then (cell, available, Inl (FrameFailure ShorterThanEnvelope))
      else case read_exact recv FRAME_HEADER_BYTES of
        Inl e \<Rightarrow> (cell, available, Inl (FrameFailure e))
      | Inr (frame_header, recv) \<Rightarrow>
      case current_frame_memory_units len frame_header of
        Inl e \<Rightarrow> (cell, available, Inl e)
      | Inr permits \<Rightarrow>
      if available < permits then (cell, available, Inl FrameMemoryBudgetExhausted)
      else case read_exact recv (len - FRAME_HEADER_BYTES) of
        Inl e \<Rightarrow> (cell, available, Inl (FrameFailure e))
      | Inr (body, recv) \<Rightarrow>
      case decode_request_frame de inflate (frame_header @ body) PROTOCOL_VERSION of
        Inl e \<Rightarrow> (cell, available, Inl e)
      | Inr v \<Rightarrow> (cell, available - permits, Inr (Some (v, permits, len), recv)))"

definition read_frame_with_budget ::
    "(bytes \<Rightarrow> 'a option) \<Rightarrow> inflater \<Rightarrow> nat \<Rightarrow> nat \<Rightarrow> usize \<Rightarrow> bytes \<Rightarrow> 'a read_outcome" where
  "read_frame_with_budget de inflate expected_mode cell available recv =
     (case read_exact recv 4 of
        Inl (FinishedEarly 0) \<Rightarrow> (cell, available, Inr (None, []))
      | Inl e \<Rightarrow> (cell, available, Inl (FrameFailure e))
      | Inr (prefix, recv) \<Rightarrow>
      let len = be_nat prefix in
      if MAX_WIRE_FRAME_BYTES < len
      then (cell, available, Inl (FrameFailure PeerWireFrameTooLarge))
      else if expected_mode = FRAME_MODE_UNKNOWN
      then read_first_frame de inflate cell available len recv
      else if expected_mode = FRAME_MODE_LEGACY
      then read_legacy_frame de inflate cell available len recv
      else if expected_mode \<noteq> FRAME_MODE_CURRENT
      then (cell, available, Inl (UnknownFrameMode expected_mode))
      else read_current_frame de inflate cell available len recv)"

section \<open>The charge covers the frame\<close>

lemma frame_memory_units_Inr:
  "frame_memory_units n = Inr u \<longleftrightarrow>
     u = max ((n + 65535) div 65536) 1 \<and> n + 65535 \<le> u64_max \<and> u \<le> u32_max"
  by (auto simp: frame_memory_units_def Let_def consts_simps not_less)

lemma frame_memory_units_covers:
  "frame_memory_units n = Inr u \<Longrightarrow> n \<le> u * FRAME_MEMORY_UNIT_BYTES"
  by (auto simp: frame_memory_units_Inr consts_simps max_def split: if_splits)

lemma frame_memory_units_wire:
  assumes "n \<le> MAX_WIRE_FRAME_BYTES"
  shows "\<exists>u \<le> 2049. frame_memory_units n = Inr u"
proof -
  have "(n + 65535) div 65536 \<le> 2049" using assms by (simp add: consts_simps)
  then show ?thesis using assms by (simp add: frame_memory_units_Inr consts_simps int_bounds)
qed

lemma frame_memory_units_decoded:
  assumes "n \<le> MAX_FRAME_BYTES"
  shows "\<exists>u \<le> 2048. frame_memory_units n = Inr u"
proof -
  have "(n + 65535) div 65536 \<le> 2048" using assms by (simp add: consts_simps)
  then show ?thesis using assms by (simp add: frame_memory_units_Inr consts_simps int_bounds)
qed

lemma current_units_covers:
  assumes "current_frame_memory_units len header = Inr permits" "frame_decoded_len header = Inr n"
  shows "len + (if header ! 2 = 1 then n else 0) \<le> permits * FRAME_MEMORY_UNIT_BYTES"
proof (cases "header ! 2 = 1")
  case True
  then obtain a b where "frame_memory_units len = Inr a" "frame_memory_units n = Inr b"
      "permits = a + b"
    using assms by (auto simp: current_frame_memory_units_def add_units_def split: if_splits)
  then show ?thesis using True
    by (auto simp: add_mult_distrib intro: add_mono frame_memory_units_covers)
next
  case False
  then show ?thesis
    using assms frame_memory_units_covers by (auto simp: current_frame_memory_units_def)
qed

lemma decode_request_frame_Inr:
  "decode_request_frame de inflate payload version = Inr v \<longleftrightarrow>
     (\<exists>decoded. decode_frame_payload_for_version inflate payload version = Inr decoded
        \<and> de decoded = Some v)"
  by (auto simp: decode_request_frame_def decode_message_def)

lemma read_exact_Inr: "read_exact recv n = Inr (a, b) \<longleftrightarrow> recv = a @ b \<and> length a = n"
  by (auto simp: read_exact_def split: if_splits)

text \<open>What a successful read guarantees: the bytes consumed are one length-prefixed
  frame, the value is its decoding, and the permits cover wire and decoded bytes.\<close>

definition charged_frame ::
    "(bytes \<Rightarrow> 'a option) \<Rightarrow> inflater \<Rightarrow> bytes \<Rightarrow> 'a \<Rightarrow> u32 \<Rightarrow> usize \<Rightarrow> bytes \<Rightarrow> bool" where
  "charged_frame de inflate recv v permits len rest \<longleftrightarrow>
     (\<exists>payload decoded version. recv = payload @ rest \<and> length payload = len
        \<and> decode_frame_payload_for_version inflate payload version = Inr decoded
        \<and> de decoded = Some v
        \<and> len + (if version = PROTOCOL_VERSION \<and> payload ! 2 = FRAME_ENCODING_ZLIB
                 then length decoded else 0) \<le> permits * FRAME_MEMORY_UNIT_BYTES)"

lemma charged_current:
  assumes "recv = (header @ body) @ rest" "length header = FRAME_HEADER_BYTES"
    and "length (header @ body) = len" "current_frame_memory_units len header = Inr permits"
    and "decode_request_frame de inflate (header @ body) PROTOCOL_VERSION = Inr v"
  shows "charged_frame de inflate recv v permits len rest"
proof -
  obtain decoded where d: "decode_frame_payload inflate (header @ body) = Inr decoded"
      "de decoded = Some v"
    using assms(5)
    by (auto simp: decode_request_frame_Inr decode_frame_payload_for_version_def consts_simps)
  have "frame_decoded_len header = Inr (length decoded)"
    using decode_frame_payload_advertised(1) [OF d(1)] assms(2) by simp
  from current_units_covers [OF assms(4) this]
  have "len + (if (header @ body) ! 2 = FRAME_ENCODING_ZLIB then length decoded else 0)
      \<le> permits * FRAME_MEMORY_UNIT_BYTES"
    using assms(2) by (simp add: nth_append FRAME_HEADER_BYTES_def FRAME_ENCODING_ZLIB_def)
  then show ?thesis
    unfolding charged_frame_def using assms(1,3) d
    by (intro exI [of _ "header @ body"] exI [of _ decoded] exI [of _ PROTOCOL_VERSION])
       (simp add: decode_frame_payload_for_version_def consts_simps)
qed

lemma charged_legacy:
  assumes "recv = payload @ rest" "length payload = len" "frame_memory_units len = Inr permits"
    and "decode_request_frame de inflate payload LEGACY_PROTOCOL_VERSION = Inr v"
  shows "charged_frame de inflate recv v permits len rest"
proof -
  obtain decoded where
    "decode_frame_payload_for_version inflate payload LEGACY_PROTOCOL_VERSION = Inr decoded"
    "de decoded = Some v" using assms(4) by (auto simp: decode_request_frame_Inr)
  then show ?thesis
    unfolding charged_frame_def using assms(1,2) frame_memory_units_covers [OF assms(3)]
    by (intro exI [of _ payload] exI [of _ decoded] exI [of _ LEGACY_PROTOCOL_VERSION])
       (simp add: PROTOCOL_VERSION_def LEGACY_PROTOCOL_VERSION_def)
qed

lemma charged_first:
  assumes "length prefix = min len FRAME_HEADER_BYTES"
    and "length mid = len - min len FRAME_HEADER_BYTES"
    and "first_frame_memory_units mode len prefix = Inr permits"
    and "mode = detect_frame_mode prefix"
    and "decode_request_frame de inflate (prefix @ mid)
         (if mode = FRAME_MODE_CURRENT then PROTOCOL_VERSION else LEGACY_PROTOCOL_VERSION) = Inr v"
  shows "charged_frame de inflate (prefix @ mid @ rest) v permits len rest"
proof (cases "mode = FRAME_MODE_CURRENT")
  case True
  then have u: "current_frame_memory_units len prefix = Inr permits"
    using assms(3) by (simp add: first_frame_memory_units_def consts_simps)
  then have "FRAME_HEADER_BYTES \<le> length prefix"
    by (auto simp: current_frame_memory_units_def frame_decoded_len_def split: if_splits)
  then show ?thesis
    using assms True u charged_current [of "prefix @ mid @ rest" prefix mid rest len permits de]
    by simp
next
  case False
  then have "mode = FRAME_MODE_LEGACY"
    using assms(4) by (auto simp: detect_frame_mode_def split: if_splits)
  then show ?thesis
    using assms False charged_legacy [of "prefix @ mid @ rest" "prefix @ mid" rest len permits de]
    by (simp add: first_frame_memory_units_def)
qed

text \<open>An outcome that leaves the permits alone or hands out exactly those it charged.\<close>

definition charged_outcome ::
    "(bytes \<Rightarrow> 'a option) \<Rightarrow> inflater \<Rightarrow> usize \<Rightarrow> bytes \<Rightarrow> 'a read_outcome \<Rightarrow> bool" where
  "charged_outcome de inflate available recv = (\<lambda>(cell', available', r).
     case r of
       Inl e \<Rightarrow> available' = available
     | Inr (None, rest) \<Rightarrow> available' = available
     | Inr (Some (v, permits, len), rest) \<Rightarrow>
         available = available' + permits \<and> charged_frame de inflate recv v permits len rest)"

lemma charged_outcome_simps [simp]:
  "charged_outcome de inflate available recv (cell, available, Inl e)"
  "charged_outcome de inflate available recv (cell, available, Inr (None, rest))"
  by (simp_all add: charged_outcome_def)

lemma read_first_frame_charged:
  "charged_outcome de inflate available recv (read_first_frame de inflate cell available len recv)"
  by (auto simp: charged_outcome_def read_first_frame_def Let_def read_exact_Inr not_less
      split: sum.splits prod.splits if_splits intro!: charged_first)

lemma read_legacy_frame_charged:
  "charged_outcome de inflate available recv (read_legacy_frame de inflate cell available len recv)"
  by (auto simp: charged_outcome_def read_legacy_frame_def read_exact_Inr not_less
      split: sum.splits prod.splits if_splits intro!: charged_legacy)

lemma read_current_frame_charged:
  "charged_outcome de inflate available recv (read_current_frame de inflate cell available len recv)"
  by (auto simp: charged_outcome_def read_current_frame_def read_exact_Inr not_less
      split: sum.splits prod.splits if_splits intro!: charged_current)

section \<open>Frames of a client are accepted\<close>

lemma current_units_of_encoded:
  assumes "encode_frame_payload deflate message = Inr payload"
  shows "\<exists>permits \<le> 4097. current_frame_memory_units (length payload)
    (take FRAME_HEADER_BYTES payload) = Inr permits"
proof -
  note len = encode_frame_payload_length [OF assms]
  obtain a where a: "a \<le> 2049" "frame_memory_units (length payload) = Inr a"
    using frame_memory_units_wire [of "length payload"] len by (auto simp: consts_simps)
  obtain b where b: "b \<le> 2048" "frame_memory_units (length message) = Inr b"
    using frame_memory_units_decoded [OF len(3)] by blast
  show ?thesis
    using a b frame_decoded_len_encoded [OF assms]
    by (auto simp: current_frame_memory_units_def add_units_def u32_max_def)
qed

lemma detect_encoded:
  assumes "encode_frame_payload deflate message = Inr payload"
  shows "detect_frame_mode (take FRAME_HEADER_BYTES payload) = FRAME_MODE_CURRENT"
  using assms
  by (cases rule: encode_frame_payload_cases)
     (simp_all add: detect_frame_mode_def consts_simps)

lemma decode_request_frame_written:
  assumes "codec_lawful c" "c_ser c m = Some message"
    and "encode_frame_payload_for_version (c_deflate c) message version = Inr payload"
  shows "decode_request_frame (c_de c) (c_inflate c) payload version = Inr m"
  using assms encode_for_version_roundtrip [of "c_deflate c" "c_inflate c" message version payload]
  by (auto simp: decode_request_frame_Inr codec_lawful_def postcard_law_def)

lemma read_exact_take_drop:
  "n \<le> length xs \<Longrightarrow> read_exact (xs @ ys) n = Inr (take n xs, drop n xs @ ys)"
  by (simp add: read_exact_def)

lemma encode_current_version:
  "encode_frame_payload_for_version deflate message PROTOCOL_VERSION
     = encode_frame_payload deflate message"
  by (simp add: encode_frame_payload_for_version_def consts_simps)

text \<open>The outcome for a frame whose charge is \<open>permits\<close>.\<close>

definition admitted :: "nat \<Rightarrow> nat \<Rightarrow> usize \<Rightarrow> u32 \<Rightarrow> 'a \<Rightarrow> usize \<Rightarrow> bytes \<Rightarrow> 'a read_outcome" where
  "admitted cell mode available permits m len rest =
     (if available < permits then (cell, available, Inl FrameMemoryBudgetExhausted)
      else (mode, available - permits, Inr (Some (m, permits, len), rest)))"

lemma read_current_written:
  assumes "codec_lawful c" "c_ser c m = Some message"
    and enc: "encode_frame_payload (c_deflate c) message = Inr payload"
  shows "\<exists>permits \<le> 4097.
    read_current_frame (c_de c) (c_inflate c) cell available (length payload) (payload @ rest)
      = admitted cell cell available permits m (length payload) rest
    \<and> (cell \<in> {FRAME_MODE_UNKNOWN, FRAME_MODE_CURRENT} \<longrightarrow>
       read_first_frame (c_de c) (c_inflate c) cell available (length payload) (payload @ rest)
         = admitted cell FRAME_MODE_CURRENT available permits m (length payload) rest)"
proof -
  obtain permits where permits: "permits \<le> 4097" "current_frame_memory_units (length payload)
      (take FRAME_HEADER_BYTES payload) = Inr permits"
    using current_units_of_encoded [OF enc] by blast
  have dec: "decode_request_frame (c_de c) (c_inflate c) payload PROTOCOL_VERSION = Inr m"
    using decode_request_frame_written [OF assms(1,2)] enc by (simp add: encode_current_version)
  have len: "FRAME_HEADER_BYTES \<le> length payload"
    by (rule encode_frame_payload_length [OF enc])
  have rd: "read_exact (payload @ rest) FRAME_HEADER_BYTES
      = Inr (take FRAME_HEADER_BYTES payload, drop FRAME_HEADER_BYTES payload @ rest)"
    "read_exact (drop FRAME_HEADER_BYTES payload @ rest) (length payload - FRAME_HEADER_BYTES)
      = Inr (drop FRAME_HEADER_BYTES payload, rest)"
    using len by (simp_all add: read_exact_take_drop)
  have "read_current_frame (c_de c) (c_inflate c) cell available (length payload) (payload @ rest)
      = admitted cell cell available permits m (length payload) rest"
    using len by (simp add: read_current_frame_def rd permits(2) dec admitted_def)
  moreover have "first_frame_memory_units FRAME_MODE_CURRENT (length payload)
      (take FRAME_HEADER_BYTES payload) = Inr permits"
    using permits(2) by (simp add: first_frame_memory_units_def consts_simps)
  then have "read_first_frame (c_de c) (c_inflate c) cell available (length payload) (payload @ rest)
      = admitted cell FRAME_MODE_CURRENT available permits m (length payload) rest"
    if "cell \<in> {FRAME_MODE_UNKNOWN, FRAME_MODE_CURRENT}"
    using len that
    by (auto simp: read_first_frame_def min_absorb2 rd detect_encoded [OF enc] dec admitted_def
        compare_exchange_mode_def Let_def)
  ultimately show ?thesis using permits(1) by blast
qed

lemma read_legacy_written:
  assumes "codec_lawful c" "c_ser c m = Some message" "length message \<le> MAX_FRAME_BYTES"
  shows "\<exists>permits \<le> 2048.
    read_legacy_frame (c_de c) (c_inflate c) cell available (length message) (message @ rest)
      = admitted cell cell available permits m (length message) rest
    \<and> (cell \<in> {FRAME_MODE_UNKNOWN, FRAME_MODE_LEGACY} \<and> take 2 message \<noteq> FRAME_MAGIC \<longrightarrow>
       read_first_frame (c_de c) (c_inflate c) cell available (length message) (message @ rest)
         = admitted cell FRAME_MODE_LEGACY available permits m (length message) rest)"
proof -
  obtain permits where permits: "permits \<le> 2048" "frame_memory_units (length message) = Inr permits"
    using frame_memory_units_decoded [OF assms(3)] by blast
  have dec: "decode_request_frame (c_de c) (c_inflate c) message LEGACY_PROTOCOL_VERSION = Inr m"
    using decode_request_frame_written [OF assms(1,2)] assms(3)
    by (simp add: encode_frame_payload_for_version_def)
  have "read_legacy_frame (c_de c) (c_inflate c) cell available (length message) (message @ rest)
      = admitted cell cell available permits m (length message) rest"
    using assms(3) by (simp add: read_legacy_frame_def permits(2) dec admitted_def)
  moreover have "read_first_frame (c_de c) (c_inflate c) cell available (length message)
      (message @ rest) = admitted cell FRAME_MODE_LEGACY available permits m (length message) rest"
    if "cell \<in> {FRAME_MODE_UNKNOWN, FRAME_MODE_LEGACY}" "take 2 message \<noteq> FRAME_MAGIC"
  proof -
    let ?k = "min (length message) FRAME_HEADER_BYTES"
    have rd: "read_exact (message @ rest) ?k = Inr (take ?k message, drop ?k message @ rest)"
      "read_exact (drop ?k message @ rest) (length message - ?k) = Inr (drop ?k message, rest)"
      by (simp_all add: read_exact_take_drop)
    have "detect_frame_mode (take ?k message) = FRAME_MODE_LEGACY"
      using that(2) by (auto simp: detect_frame_mode_def consts_simps min_def)
    then show ?thesis
      using that(1) rd by (auto simp: read_first_frame_def Let_def first_frame_memory_units_def
          permits(2) dec admitted_def compare_exchange_mode_def frame_modes_distinct)
  qed
  ultimately show ?thesis using permits(1) by blast
qed

lemma read_with_budget_dispatch:
  assumes "length payload \<le> MAX_WIRE_FRAME_BYTES"
  shows "read_frame_with_budget de inflate FRAME_MODE_UNKNOWN cell available
      (be_bytes 4 (length payload) @ payload @ rest)
      = read_first_frame de inflate cell available (length payload) (payload @ rest)"
    and "read_frame_with_budget de inflate FRAME_MODE_LEGACY cell available
      (be_bytes 4 (length payload) @ payload @ rest)
      = read_legacy_frame de inflate cell available (length payload) (payload @ rest)"
    and "read_frame_with_budget de inflate FRAME_MODE_CURRENT cell available
      (be_bytes 4 (length payload) @ payload @ rest)
      = read_current_frame de inflate cell available (length payload) (payload @ rest)"
proof -
  have "length payload < 256 ^ 4" using assms by (simp add: consts_simps)
  then show "read_frame_with_budget de inflate FRAME_MODE_UNKNOWN cell available
      (be_bytes 4 (length payload) @ payload @ rest)
      = read_first_frame de inflate cell available (length payload) (payload @ rest)"
    "read_frame_with_budget de inflate FRAME_MODE_LEGACY cell available
      (be_bytes 4 (length payload) @ payload @ rest)
      = read_legacy_frame de inflate cell available (length payload) (payload @ rest)"
    "read_frame_with_budget de inflate FRAME_MODE_CURRENT cell available
      (be_bytes 4 (length payload) @ payload @ rest)
      = read_current_frame de inflate cell available (length payload) (payload @ rest)"
    using assms by (simp_all add: read_frame_with_budget_def Let_def not_less [symmetric]
        frame_modes)
qed

section \<open>The framing mode is pinned once\<close>

text \<open>The two operations that can change the mode cell of a connection.\<close>

inductive mode_step :: "nat \<Rightarrow> nat \<Rightarrow> bool" where
  read_request: "read_frame_with_budget (de :: bytes \<Rightarrow> request option) inflate expected cell
      available recv = (cell', available', r) \<Longrightarrow> mode_step cell cell'"
| hello: "validate_frame_mode_for_version cell version = (cell', r) \<Longrightarrow> mode_step cell cell'"

inductive_cases mode_stepE: "mode_step cell cell'"

lemma read_with_budget_mode:
  assumes "read_frame_with_budget de inflate expected cell available recv = (cell', available', r)"
  shows "cell' = cell \<or> cell = FRAME_MODE_UNKNOWN \<and> cell' \<in> {FRAME_MODE_LEGACY, FRAME_MODE_CURRENT}"
  using assms
  by (auto simp: read_frame_with_budget_def read_first_frame_def read_legacy_frame_def
      read_current_frame_def compare_exchange_mode_def detect_frame_mode_def Let_def
      split: sum.splits prod.splits if_splits frame_error.splits nat.splits)

lemma mode_step_pins:
  "mode_step cell cell' \<Longrightarrow>
     cell' = cell \<or> cell = FRAME_MODE_UNKNOWN \<and> cell' \<in> {FRAME_MODE_LEGACY, FRAME_MODE_CURRENT}"
  by (auto elim!: mode_stepE dest: read_with_budget_mode
      simp: validate_frame_mode_for_version_def frame_mode_for_version_def
        compare_exchange_mode_def Let_def split: if_splits option.splits)

section \<open>Properties\<close>

text \<open>Claim C36. For any bytes a peer sends, in any mode, \<open>read_frame_with_budget\<close>
  returns the permits untouched on every error and at the end of the stream; a
  decoded request consumed exactly one length-prefixed frame and holds permits that
  cover its wire bytes plus, for a compressed frame, its decoded bytes.\<close>

theorem read_frame_with_budget_charges:
  "charged_outcome de inflate available (drop 4 recv)
     (read_frame_with_budget de inflate expected cell available recv)"
proof (cases "read_exact recv 4")
  case (Inl e)
  then show ?thesis
    by (auto simp: read_frame_with_budget_def read_exact_def split: if_splits nat.splits)
next
  case (Inr a)
  obtain prefix tail where "a = (prefix, tail)" by force
  moreover from this Inr have "tail = drop 4 recv" by (auto simp: read_exact_Inr)
  ultimately show ?thesis
    using Inr by (simp add: read_frame_with_budget_def Let_def read_first_frame_charged
        read_legacy_frame_charged read_current_frame_charged)
qed

text \<open>A request written by a client of version 16 or 17 is accepted by the
  daemon on a connection that is still unpinned or pinned to the framing of that
  version: the daemon decodes the same request, pins the mode, leaves the rest of the
  stream and charges at most 4097 permits; with too few permits it reports exhaustion
  and changes nothing.  (A version 16 message must not start with the bytes \<open>AF\<close>; a
  Postcard request starts with a variant index below 36.)\<close>

theorem read_frame_with_budget_accepts_written:
  assumes "codec_lawful c"
    and "write_frame_for_version (c_ser c) (c_deflate c) version [] m = Inr w"
    and "frame_mode_for_version version = Some mode"
    and "version = LEGACY_PROTOCOL_VERSION \<Longrightarrow> take 2 (the (c_ser c m)) \<noteq> FRAME_MAGIC"
    and "(expected, cell) \<in> {(FRAME_MODE_UNKNOWN, FRAME_MODE_UNKNOWN), (FRAME_MODE_UNKNOWN, mode), (mode, mode)}"
  shows "\<exists>permits \<le> 4097.
    read_frame_with_budget (c_de c) (c_inflate c) expected cell available (w @ rest)
      = (if available < permits then (cell, available, Inl FrameMemoryBudgetExhausted)
         else (mode, available - permits, Inr (Some (m, permits, length w - 4), rest)))"
proof -
  obtain message payload where w: "c_ser c m = Some message"
      "encode_frame_payload_for_version (c_deflate c) message version = Inr payload"
      "w = be_bytes 4 (length payload) @ payload"
    using assms(2) by (auto simp: write_frame_Inr_iff)
  have len: "length payload \<le> MAX_WIRE_FRAME_BYTES"
    using encode_for_version_length [OF w(2)] by (auto simp: consts_simps split: if_splits)
  note dispatch = read_with_budget_dispatch [OF len, of "c_de c" "c_inflate c" cell available rest]
  have "version = PROTOCOL_VERSION \<and> mode = FRAME_MODE_CURRENT
      \<or> version = LEGACY_PROTOCOL_VERSION \<and> mode = FRAME_MODE_LEGACY"
    using assms(3) by (auto simp: frame_mode_for_version_def split: if_splits)
  then show ?thesis
  proof
    assume v: "version = PROTOCOL_VERSION \<and> mode = FRAME_MODE_CURRENT"
    then have "encode_frame_payload (c_deflate c) message = Inr payload"
      using w(2) by (simp add: encode_current_version)
    from read_current_written [OF assms(1) w(1) this, of cell available rest]
    obtain permits where "permits \<le> 4097"
      "read_frame_with_budget (c_de c) (c_inflate c) expected cell available
         (be_bytes 4 (length payload) @ payload @ rest)
       = admitted cell mode available permits m (length payload) rest"
      using v assms(5) dispatch(1,3) by fastforce
    then show ?thesis
      by (intro exI [of _ permits]) (simp add: w(3) admitted_def)
  next
    assume v: "version = LEGACY_PROTOCOL_VERSION \<and> mode = FRAME_MODE_LEGACY"
    then have p: "payload = message" "length message \<le> MAX_FRAME_BYTES"
      using w(2) by (auto simp: encode_frame_payload_for_version_def split: if_splits)
    obtain permits where "permits \<le> 2048"
      "read_frame_with_budget (c_de c) (c_inflate c) expected cell available
         (be_bytes 4 (length payload) @ payload @ rest)
       = admitted cell mode available permits m (length payload) rest"
      using read_legacy_written [OF assms(1) w(1) p(2), of cell available rest] v assms(4,5)
        dispatch(1,2) p(1) w(1) by fastforce
    then show ?thesis
      by (intro exI [of _ permits]) (simp add: w(3) admitted_def)
  qed
qed

theorem read_frame_with_budget_accepts_written_witness:
  "codec_lawful demo_codec
    \<and> write_frame_for_version (c_ser demo_codec) (c_deflate demo_codec) 17 [] [1, 2]
        = Inr [0, 0, 0, 9, 65, 70, 0, 0, 0, 0, 2, 1, 2]
    \<and> (\<exists>permits \<le> 4097.
        read_frame_with_budget (c_de demo_codec) (c_inflate demo_codec) 0 0 4097
          [0, 0, 0, 9, 65, 70, 0, 0, 0, 0, 2, 1, 2]
        = (2, 4097 - permits, Inr (Some ([1, 2], permits, 9), [])))"
proof -
  have w: "write_frame_for_version (c_ser demo_codec) (c_deflate demo_codec) 17 [] [1, 2]
      = Inr [0, 0, 0, 9, 65, 70, 0, 0, 0, 0, 2, 1, 2]"
    by (simp add: write_frame_for_version_def encode_message_def demo_codec_def
        encode_frame_payload_for_version_def encode_frame_payload_def
        should_attempt_frame_compression_def consts_simps int_bounds be_bytes_4)
  have mode: "frame_mode_for_version 17 = Some 2"
    by (simp add: frame_mode_for_version_def consts_simps)
  show ?thesis
    using read_frame_with_budget_accepts_written [OF demo_codec_lawful w mode, of 0 0 4097 "[]"]
      w demo_codec_lawful
    by (auto simp: consts_simps)
qed

text \<open>Claim C37. The framing mode of a connection is pinned once: starting from an
  unknown mode, request reads and HELLO validations in any order only ever reach
  the legacy or the current mode, and once pinned it never changes again; a HELLO
  that is accepted is one whose version uses the pinned framing.\<close>

theorem frame_mode_pinned_once:
  assumes "mode_step\<^sup>*\<^sup>* FRAME_MODE_UNKNOWN mode" "mode_step\<^sup>*\<^sup>* mode mode'"
  shows "mode \<in> {FRAME_MODE_UNKNOWN, FRAME_MODE_LEGACY, FRAME_MODE_CURRENT}
    \<and> (mode \<noteq> FRAME_MODE_UNKNOWN \<longrightarrow> mode' = mode)
    \<and> (validate_frame_mode_for_version mode' version = (mode'', Inr ()) \<longrightarrow>
         frame_mode_version mode'' = Some version
         \<and> (mode \<noteq> FRAME_MODE_UNKNOWN \<longrightarrow> mode'' = mode))"
proof -
  have range: "m \<in> {FRAME_MODE_UNKNOWN, FRAME_MODE_LEGACY, FRAME_MODE_CURRENT}"
    if "mode_step\<^sup>*\<^sup>* FRAME_MODE_UNKNOWN m" for m
    using that by (induction rule: rtranclp_induct) (auto dest: mode_step_pins)
  have pinned: "mode' = mode" if "mode \<noteq> FRAME_MODE_UNKNOWN"
    using assms(2) that by (induction rule: rtranclp_induct) (auto dest: mode_step_pins)
  have "frame_mode_version mode'' = Some version \<and> (mode \<noteq> FRAME_MODE_UNKNOWN \<longrightarrow> mode'' = mode)"
    if "validate_frame_mode_for_version mode' version = (mode'', Inr ())"
    using that pinned
    by (auto simp: validate_frame_mode_for_version_def frame_mode_for_version_def
        frame_mode_version_def compare_exchange_mode_def Let_def frame_modes
        split: if_splits option.splits)
  then show ?thesis using range [OF assms(1)] pinned by blast
qed

theorem frame_mode_pinned_once_witness:
  "mode_step\<^sup>*\<^sup>* FRAME_MODE_UNKNOWN 2 \<and> mode_step\<^sup>*\<^sup>* 2 2
     \<and> validate_frame_mode_for_version 2 16 = (2, Inl (VersionNeedsOtherFraming 16))
     \<and> validate_frame_mode_for_version 2 17 = (2, Inr ()) \<and> frame_mode_version 2 = Some 17"
proof -
  have "validate_frame_mode_for_version FRAME_MODE_UNKNOWN 17 = (2, Inr ())"
    and v: "validate_frame_mode_for_version 2 17 = (2, Inr ())"
      "validate_frame_mode_for_version 2 16 = (2, Inl (VersionNeedsOtherFraming 16))"
    by (simp_all add: validate_frame_mode_for_version_def frame_mode_for_version_def
        compare_exchange_mode_def consts_simps Let_def)
  then have s: "mode_step\<^sup>*\<^sup>* FRAME_MODE_UNKNOWN 2" "mode_step\<^sup>*\<^sup>* 2 2"
    by (auto intro: mode_step.hello)
  show ?thesis
    using frame_mode_pinned_once [OF s, of 17 2] v s by simp
qed

end
