(* ===== verification/Journal.thy ===== *)
theory Journal
  imports Wire
begin

text \<open>
  The in-memory event journal of a session and the bounded replay buffer
  (\<open>crates/asp-server/src/main.rs\<close>: \<open>event_approx_bytes\<close>, \<open>Journal\<close>,
  \<open>EventReplayBuffer\<close>).  The clock \<open>unix_ms()\<close> is an argument.  The eviction loop
  of \<open>enforce_bounds\<close> spins forever on an empty queue whose byte count is over the
  limit; \<open>evict\<close> gives \<open>None\<close> there, and the journal invariant excludes it.
\<close>

definition JOURNAL_MAX_EVENTS :: usize where [consts_simps]:
  "JOURNAL_MAX_EVENTS = 20000"

definition JOURNAL_MAX_BYTES :: usize where [consts_simps]:
  "JOURNAL_MAX_BYTES = 67108864"

definition MAX_DURABLE_REPLAY_EVENTS :: usize where [consts_simps]:
  "MAX_DURABLE_REPLAY_EVENTS = 100000"

definition MAX_DURABLE_REPLAY_BYTES :: usize where [consts_simps]:
  "MAX_DURABLE_REPLAY_BYTES = 67108864"

record journal =
  j_events :: "event list"
  j_next_id :: u64
  j_approx_bytes :: usize
  j_oldest_event_unix_ms :: "u64 option"

section \<open>Size of an event\<close>

definition opt_len :: "string option \<Rightarrow> usize" where
  "opt_len s = (case s of None \<Rightarrow> 0 | Some s \<Rightarrow> length s)"

definition event_variable_bytes :: "event_kind \<Rightarrow> usize" where
  "event_variable_bytes k = (case k of
     SessionCreated \<Rightarrow> 0
   | PtyStarted \<Rightarrow> 0
   | PtyStateAdvanced _ \<Rightarrow> 0
   | ProcessStarted _ command _ _ \<Rightarrow> length command
   | ProcessOutput _ _ _ data \<Rightarrow> length data
   | ProcessExited _ _ \<Rightarrow> 0
   | FileChanged path _ \<Rightarrow> length path
   | FileMutation _ request_hash path _ sha256 \<Rightarrow>
       saturating_add (saturating_add (length request_hash) (length path)) (length sha256)
   | SignalApplied _ request_hash _ _ _ message \<Rightarrow>
       saturating_add (length request_hash) (opt_len message)
   | ArtifactCreated _ request_hash artifact_id _ name \<Rightarrow>
       saturating_add (saturating_add (length request_hash) (length artifact_id)) (opt_len name)
   | ArtifactDeleted artifact_id _ \<Rightarrow> length artifact_id)"

definition event_approx_bytes :: "event \<Rightarrow> usize" where
  "event_approx_bytes e = saturating_add 128 (event_variable_bytes (ev_kind e))"

lemma event_approx_bytes_pos: "128 \<le> event_approx_bytes e"
  by (simp add: event_approx_bytes_def saturating_add_def u64_max_def)

definition total_bytes :: "event list \<Rightarrow> nat" where
  "total_bytes es = sum_list (map event_approx_bytes es)"

lemma total_bytes_simps [simp]:
  "total_bytes [] = 0"
  "total_bytes (e # es) = event_approx_bytes e + total_bytes es"
  "total_bytes (es @ fs) = total_bytes es + total_bytes fs"
  by (simp_all add: total_bytes_def)

section \<open>Operations\<close>

definition front :: "event list \<Rightarrow> event option" where
  "front es = (case es of [] \<Rightarrow> None | e # _ \<Rightarrow> Some e)"

definition opt_or :: "'a option \<Rightarrow> 'a option \<Rightarrow> 'a option" where
  "opt_or a b = (case a of None \<Rightarrow> b | Some _ \<Rightarrow> a)"

definition journal_from_loaded :: "event list \<Rightarrow> u64 \<Rightarrow> u64 option \<Rightarrow> journal" where
  "journal_from_loaded events next_id oldest =
     \<lparr>j_events = events, j_next_id = next_id, j_approx_bytes = total_bytes events,
      j_oldest_event_unix_ms = opt_or (map_option ev_unix_ms (front events)) oldest\<rparr>"

definition min_unix_ms :: "u64 option \<Rightarrow> u64 \<Rightarrow> u64" where
  "min_unix_ms oldest now = (case oldest of None \<Rightarrow> now | Some o' \<Rightarrow> min o' now)"

definition journal_append :: "u64 \<Rightarrow> event_kind \<Rightarrow> journal \<Rightarrow> journal \<times> event" where
  "journal_append now kind j =
     (let next_id = j_next_id j + 1;
          e = \<lparr>ev_id = next_id, ev_unix_ms = now, ev_kind = kind\<rparr>
      in (j\<lparr>j_next_id := next_id,
            j_oldest_event_unix_ms := Some (min_unix_ms (j_oldest_event_unix_ms j) now),
            j_approx_bytes := saturating_add (j_approx_bytes j) (event_approx_bytes e),
            j_events := j_events j @ [e]\<rparr>, e))"

fun evict :: "event list \<Rightarrow> usize \<Rightarrow> (event list \<times> usize) option" where
  "evict [] approx = (if JOURNAL_MAX_BYTES < approx then None else Some ([], approx))"
| "evict (old # events) approx =
     (if JOURNAL_MAX_EVENTS < length (old # events) \<or> JOURNAL_MAX_BYTES < approx
      then evict events (saturating_sub approx (event_approx_bytes old))
      else Some (old # events, approx))"

definition enforce_bounds :: "journal \<Rightarrow> journal option" where
  "enforce_bounds j =
     (case evict (j_events j) (j_approx_bytes j) of
        None \<Rightarrow> None
      | Some (events, approx) \<Rightarrow>
          Some (j\<lparr>j_events := events, j_approx_bytes := approx,
                  j_oldest_event_unix_ms := map_option ev_unix_ms (front events)\<rparr>))"

definition journal_rollback :: "event \<Rightarrow> journal \<Rightarrow> journal" where
  "journal_rollback e j =
     (if j_events j \<noteq> [] \<and> ev_id (last (j_events j)) = ev_id e then
        let removed = last (j_events j); events = butlast (j_events j)
        in j\<lparr>j_events := events,
             j_approx_bytes := saturating_sub (j_approx_bytes j) (event_approx_bytes removed),
             j_next_id := saturating_sub (ev_id e) 1,
             j_oldest_event_unix_ms := map_option ev_unix_ms (front events)\<rparr>
      else j)"

definition retained_from_event_id :: "journal \<Rightarrow> u64" where
  "retained_from_event_id j =
     (case front (j_events j) of None \<Rightarrow> saturating_add (j_next_id j) 1 | Some e \<Rightarrow> ev_id e)"

definition journal_since :: "u64 \<Rightarrow> journal \<Rightarrow> event list \<times> bool" where
  "journal_since after j =
     (let compacted = saturating_add after 1 < retained_from_event_id j
      in (if compacted then [] else filter (\<lambda>e. after < ev_id e) (j_events j), compacted))"

section \<open>Replay buffer\<close>

record replay_buffer =
  rb_after_event_id :: u64
  rb_events :: "event list"
  rb_bytes :: usize
  rb_limit_reached :: bool

definition replay_new :: "u64 \<Rightarrow> replay_buffer" where
  "replay_new after = \<lparr>rb_after_event_id = after, rb_events = [], rb_bytes = 0,
     rb_limit_reached = False\<rparr>"

definition replay_push :: "event \<Rightarrow> replay_buffer \<Rightarrow> replay_buffer \<times> bool" where
  "replay_push e b =
     (if ev_id e \<le> rb_after_event_id b then (b, True)
      else
        let event_bytes = event_approx_bytes e
        in if MAX_DURABLE_REPLAY_EVENTS \<le> length (rb_events b)
              \<or> MAX_DURABLE_REPLAY_BYTES < saturating_add (rb_bytes b) event_bytes
           then (b\<lparr>rb_limit_reached := True\<rparr>, False)
           else (b\<lparr>rb_bytes := saturating_add (rb_bytes b) event_bytes,
                   rb_events := rb_events b @ [e]\<rparr>, True))"

section \<open>Invariant\<close>

text \<open>The retained events are the last ones, with consecutive ids up to \<open>next_id\<close>,
  and the byte count is exact.\<close>

definition consecutive :: "u64 \<Rightarrow> event list \<Rightarrow> bool" where
  "consecutive n es \<longleftrightarrow>
     length es \<le> n \<and> map ev_id es = [Suc (n - length es)..<Suc n]"

definition journal_inv :: "journal \<Rightarrow> bool" where
  "journal_inv j \<longleftrightarrow> consecutive (j_next_id j) (j_events j)
     \<and> j_approx_bytes j = total_bytes (j_events j)"

definition journal_bounded :: "journal \<Rightarrow> bool" where
  "journal_bounded j \<longleftrightarrow> length (j_events j) \<le> JOURNAL_MAX_EVENTS
     \<and> j_approx_bytes j \<le> JOURNAL_MAX_BYTES"

lemma consecutive_Nil [simp]: "consecutive n []"
  by (simp add: consecutive_def)

lemma consecutive_snoc:
  "consecutive (Suc n) (es @ [e]) \<longleftrightarrow> consecutive n es \<and> ev_id e = Suc n"
  by (auto simp: consecutive_def)

lemma consecutive_drop: "consecutive n es \<Longrightarrow> consecutive n (drop k es)"
proof -
  assume c: "consecutive n es"
  show ?thesis
  proof (cases "k \<le> length es")
    case True
    then have "Suc (n - length es) + k = Suc (n - (length es - k))"
      using c by (simp add: consecutive_def)
    then show ?thesis
      using c True by (auto simp: consecutive_def drop_map [symmetric] simp del: upt_Suc)
  qed simp
qed

lemma consecutive_nth:
  assumes "consecutive n es" "i < length es"
  shows "ev_id (es ! i) = Suc (n - length es) + i"
proof -
  have "map ev_id es ! i = [Suc (n - length es)..<Suc n] ! i"
    using assms(1) by (simp add: consecutive_def)
  then show ?thesis using assms by (simp add: consecutive_def nth_append split: if_splits)
qed

lemma consecutive_filter_after:
  assumes "consecutive n es"
  shows "filter (\<lambda>e. after < ev_id e) es = drop (after - (n - length es)) es"
proof -
  let ?k = "after - (n - length es)"
  have "es = take ?k es @ drop ?k es" by simp
  then have "filter (\<lambda>e. after < ev_id e) es
      = filter (\<lambda>e. after < ev_id e) (take ?k es) @ filter (\<lambda>e. after < ev_id e) (drop ?k es)"
    by (metis filter_append)
  moreover have "filter (\<lambda>e. after < ev_id e) (take ?k es) = []"
    using assms by (auto simp: filter_empty_conv in_set_conv_nth consecutive_nth)
  moreover have "filter (\<lambda>e. after < ev_id e) (drop ?k es) = drop ?k es"
    using assms by (auto simp: filter_id_conv in_set_conv_nth consecutive_nth)
  ultimately show ?thesis by simp
qed

section \<open>Eviction\<close>

definition fits :: "event list \<Rightarrow> bool" where
  "fits es \<longleftrightarrow> length es \<le> JOURNAL_MAX_EVENTS \<and> total_bytes es \<le> JOURNAL_MAX_BYTES"

lemma fits_Nil [simp]: "fits []"
  by (simp add: fits_def)

text \<open>The loop keeps the longest suffix that fits.\<close>

lemma evict_exact:
  "\<exists>k \<le> length es. evict es (total_bytes es) = Some (drop k es, total_bytes (drop k es))
     \<and> fits (drop k es) \<and> (\<forall>i < k. \<not> fits (drop i es))"
proof (induction es)
  case (Cons e es)
  show ?case
  proof (cases "fits (e # es)")
    case True
    then have "evict (e # es) (total_bytes (e # es)) = Some (e # es, total_bytes (e # es))"
      by (auto simp: fits_def)
    with True show ?thesis by (intro exI [of _ 0]) simp
  next
    case False
    then have step: "evict (e # es) (total_bytes (e # es)) = evict es (total_bytes es)"
      by (auto simp: fits_def)
    obtain k where k: "k \<le> length es"
        "evict es (total_bytes es) = Some (drop k es, total_bytes (drop k es))"
        "fits (drop k es)" "\<forall>i < k. \<not> fits (drop i es)"
      using Cons.IH by blast
    have "\<not> fits (drop i (e # es))" if "i < Suc k" for i
      using that False k(4) by (cases i) auto
    then show ?thesis
      using k step by (intro exI [of _ "Suc k"]) simp
  qed
qed (simp add: fits_def)

lemma enforce_bounds_exact:
  assumes "journal_inv j"
  shows "\<exists>k \<le> length (j_events j). fits (drop k (j_events j))
    \<and> (\<forall>i < k. \<not> fits (drop i (j_events j)))
    \<and> enforce_bounds j = Some (j\<lparr>j_events := drop k (j_events j),
        j_approx_bytes := total_bytes (drop k (j_events j)),
        j_oldest_event_unix_ms := map_option ev_unix_ms (front (drop k (j_events j)))\<rparr>)"
  using evict_exact [of "j_events j"] assms
  by (auto simp: enforce_bounds_def journal_inv_def)

section \<open>The journal interface\<close>

text \<open>The journal part of \<open>Session::append_locked\<close>, for any journal: append, persist,
  undo on a failed persist, trim otherwise.  \<open>None\<close> is a trim that does not end.\<close>

definition commit_event ::
    "(u64 \<Rightarrow> event_kind \<Rightarrow> 'j \<Rightarrow> 'j \<times> event) \<Rightarrow> (event \<Rightarrow> 'j \<Rightarrow> 'j) \<Rightarrow> ('j \<Rightarrow> 'j option)
      \<Rightarrow> bool \<Rightarrow> u64 \<Rightarrow> event_kind \<Rightarrow> 'j \<Rightarrow> ('j \<times> event option) option" where
  "commit_event app_ev undo trim persisted now kind j =
     (let (j', e) = app_ev now kind j
      in if persisted then map_option (\<lambda>j''. (j'', Some e)) (trim j')
         else Some (undo e j', None))"

text \<open>A run of commits with the durable log they leave behind.\<close>

fun commit_run ::
    "(bool \<Rightarrow> u64 \<Rightarrow> event_kind \<Rightarrow> 'j \<Rightarrow> ('j \<times> event option) option)
      \<Rightarrow> (u64 \<times> event_kind \<times> bool) list \<Rightarrow> 'j \<Rightarrow> event list \<Rightarrow> ('j \<times> event list) option" where
  "commit_run step [] j log = Some (j, log)"
| "commit_run step ((now, kind, persisted) # rest) j log =
     (case step persisted now kind j of
        None \<Rightarrow> None
      | Some (j', None) \<Rightarrow> commit_run step rest j' log
      | Some (j', Some e) \<Rightarrow> commit_run step rest j' (log @ [e]))"

text \<open>What the session relies on when it commits events: numbering, the retained
  window, exact undo of the last append, and trimming that only forgets old events.\<close>

locale event_journal =
  fixes inv :: "'j \<Rightarrow> bool"
    and head :: "'j \<Rightarrow> u64"
    and window :: "'j \<Rightarrow> event list"
    and app_ev :: "u64 \<Rightarrow> event_kind \<Rightarrow> 'j \<Rightarrow> 'j \<times> event"
    and undo :: "event \<Rightarrow> 'j \<Rightarrow> 'j"
    and trim :: "'j \<Rightarrow> 'j option"
    and storable :: "event_kind \<Rightarrow> bool"
  assumes append_law: "\<lbrakk>inv j; storable kind; app_ev now kind j = (j', e)\<rbrakk>
      \<Longrightarrow> head j' = Suc (head j) \<and> window j' = window j @ [e]
        \<and> e = \<lparr>ev_id = Suc (head j), ev_unix_ms = now, ev_kind = kind\<rparr>"
    and rollback_law: "\<lbrakk>inv j; storable kind; app_ev now kind j = (j', e)\<rbrakk>
      \<Longrightarrow> inv (undo e j') \<and> head (undo e j') = head j \<and> window (undo e j') = window j"
    and trim_law: "\<lbrakk>inv j; storable kind; app_ev now kind j = (j', e)\<rbrakk>
      \<Longrightarrow> \<exists>j'' k. trim j' = Some j'' \<and> inv j'' \<and> head j'' = head j'
        \<and> window j'' = drop k (window j')"
begin

lemma commit_event_persisted:
  assumes "inv j" "storable kind"
  shows "\<exists>j' k. commit_event app_ev undo trim True now kind j
      = Some (j', Some \<lparr>ev_id = Suc (head j), ev_unix_ms = now, ev_kind = kind\<rparr>)
    \<and> inv j' \<and> head j' = Suc (head j)
    \<and> window j' = drop k (window j @ [\<lparr>ev_id = Suc (head j), ev_unix_ms = now, ev_kind = kind\<rparr>])"
proof -
  obtain j' e where a: "app_ev now kind j = (j', e)" by force
  show ?thesis
    using append_law [OF assms a] trim_law [OF assms a] by (auto simp: commit_event_def a)
qed

lemma commit_event_failed:
  assumes "inv j" "storable kind"
  shows "\<exists>j'. commit_event app_ev undo trim False now kind j = Some (j', None)
    \<and> inv j' \<and> head j' = head j \<and> window j' = window j"
proof -
  obtain j' e where a: "app_ev now kind j = (j', e)" by force
  show ?thesis using rollback_law [OF assms a] by (auto simp: commit_event_def a)
qed

lemma commit_run_spec:
  assumes "inv j" "\<forall>(now, kind, persisted) \<in> set attempts. storable kind"
    and "consecutive (head j) log" "\<exists>k. window j = drop k log"
  shows "\<exists>j' new. commit_run (commit_event app_ev undo trim) attempts j log = Some (j', log @ new)
    \<and> inv j' \<and> consecutive (head j') (log @ new) \<and> (\<exists>k. window j' = drop k (log @ new))
    \<and> map (\<lambda>e. (ev_unix_ms e, ev_kind e)) new
      = map (\<lambda>(now, kind, persisted). (now, kind)) (filter (\<lambda>(now, kind, persisted). persisted) attempts)"
  using assms
proof (induction attempts arbitrary: j log)
  case (Cons a attempts)
  obtain now kind persisted where a: "a = (now, kind, persisted)" by (cases a)
  have st: "storable kind" using Cons.prems(2) a by simp
  show ?case
  proof (cases persisted)
    case True
    let ?e = "\<lparr>ev_id = Suc (head j), ev_unix_ms = now, ev_kind = kind\<rparr>"
    obtain j' k where j': "commit_event app_ev undo trim True now kind j = Some (j', Some ?e)"
        "inv j'" "head j' = Suc (head j)" "window j' = drop k (window j @ [?e])"
      using commit_event_persisted [OF Cons.prems(1) st] by blast
    obtain m where m: "window j = drop m log" using Cons.prems(4) by blast
    have "window j @ [?e] = drop (min m (length log)) (log @ [?e])" by (simp add: m min_def)
    then have win: "\<exists>i. window j' = drop i (log @ [?e])" using j'(4) by (metis drop_drop)
    have cons: "consecutive (head j') (log @ [?e])"
      using j'(3) Cons.prems(3) by (simp add: consecutive_snoc)
    have rest: "\<forall>(now, kind, persisted) \<in> set attempts. storable kind"
      using Cons.prems(2) by simp
    obtain j2 new where
      "commit_run (commit_event app_ev undo trim) attempts j' (log @ [?e])
         = Some (j2, (log @ [?e]) @ new)"
      "inv j2" "consecutive (head j2) ((log @ [?e]) @ new)" "\<exists>k. window j2 = drop k ((log @ [?e]) @ new)"
      "map (\<lambda>e. (ev_unix_ms e, ev_kind e)) new = map (\<lambda>(now, kind, persisted). (now, kind))
         (filter (\<lambda>(now, kind, persisted). persisted) attempts)"
      using Cons.IH [OF j'(2) rest cons win] by blast
    then show ?thesis
      by (intro exI [of _ j2] exI [of _ "?e # new"]) (simp add: a True j'(1))
  next
    case False
    obtain j' where j': "commit_event app_ev undo trim False now kind j = Some (j', None)"
        "inv j'" "head j' = head j" "window j' = window j"
      using commit_event_failed [OF Cons.prems(1) st] by blast
    then show ?thesis
      using Cons.IH [OF j'(2), of log] Cons.prems a False by auto
  qed
qed auto

end

section \<open>The journal satisfies the interface\<close>

text \<open>An event whose variable part fits the address space; the byte count cannot
  saturate then.\<close>

definition storable_kind :: "event_kind \<Rightarrow> bool" where
  "storable_kind k \<longleftrightarrow> event_variable_bytes k < 9223372036854775808"

definition journal_ok :: "journal \<Rightarrow> bool" where
  "journal_ok j \<longleftrightarrow> journal_inv j \<and> journal_bounded j"

lemma event_approx_bytes_eq:
  "storable_kind (ev_kind e) \<Longrightarrow> event_approx_bytes e = 128 + event_variable_bytes (ev_kind e)"
  by (simp add: event_approx_bytes_def storable_kind_def saturating_add_def u64_max_def)

lemma journal_append_inv:
  assumes "journal_ok j" "storable_kind kind" "journal_append now kind j = (j', e)"
  shows "journal_inv j' \<and> j_next_id j' = Suc (j_next_id j) \<and> j_events j' = j_events j @ [e]
    \<and> e = \<lparr>ev_id = Suc (j_next_id j), ev_unix_ms = now, ev_kind = kind\<rparr>"
proof -
  have e: "e = \<lparr>ev_id = Suc (j_next_id j), ev_unix_ms = now, ev_kind = kind\<rparr>"
    using assms(3) by (auto simp: journal_append_def Let_def)
  have "event_approx_bytes e < 9223372036854775936"
    using assms(2) event_approx_bytes_eq [of e] by (simp add: e storable_kind_def)
  then have "saturating_add (j_approx_bytes j) (event_approx_bytes e)
      = j_approx_bytes j + event_approx_bytes e"
    using assms(1) by (simp add: journal_ok_def journal_bounded_def consts_simps
        saturating_add_def u64_max_def)
  then show ?thesis
    using assms(1,3) e
    by (auto simp: journal_append_def Let_def journal_ok_def journal_inv_def consecutive_snoc)
qed

lemma rollback_append:
  assumes "journal_ok j" "storable_kind kind" "journal_append now kind j = (j', e)"
  shows "journal_rollback e j' = j\<lparr>j_oldest_event_unix_ms := map_option ev_unix_ms (front (j_events j))\<rparr>"
proof -
  note inv = journal_append_inv [OF assms]
  have "j_approx_bytes j' = j_approx_bytes j + event_approx_bytes e"
    using inv assms(1) by (auto simp: journal_inv_def journal_ok_def)
  moreover have "j' = j'\<lparr>j_events := j_events j @ [e], j_next_id := Suc (j_next_id j)\<rparr>"
    using inv by simp
  moreover have "journal.more j' = journal.more j"
    using assms(3) by (auto simp: journal_append_def Let_def)
  ultimately show ?thesis
    using inv by (simp add: journal_rollback_def Let_def)
qed

interpretation journal: event_journal journal_ok j_next_id j_events journal_append
    journal_rollback enforce_bounds storable_kind
proof
  fix j kind now j' e
  assume a: "journal_ok j" "storable_kind kind" "journal_append now kind j = (j', e)"
  show "j_next_id j' = Suc (j_next_id j) \<and> j_events j' = j_events j @ [e]
      \<and> e = \<lparr>ev_id = Suc (j_next_id j), ev_unix_ms = now, ev_kind = kind\<rparr>"
    using journal_append_inv [OF a] by blast
  show "journal_ok (journal_rollback e j') \<and> j_next_id (journal_rollback e j') = j_next_id j
      \<and> j_events (journal_rollback e j') = j_events j"
    using a(1) rollback_append [OF a]
    by (simp add: journal_ok_def journal_inv_def journal_bounded_def)
  obtain k where k: "fits (drop k (j_events j'))"
      "enforce_bounds j' = Some (j'\<lparr>j_events := drop k (j_events j'),
        j_approx_bytes := total_bytes (drop k (j_events j')),
        j_oldest_event_unix_ms := map_option ev_unix_ms (front (drop k (j_events j')))\<rparr>)"
    using enforce_bounds_exact journal_append_inv [OF a] by blast
  moreover have "consecutive (j_next_id j') (drop k (j_events j'))"
    using journal_append_inv [OF a] consecutive_drop unfolding journal_inv_def by blast
  ultimately show "\<exists>j'' k. enforce_bounds j' = Some j'' \<and> journal_ok j'' \<and> j_next_id j'' = j_next_id j'
      \<and> j_events j'' = drop k (j_events j')"
    by (auto simp: journal_ok_def journal_inv_def journal_bounded_def fits_def)
qed

section \<open>Replay buffer\<close>

text \<open>The buffer always stays within both limits and holds events after the cursor.\<close>

definition replay_ok :: "replay_buffer \<Rightarrow> bool" where
  "replay_ok b \<longleftrightarrow> length (rb_events b) \<le> MAX_DURABLE_REPLAY_EVENTS
     \<and> rb_bytes b = total_bytes (rb_events b) \<and> rb_bytes b \<le> MAX_DURABLE_REPLAY_BYTES
     \<and> (\<forall>e \<in> set (rb_events b). rb_after_event_id b < ev_id e)"

lemma replay_new_ok [simp]: "replay_ok (replay_new after)"
  by (simp add: replay_ok_def replay_new_def)

lemma replay_push_ok:
  assumes "replay_ok b"
  shows "replay_ok (fst (replay_push e b))"
proof -
  have "saturating_add (rb_bytes b) (event_approx_bytes e) = rb_bytes b + event_approx_bytes e"
    if "saturating_add (rb_bytes b) (event_approx_bytes e) \<le> MAX_DURABLE_REPLAY_BYTES"
    using that by (auto simp: saturating_add_def min_def consts_simps u64_max_def split: if_splits)
  with assms show ?thesis
    by (auto simp: replay_ok_def replay_push_def Let_def not_le not_less)
qed

lemma replay_push_True:
  assumes "replay_push e b = (b', True)"
  shows "rb_events b' = rb_events b @ filter (\<lambda>e. rb_after_event_id b < ev_id e) [e]
    \<and> rb_after_event_id b' = rb_after_event_id b \<and> rb_limit_reached b' = rb_limit_reached b"
  using assms by (auto simp: replay_push_def Let_def split: if_splits)

lemma replay_push_False:
  assumes "replay_push e b = (b', False)"
  shows "rb_limit_reached b' \<and> rb_events b' = rb_events b \<and> rb_after_event_id b < ev_id e"
  using assms by (auto simp: replay_push_def Let_def split: if_splits)

section \<open>Properties\<close>

text \<open>Claim C38. In any sequence of commit attempts, some of which fail to persist, the
  durable log receives exactly the persisted events with consecutive ids and no gap or
  repetition, the in-memory window stays a suffix of the durable log, its byte count
  stays exact and within the bounds, and the eviction loop of every commit ends.\<close>

theorem journal_commit_run:
  assumes "journal_ok j" "\<forall>(now, kind, persisted) \<in> set attempts. storable_kind kind"
    and "consecutive (j_next_id j) log" "\<exists>k. j_events j = drop k log"
  shows "\<exists>j' new.
    commit_run (commit_event journal_append journal_rollback enforce_bounds) attempts j log
      = Some (j', log @ new)
    \<and> journal_ok j' \<and> consecutive (j_next_id j') (log @ new) \<and> (\<exists>k. j_events j' = drop k (log @ new))
    \<and> map (\<lambda>e. (ev_unix_ms e, ev_kind e)) new
      = map (\<lambda>(now, kind, persisted). (now, kind)) (filter (\<lambda>(now, kind, persisted). persisted) attempts)"
  by (rule journal.commit_run_spec [OF assms])

lemma journal_from_loaded_ok:
  "consecutive n es \<Longrightarrow> fits es \<Longrightarrow> journal_ok (journal_from_loaded es n oldest)"
  by (simp add: journal_ok_def journal_inv_def journal_bounded_def journal_from_loaded_def fits_def)

theorem journal_commit_run_witness:
  "\<exists>j' new.
    commit_run (commit_event journal_append journal_rollback enforce_bounds)
      [(100, SessionCreated, True), (101, PtyStarted, False), (102, PtyStateAdvanced 3, True)]
      (journal_from_loaded [] 0 None) [] = Some (j', [] @ new)
    \<and> map (\<lambda>e. (ev_unix_ms e, ev_kind e)) new = [(100, SessionCreated), (102, PtyStateAdvanced 3)]
    \<and> consecutive (j_next_id j') ([] @ new)"
proof -
  let ?a = "[(100, SessionCreated, True), (101, PtyStarted, False), (102, PtyStateAdvanced 3, True)]"
  have "journal_ok (journal_from_loaded [] 0 None)" by (rule journal_from_loaded_ok) simp_all
  moreover have "\<forall>(now, kind, persisted) \<in> set ?a. storable_kind kind"
    by (simp add: storable_kind_def event_variable_bytes_def)
  ultimately have "\<exists>j' new.
    commit_run (commit_event journal_append journal_rollback enforce_bounds) ?a
      (journal_from_loaded [] 0 None) [] = Some (j', [] @ new)
    \<and> journal_ok j' \<and> consecutive (j_next_id j') ([] @ new) \<and> (\<exists>k. j_events j' = drop k ([] @ new))
    \<and> map (\<lambda>e. (ev_unix_ms e, ev_kind e)) new
      = map (\<lambda>(now, kind, persisted). (now, kind)) (filter (\<lambda>(now, kind, persisted). persisted) ?a)"
    by (rule journal_commit_run) (simp_all add: journal_from_loaded_def)
  then obtain j' new where
    "commit_run (commit_event journal_append journal_rollback enforce_bounds) ?a
      (journal_from_loaded [] 0 None) [] = Some (j', [] @ new)"
    "consecutive (j_next_id j') ([] @ new)"
    "map (\<lambda>e. (ev_unix_ms e, ev_kind e)) new
      = map (\<lambda>(now, kind, persisted). (now, kind)) (filter (\<lambda>(now, kind, persisted). persisted) ?a)"
    by blast
  then show ?thesis
    by (intro exI [of _ j'] exI [of _ new]) (simp del: commit_run.simps)
qed

lemma journal_since_eq:
  assumes "journal_inv j" "after \<le> j_next_id j" "j_next_id j < u64_max"
  shows "journal_since after j =
    (if after < j_next_id j - length (j_events j) then ([], True)
     else (filter (\<lambda>e. after < ev_id e) (j_events j), False))"
proof -
  let ?n = "j_next_id j" and ?es = "j_events j"
  have c: "consecutive ?n ?es" using assms(1) by (simp add: journal_inv_def)
  have "retained_from_event_id j = Suc (?n - length ?es)"
  proof (cases ?es)
    case Nil
    then show ?thesis
      using assms(3) by (simp add: retained_from_event_id_def front_def saturating_add_def)
  next
    case (Cons e es)
    then show ?thesis
      using consecutive_nth [OF c, of 0] by (simp add: retained_from_event_id_def front_def)
  qed
  moreover have "saturating_add after (Suc 0) = Suc after"
    using assms(2,3) by (simp add: saturating_add_def)
  ultimately show ?thesis by (simp add: journal_since_def Let_def)
qed

text \<open>\<open>Journal::since\<close> is complete: it reports compaction exactly when some
  event after the cursor is no longer retained, and otherwise returns every event after
  the cursor up to the head, in order.\<close>

theorem journal_since_complete:
  assumes "journal_inv j" "after \<le> j_next_id j" "j_next_id j < u64_max"
  shows "snd (journal_since after j) = (after < j_next_id j - length (j_events j))
    \<and> map ev_id (fst (journal_since after j))
      = (if snd (journal_since after j) then [] else [Suc after..<Suc (j_next_id j)])"
proof -
  let ?n = "j_next_id j" and ?es = "j_events j"
  have c: "consecutive ?n ?es" using assms(1) by (simp add: journal_inv_def)
  have "map ev_id (drop (after - (?n - length ?es)) ?es) = [Suc after..<Suc ?n]"
    if "\<not> after < ?n - length ?es"
  proof -
    have "map ev_id (drop (after - (?n - length ?es)) ?es)
        = drop (after - (?n - length ?es)) [Suc (?n - length ?es)..<Suc ?n]"
      using c by (simp add: consecutive_def drop_map [symmetric] del: upt_Suc)
    then show ?thesis using that by (simp del: upt_Suc)
  qed
  then show ?thesis
    by (simp add: journal_since_eq [OF assms] consecutive_filter_after [OF c])
qed

definition demo_event :: "u64 \<Rightarrow> event" where
  "demo_event i = \<lparr>ev_id = i, ev_unix_ms = 1000 + i, ev_kind = PtyStateAdvanced i\<rparr>"

theorem journal_since_complete_witness:
  "journal_inv (journal_from_loaded [demo_event 5, demo_event 6, demo_event 7] 7 None)
    \<and> journal_since 5 (journal_from_loaded [demo_event 5, demo_event 6, demo_event 7] 7 None)
        = ([demo_event 6, demo_event 7], False)
    \<and> snd (journal_since 3 (journal_from_loaded [demo_event 5, demo_event 6, demo_event 7] 7 None))"
proof -
  let ?j = "journal_from_loaded [demo_event 5, demo_event 6, demo_event 7] 7 None"
  have inv: "journal_inv ?j"
    by (simp add: journal_inv_def journal_from_loaded_def consecutive_def demo_event_def upt_rec)
  have "snd (journal_since 3 ?j)"
    using journal_since_complete [OF inv, of 3]
    by (simp add: journal_from_loaded_def u64_max_def)
  moreover have "journal_since 5 ?j = ([demo_event 6, demo_event 7], False)"
    by (simp add: journal_since_def journal_from_loaded_def retained_from_event_id_def front_def
        demo_event_def saturating_add_def u64_max_def)
  ultimately show ?thesis using inv by simp
qed

text \<open>Claim C39. \<open>enforce_bounds\<close> always terminates on a consistent journal and keeps
  the longest suffix of the retained events that fits both the event and the byte
  limit; nothing is evicted unless keeping it would break a limit.\<close>

theorem enforce_bounds_keeps_longest:
  assumes "journal_inv j"
  shows "\<exists>j' k. enforce_bounds j = Some j' \<and> j_events j' = drop k (j_events j)
    \<and> length (j_events j') \<le> JOURNAL_MAX_EVENTS \<and> j_approx_bytes j' \<le> JOURNAL_MAX_BYTES
    \<and> journal_inv j' \<and> j_next_id j' = j_next_id j
    \<and> (\<forall>i < k. JOURNAL_MAX_EVENTS < length (drop i (j_events j))
             \<or> JOURNAL_MAX_BYTES < total_bytes (drop i (j_events j)))"
proof -
  obtain k where k: "fits (drop k (j_events j))" "\<forall>i < k. \<not> fits (drop i (j_events j))"
      "enforce_bounds j = Some (j\<lparr>j_events := drop k (j_events j),
        j_approx_bytes := total_bytes (drop k (j_events j)),
        j_oldest_event_unix_ms := map_option ev_unix_ms (front (drop k (j_events j)))\<rparr>)"
    using enforce_bounds_exact [OF assms] by blast
  show ?thesis
    using k assms consecutive_drop [of "j_next_id j" "j_events j" k]
    by (auto simp: fits_def journal_inv_def not_le)
qed

theorem enforce_bounds_keeps_longest_witness:
  "journal_inv (journal_from_loaded [demo_event 1, demo_event 2] 2 None)
    \<and> (\<exists>j'. enforce_bounds (journal_from_loaded [demo_event 1, demo_event 2] 2 None) = Some j'
          \<and> journal_inv j' \<and> j_next_id j' = 2)"
proof -
  have inv: "journal_inv (journal_from_loaded [demo_event 1, demo_event 2] 2 None)"
    by (simp add: journal_inv_def journal_from_loaded_def consecutive_def demo_event_def upt_rec)
  show ?thesis
    using enforce_bounds_keeps_longest [OF inv] inv by (auto simp: journal_from_loaded_def)
qed

end
