(* ===== verification/Loaded_Session.thy ===== *)
theory Loaded_Session
  imports Journal
begin

text \<open>
  The materialized state rebuilt at startup (\<open>LoadedSession\<close> in
  \<open>crates/asp-server/src/main.rs\<close>): the per-event update \<open>apply\<close>, \<open>push\<close>, and the
  start from a snapshot.  SHA-256 of a command is the parameter \<open>sha256\<close>.
\<close>

record process_record =
  pr_command :: string
  pr_running :: bool
  pr_exit_code :: "int option"
  pr_exit_unix_ms :: "u64 option"
  pr_pid :: "u32 option"
  pr_pid_start_time :: "u64 option"
  pr_stdout_bytes :: u64
  pr_stderr_bytes :: u64

record process_request =
  pq_command :: string
  pq_command_hash :: "string option"
  pq_process_id :: uuid
  pq_started_event_id :: u64

record file_request =
  fq_request_hash :: string
  fq_path :: string
  fq_version :: u64
  fq_sha256 :: string

record signal_request =
  sq_request_hash :: string
  sq_process_id :: uuid
  sq_signal :: int
  sq_success :: bool
  sq_message :: "string option"

record artifact_request =
  aq_request_hash :: string
  aq_artifact_id :: string
  aq_total_size :: u64
  aq_name :: "string option"
  aq_event_id :: u64

record artifact_record =
  ar_artifact_id :: string
  ar_total_size :: u64
  ar_name :: "string option"
  ar_created_event_id :: u64
  ar_created_unix_ms :: u64

record event_consumer =
  ec_acknowledged_event_id :: u64
  ec_last_seen_unix_ms :: u64

text \<open>The fields that the event stream determines, shared by the loaded and the live
  session.\<close>

record materialized =
  m_processes :: "(uuid, process_record) fmap"
  m_process_requests :: "(uuid, process_request) fmap"
  m_file_versions :: "(string, u64) fmap"
  m_file_requests :: "(uuid, file_request) fmap"
  m_signal_requests :: "(uuid, signal_request) fmap"
  m_artifact_requests :: "(uuid, artifact_request) fmap"
  m_artifacts :: "(string, artifact_record) fmap"
  m_pty_started :: bool
  m_pty_generation :: u64
  m_running_processes :: usize

record loaded_session =
  ls_events :: "event list"
  ls_approx_bytes :: usize
  ls_next_id :: u64
  ls_oldest_event_unix_ms :: "u64 option"
  ls_state :: materialized
  ls_event_consumers :: "(string, event_consumer) fmap"

record session_snapshot_data =
  sd_session_id :: uuid
  sd_through_event_id :: u64
  sd_oldest_event_unix_ms :: "u64 option"
  sd_processes :: "(uuid, process_record) fmap"
  sd_process_requests :: "(uuid, process_request) fmap"
  sd_file_versions :: "(string, u64) fmap"
  sd_file_requests :: "(uuid, file_request) fmap"
  sd_signal_requests :: "(uuid, signal_request) fmap"
  sd_artifact_requests :: "(uuid, artifact_request) fmap"
  sd_artifacts :: "(string, artifact_record) fmap"
  sd_pty_started :: bool
  sd_pty_generation :: u64

definition empty_materialized :: materialized where
  "empty_materialized = \<lparr>m_processes = fmempty, m_process_requests = fmempty,
     m_file_versions = fmempty, m_file_requests = fmempty, m_signal_requests = fmempty,
     m_artifact_requests = fmempty, m_artifacts = fmempty, m_pty_started = False,
     m_pty_generation = 0, m_running_processes = 0\<rparr>"

definition default_loaded :: loaded_session where
  "default_loaded = \<lparr>ls_events = [], ls_approx_bytes = 0, ls_next_id = 0,
     ls_oldest_event_unix_ms = None, ls_state = empty_materialized, ls_event_consumers = fmempty\<rparr>"

section \<open>Applying one event\<close>

definition fresh_process :: "string \<Rightarrow> u32 option \<Rightarrow> process_record" where
  "fresh_process command pid = \<lparr>pr_command = command, pr_running = True, pr_exit_code = None,
     pr_exit_unix_ms = None, pr_pid = pid, pr_pid_start_time = None, pr_stdout_bytes = 0,
     pr_stderr_bytes = 0\<rparr>"

definition add_output :: "output_stream \<Rightarrow> bytes \<Rightarrow> process_record \<Rightarrow> process_record" where
  "add_output stream data r = (case stream of
     Stdout \<Rightarrow> r\<lparr>pr_stdout_bytes := pr_stdout_bytes r + length data\<rparr>
   | Stderr \<Rightarrow> r\<lparr>pr_stderr_bytes := pr_stderr_bytes r + length data\<rparr>)"

definition apply_process_started ::
    "(bytes \<Rightarrow> string) \<Rightarrow> u64 \<Rightarrow> uuid \<Rightarrow> string \<Rightarrow> u32 option \<Rightarrow> uuid option
       \<Rightarrow> materialized \<Rightarrow> materialized" where
  "apply_process_started sha256 event_id process_id command pid request_id s =
     (let s = s\<lparr>m_processes := fmupd process_id (fresh_process command pid) (m_processes s),
                m_running_processes := (if fmcontains process_id (m_processes s)
                   then m_running_processes s else m_running_processes s + 1)\<rparr>
      in case request_id of
           None \<Rightarrow> s
         | Some request_id \<Rightarrow>
             s\<lparr>m_process_requests := fmupd request_id
                 \<lparr>pq_command = command, pq_command_hash = Some (sha256 (as_bytes command)),
                  pq_process_id = process_id, pq_started_event_id = event_id\<rparr>
                 (m_process_requests s)\<rparr>)"

definition apply_process_exited ::
    "u64 \<Rightarrow> uuid \<Rightarrow> int option \<Rightarrow> materialized \<Rightarrow> materialized" where
  "apply_process_exited unix_ms process_id code s =
     (case fmlookup (m_processes s) process_id of
        None \<Rightarrow> s
      | Some r \<Rightarrow>
          s\<lparr>m_processes := fmupd process_id
              (r\<lparr>pr_running := False, pr_exit_code := code, pr_exit_unix_ms := Some unix_ms\<rparr>)
              (m_processes s),
            m_running_processes := (if pr_running r then saturating_sub (m_running_processes s) 1
                                    else m_running_processes s)\<rparr>)"

definition apply_event :: "(bytes \<Rightarrow> string) \<Rightarrow> event \<Rightarrow> materialized \<Rightarrow> materialized" where
  "apply_event sha256 e s = (case ev_kind e of
     ProcessStarted process_id command pid request_id \<Rightarrow>
       apply_process_started sha256 (ev_id e) process_id command pid request_id s
   | ProcessOutput process_id stream offset data \<Rightarrow>
       (case fmlookup (m_processes s) process_id of
          None \<Rightarrow> s
        | Some r \<Rightarrow> s\<lparr>m_processes := fmupd process_id (add_output stream data r) (m_processes s)\<rparr>)
   | ProcessExited process_id code \<Rightarrow> apply_process_exited (ev_unix_ms e) process_id code s
   | FileChanged path version \<Rightarrow>
       s\<lparr>m_file_versions := fmupd path version (m_file_versions s)\<rparr>
   | FileMutation request_id request_hash path version sha \<Rightarrow>
       s\<lparr>m_file_versions := fmupd path version (m_file_versions s),
         m_file_requests := fmupd request_id
           \<lparr>fq_request_hash = request_hash, fq_path = path, fq_version = version, fq_sha256 = sha\<rparr>
           (m_file_requests s)\<rparr>
   | SignalApplied request_id request_hash process_id signal success message \<Rightarrow>
       s\<lparr>m_signal_requests := fmupd request_id
           \<lparr>sq_request_hash = request_hash, sq_process_id = process_id, sq_signal = signal,
            sq_success = success, sq_message = message\<rparr> (m_signal_requests s)\<rparr>
   | ArtifactCreated request_id request_hash artifact_id total_size name \<Rightarrow>
       s\<lparr>m_artifact_requests := fmupd request_id
           \<lparr>aq_request_hash = request_hash, aq_artifact_id = artifact_id,
            aq_total_size = total_size, aq_name = name, aq_event_id = ev_id e\<rparr>
           (m_artifact_requests s),
         m_artifacts := fmupd artifact_id
           \<lparr>ar_artifact_id = artifact_id, ar_total_size = total_size, ar_name = name,
            ar_created_event_id = ev_id e, ar_created_unix_ms = ev_unix_ms e\<rparr>
           (m_artifacts s)\<rparr>
   | ArtifactDeleted artifact_id total_size \<Rightarrow>
       s\<lparr>m_artifacts := fmdrop artifact_id (m_artifacts s),
         m_artifact_requests :=
           fmretain (\<lambda>_ request. aq_artifact_id request \<noteq> artifact_id) (m_artifact_requests s)\<rparr>
   | PtyStarted \<Rightarrow> s\<lparr>m_pty_started := True\<rparr>
   | PtyStateAdvanced generation \<Rightarrow>
       s\<lparr>m_pty_generation := max (m_pty_generation s) generation\<rparr>
   | SessionCreated \<Rightarrow> s)"

section \<open>Pushing one event; starting from a snapshot\<close>

text \<open>As in \<open>Journal\<close>, \<open>None\<close> is an eviction loop that does not end.\<close>

definition loaded_push :: "(bytes \<Rightarrow> string) \<Rightarrow> event \<Rightarrow> loaded_session \<Rightarrow> loaded_session option" where
  "loaded_push sha256 e l =
     (case evict (ls_events l @ [e])
             (saturating_add (ls_approx_bytes l) (event_approx_bytes e)) of
        None \<Rightarrow> None
      | Some (events, approx) \<Rightarrow>
          Some (l\<lparr>ls_next_id := max (ls_next_id l) (ev_id e),
                  ls_state := apply_event sha256 e (ls_state l),
                  ls_events := events, ls_approx_bytes := approx,
                  ls_oldest_event_unix_ms := map_option ev_unix_ms (front events)\<rparr>))"

definition loaded_from_snapshot :: "(bytes \<Rightarrow> string) \<Rightarrow> session_snapshot_data \<Rightarrow> loaded_session" where
  "loaded_from_snapshot sha256 snapshot =
     default_loaded\<lparr>ls_next_id := sd_through_event_id snapshot,
       ls_oldest_event_unix_ms := sd_oldest_event_unix_ms snapshot,
       ls_state := \<lparr>m_processes = sd_processes snapshot,
         m_process_requests = fmmap (\<lambda>request.
            if pq_command_hash request = None
            then request\<lparr>pq_command_hash := Some (sha256 (as_bytes (pq_command request)))\<rparr>
            else request) (sd_process_requests snapshot),
         m_file_versions = sd_file_versions snapshot,
         m_file_requests = sd_file_requests snapshot,
         m_signal_requests = sd_signal_requests snapshot,
         m_artifact_requests = sd_artifact_requests snapshot,
         m_artifacts = sd_artifacts snapshot,
         m_pty_started = sd_pty_started snapshot,
         m_pty_generation = sd_pty_generation snapshot,
         m_running_processes = fmcount pr_running (sd_processes snapshot)\<rparr>\<rparr>"

section \<open>The retained window\<close>

definition loaded_inv :: "loaded_session \<Rightarrow> bool" where
  "loaded_inv l \<longleftrightarrow> consecutive (ls_next_id l) (ls_events l)
     \<and> ls_approx_bytes l = total_bytes (ls_events l) \<and> fits (ls_events l)"

lemma loaded_push_next:
  assumes "loaded_inv l" "ev_id e = Suc (ls_next_id l)" "storable_kind (ev_kind e)"
  shows "\<exists>l'. loaded_push sha256 e l = Some l' \<and> loaded_inv l'
    \<and> ls_next_id l' = Suc (ls_next_id l) \<and> ls_state l' = apply_event sha256 e (ls_state l)
    \<and> (\<exists>k. ls_events l' = drop k (ls_events l @ [e]))
    \<and> ls_event_consumers l' = ls_event_consumers l"
proof -
  have "event_approx_bytes e < 9223372036854775936"
    using assms(3) event_approx_bytes_eq [OF assms(3)] by (simp add: storable_kind_def)
  then have sat: "saturating_add (ls_approx_bytes l) (event_approx_bytes e)
      = total_bytes (ls_events l @ [e])"
    using assms(1) by (simp add: loaded_inv_def fits_def consts_simps saturating_add_def u64_max_def)
  obtain k where k: "evict (ls_events l @ [e]) (total_bytes (ls_events l @ [e]))
      = Some (drop k (ls_events l @ [e]), total_bytes (drop k (ls_events l @ [e])))"
      "fits (drop k (ls_events l @ [e]))"
    using evict_exact by blast
  have "consecutive (Suc (ls_next_id l)) (ls_events l @ [e])"
    using assms(1,2) by (simp add: loaded_inv_def consecutive_snoc)
  then have "consecutive (Suc (ls_next_id l)) (drop k (ls_events l @ [e]))"
    by (rule consecutive_drop)
  then show ?thesis
    using k assms(2) unfolding loaded_push_def sat
    by (auto simp: loaded_inv_def max_def simp del: drop_append)
qed

section \<open>Running processes\<close>

text \<open>An event that starts a process whose id does not name an exited process.\<close>

definition fresh_start :: "event \<Rightarrow> materialized \<Rightarrow> bool" where
  "fresh_start e s \<longleftrightarrow> (case ev_kind e of
     ProcessStarted process_id _ _ _ \<Rightarrow>
       (case fmlookup (m_processes s) process_id of None \<Rightarrow> True | Some r \<Rightarrow> pr_running r)
   | _ \<Rightarrow> True)"

fun fresh_starts :: "(bytes \<Rightarrow> string) \<Rightarrow> event list \<Rightarrow> materialized \<Rightarrow> bool" where
  "fresh_starts sha256 [] s \<longleftrightarrow> True"
| "fresh_starts sha256 (e # es) s \<longleftrightarrow>
     fresh_start e s \<and> fresh_starts sha256 es (apply_event sha256 e s)"

definition running_count :: "materialized \<Rightarrow> nat" where
  "running_count s = fmcount pr_running (m_processes s)"

lemma running_count_started:
  "running_count (apply_process_started sha256 i p c pid r s) =
     (case fmlookup (m_processes s) p of
        Some rec \<Rightarrow> if pr_running rec then running_count s else Suc (running_count s)
      | None \<Rightarrow> Suc (running_count s))"
  using fmcount_pos [of "m_processes s" p _ pr_running]
  by (auto simp: running_count_def apply_process_started_def Let_def fmcount_upd fmcount_drop
      fresh_process_def split: option.splits)

lemma running_processes_started:
  "m_running_processes (apply_process_started sha256 i p c pid r s) =
     (case fmlookup (m_processes s) p of
        Some rec \<Rightarrow> m_running_processes s | None \<Rightarrow> Suc (m_running_processes s))"
  by (auto simp: apply_process_started_def Let_def fmcontains_def split: option.splits)

lemma running_count_exited:
  "running_count (apply_process_exited t p c s) =
     (case fmlookup (m_processes s) p of
        Some rec \<Rightarrow> if pr_running rec then running_count s - 1 else running_count s
      | None \<Rightarrow> running_count s)"
  by (auto simp: running_count_def apply_process_exited_def fmcount_upd fmcount_drop
      split: option.splits)

lemma running_processes_exited:
  "m_running_processes (apply_process_exited t p c s) =
     (case fmlookup (m_processes s) p of
        Some rec \<Rightarrow> if pr_running rec then m_running_processes s - 1 else m_running_processes s
      | None \<Rightarrow> m_running_processes s)"
  by (auto simp: apply_process_exited_def split: option.splits)

lemma running_count_output:
  assumes "fmlookup (m_processes s) p = Some r"
  shows "fmcount pr_running (fmupd p (add_output stream data r) (m_processes s)) = running_count s"
  using assms fmcount_pos [of "m_processes s" p r pr_running]
  by (auto simp: running_count_def fmcount_upd fmcount_drop add_output_def
      split: output_stream.splits)

lemma running_exact_step:
  assumes "fresh_start e s" "m_running_processes s = running_count s"
  shows "m_running_processes (apply_event sha256 e s) = running_count (apply_event sha256 e s)"
proof (cases "ev_kind e")
  case (ProcessStarted p c pid r)
  then show ?thesis using assms
    by (auto simp: apply_event_def running_count_started running_processes_started
        fresh_start_def split: option.splits)
next
  case (ProcessExited p c)
  then show ?thesis using assms
    by (auto simp: apply_event_def running_count_exited running_processes_exited
        split: option.splits)
next
  case (ProcessOutput p stream off data)
  then show ?thesis using assms running_count_output
    by (auto simp: apply_event_def running_count_def split: option.splits)
qed (use assms in \<open>simp_all add: apply_event_def running_count_def\<close>)

section \<open>Artifacts\<close>

definition creates_artifact :: "string \<Rightarrow> event \<Rightarrow> bool" where
  "creates_artifact a e = (case ev_kind e of ArtifactCreated _ _ i _ _ \<Rightarrow> i = a | _ \<Rightarrow> False)"

definition artifact_absent :: "string \<Rightarrow> materialized \<Rightarrow> bool" where
  "artifact_absent a s \<longleftrightarrow> fmlookup (m_artifacts s) a = None
     \<and> (\<forall>r q. fmlookup (m_artifact_requests s) r = Some q \<longrightarrow> aq_artifact_id q \<noteq> a)"

lemma artifact_absent_step:
  assumes "artifact_absent a s" "\<not> creates_artifact a e"
  shows "artifact_absent a (apply_event sha256 e s)"
  using assms
  by (cases "ev_kind e")
     (auto simp: artifact_absent_def apply_event_def creates_artifact_def
        apply_process_started_def apply_process_exited_def Let_def split: option.splits)

lemma artifact_deleted_absent:
  "ev_kind e = ArtifactDeleted a n \<Longrightarrow> artifact_absent a (apply_event sha256 e s)"
  by (auto simp: artifact_absent_def apply_event_def split: option.splits if_splits)

section \<open>Properties\<close>

text \<open>Replaying any event sequence in which no exited process id is started
  again keeps the running-process counter equal to the number of process records that
  are still running, from any state in which they agree.\<close>

theorem replay_running_count_exact:
  assumes "m_running_processes s = running_count s" "fresh_starts sha256 es s"
  shows "m_running_processes (fold (apply_event sha256) es s)
    = fmcount pr_running (m_processes (fold (apply_event sha256) es s))"
  using assms
proof (induction es arbitrary: s)
  case (Cons e es)
  then show ?case using running_exact_step by simp
qed (simp add: running_count_def)

definition demo_run :: "event list" where
  "demo_run = [\<lparr>ev_id = 1, ev_unix_ms = 10, ev_kind = ProcessStarted 7 ''ls'' (Some 42) (Some 3)\<rparr>,
     \<lparr>ev_id = 2, ev_unix_ms = 11, ev_kind = ProcessOutput 7 Stdout 0 [1, 2, 3]\<rparr>,
     \<lparr>ev_id = 3, ev_unix_ms = 12, ev_kind = ProcessStarted 8 ''make'' None None\<rparr>,
     \<lparr>ev_id = 4, ev_unix_ms = 13, ev_kind = ProcessExited 7 (Some 0)\<rparr>]"

theorem replay_running_count_exact_witness:
  "m_running_processes empty_materialized = running_count empty_materialized
    \<and> fresh_starts (\<lambda>_. []) demo_run empty_materialized
    \<and> fmcount pr_running (m_processes (fold (apply_event (\<lambda>_. [])) demo_run empty_materialized)) = 1"
proof -
  have a: "m_running_processes empty_materialized = running_count empty_materialized"
    by (simp add: empty_materialized_def running_count_def)
  have f: "fresh_starts (\<lambda>_. []) demo_run empty_materialized"
    by (simp add: demo_run_def fresh_start_def apply_event_def empty_materialized_def
        apply_process_started_def Let_def)
  have "m_running_processes (fold (apply_event (\<lambda>_. [])) demo_run empty_materialized) = 1"
    by (simp add: demo_run_def apply_event_def empty_materialized_def apply_process_started_def
        apply_process_exited_def Let_def add_output_def fresh_process_def)
  then show ?thesis
    using replay_running_count_exact [OF a f] a f by simp
qed

text \<open>Claim C40. A replayed artifact tombstone is final: after an \<open>ArtifactDeleted\<close>
  event, no later sequence of events without a new \<open>ArtifactCreated\<close> for the same id
  brings back its record or any idempotency entry that refers to it.\<close>

theorem replay_artifact_tombstone_final:
  assumes "ev_kind e = ArtifactDeleted a n" "\<forall>f \<in> set later. \<not> creates_artifact a f"
  shows "fmlookup (m_artifacts (fold (apply_event sha256) (before @ e # later) s)) a = None
    \<and> (\<forall>r q. fmlookup (m_artifact_requests
          (fold (apply_event sha256) (before @ e # later) s)) r = Some q \<longrightarrow> aq_artifact_id q \<noteq> a)"
proof -
  have "artifact_absent a (fold (apply_event sha256) later t)"
    if "artifact_absent a t" "\<forall>f \<in> set later. \<not> creates_artifact a f" for later t
    using that by (induction later arbitrary: t) (auto intro: artifact_absent_step)
  then have "artifact_absent a (fold (apply_event sha256) (before @ e # later) s)"
    using assms artifact_deleted_absent by simp
  then show ?thesis by (simp add: artifact_absent_def)
qed

theorem replay_artifact_tombstone_final_witness:
  "fmlookup (m_artifacts (fold (apply_event (\<lambda>_. []))
      ([\<lparr>ev_id = 1, ev_unix_ms = 5, ev_kind = ArtifactCreated 9 ''h'' ''ab'' 10 None\<rparr>]
        @ \<lparr>ev_id = 2, ev_unix_ms = 6, ev_kind = ArtifactDeleted ''ab'' 10\<rparr>
        # [\<lparr>ev_id = 3, ev_unix_ms = 7, ev_kind = PtyStarted\<rparr>]) empty_materialized)) ''ab'' = None"
  using replay_artifact_tombstone_final
    [of "\<lparr>ev_id = 2, ev_unix_ms = 6, ev_kind = ArtifactDeleted ''ab'' 10\<rparr>" "''ab''" 10
      "[\<lparr>ev_id = 3, ev_unix_ms = 7, ev_kind = PtyStarted\<rparr>]" "\<lambda>_. []"
      "[\<lparr>ev_id = 1, ev_unix_ms = 5, ev_kind = ArtifactCreated 9 ''h'' ''ab'' 10 None\<rparr>]"
      empty_materialized]
  by (simp add: creates_artifact_def)

end
