(* ===== verification/Event_Log.thy ===== *)
theory Event_Log
  imports Loaded_Session Frame_Codec
begin

text \<open>
  The write-ahead event log (\<open>SessionDisk\<close>, \<open>load_event_log\<close> in
  \<open>crates/asp-server/src/main.rs\<close>) down to the bytes of its files: framing with
  length, CRC-32 and Postcard payload, appending with segment rotation, the startup
  scan with its corruption checks and torn-tail recovery, compaction, and bounded
  replay.  Postcard, CRC-32 and SHA-256 are parameters.  A file is its byte content;
  the outcome of the write and sync system calls is an argument, and a failed write
  restores the previous length as the code does.  Symlink and permission checks are
  not modelled.
\<close>

datatype log_error =
    TruncatedLogHeader
  | UnsupportedLogFormat
  | UnsupportedLogVersion u16
  | TruncatedFrame
  | LogFrameTooLong
  | TruncatedChecksum
  | TruncatedPayload
  | ChecksumMismatch
  | PayloadUndecodable
  | EventIdZero
  | EventIdsNotIncreasing
  | StaleEvent
  | EventIdGap
  | LogSegmentTooLarge
  | EventNotSerializable
  | EventExceedsFrameLimit
  | EventStorageLimit
  | LogWriteFailed
  | LogSyncFailed

record log_codec =
  lc_crc :: "bytes \<Rightarrow> nat"
  lc_ser :: "event \<Rightarrow> bytes option"
  lc_de :: "bytes \<Rightarrow> event option"
  lc_sha256 :: "bytes \<Rightarrow> string"

text \<open>CRC-32 is a 32-bit value, Postcard decodes what it encoded, and no stored event
  is larger than a protocol frame or than the address space.\<close>

definition log_lawful :: "log_codec \<Rightarrow> bool" where
  "log_lawful k \<longleftrightarrow> (\<forall>b. lc_crc k b \<le> u32_max) \<and> postcard_law (lc_ser k) (lc_de k)
     \<and> (\<forall>e b. lc_ser k e = Some b \<longrightarrow> length b \<le> MAX_FRAME_BYTES \<and> storable_kind (ev_kind e))"

definition EVENT_LOG_MAGIC :: bytes where [consts_simps]:
  "EVENT_LOG_MAGIC = [0x41, 0x53, 0x50, 0x4C, 0x4F, 0x47, 0]"

definition EVENT_LOG_VERSION :: u16 where [consts_simps]:
  "EVENT_LOG_VERSION = 2"

definition EVENT_LOG_LEGACY_VERSION :: u16 where [consts_simps]:
  "EVENT_LOG_LEGACY_VERSION = 1"

definition EVENT_LOG_MAX_BYTES :: u64 where [consts_simps]:
  "EVENT_LOG_MAX_BYTES = 4294967296"

definition EVENT_SEGMENT_MAX_BYTES :: u64 where [consts_simps]:
  "EVENT_SEGMENT_MAX_BYTES = 67108864"

definition EVENT_SYNC_BYTES :: u64 where [consts_simps]:
  "EVENT_SYNC_BYTES = 262144"

definition log_header :: "u16 \<Rightarrow> bytes" where
  "log_header version = EVENT_LOG_MAGIC @ be_bytes 2 version"

section \<open>One frame\<close>

definition log_frame :: "log_codec \<Rightarrow> bool \<Rightarrow> bytes \<Rightarrow> bytes" where
  "log_frame k checksummed payload =
     be_bytes 4 (length payload)
       @ (if checksummed then be_bytes 4 (lc_crc k payload) else []) @ payload"

definition write_log_frame :: "log_codec \<times> bool \<Rightarrow> bytes \<Rightarrow> event \<Rightarrow> log_error + bytes" where
  "write_log_frame = (\<lambda>(k, checksummed) file e.
     and_then (ok_or EventNotSerializable (lc_ser k e)) (\<lambda>payload.
       if u32_max < length payload then Inl EventExceedsFrameLimit
       else Inr (file @ log_frame k checksummed payload)))"

text \<open>One iteration of the scan loop up to the decoded event.  \<open>create\<close> marks the
  active log, whose torn tail is tolerated.\<close>

definition read_log_frame ::
    "log_codec \<Rightarrow> bool \<Rightarrow> bool \<Rightarrow> bytes \<Rightarrow> log_error + (event option \<times> bytes)" where
  "read_log_frame k create checksummed input =
     (if length input < 4 then
        (if \<not> create \<and> input \<noteq> [] then Inl TruncatedFrame else Inr (None, []))
      else
      let len = be_nat (take 4 input); rest = drop 4 input in
      if MAX_FRAME_BYTES < len then Inl LogFrameTooLong
      else if checksummed \<and> length rest < 4 then
        (if \<not> create then Inl TruncatedChecksum else Inr (None, []))
      else
      let expected_crc = (if checksummed then Some (be_nat (take 4 rest)) else None);
          rest = (if checksummed then drop 4 rest else rest) in
      if length rest < len then
        (if \<not> create then Inl TruncatedPayload else Inr (None, []))
      else
      let payload = take len rest in
      if (case expected_crc of Some expected \<Rightarrow> lc_crc k payload \<noteq> expected | None \<Rightarrow> False)
      then Inl ChecksumMismatch
      else case lc_de k payload of
             None \<Rightarrow> Inl PayloadUndecodable
           | Some e \<Rightarrow> Inr (Some e, drop len rest))"

lemma read_log_frame_shrinks:
  "read_log_frame k create checksummed input = Inr (Some e, rest) \<Longrightarrow> length rest < length input"
  by (auto simp: read_log_frame_def Let_def split: if_splits option.splits)

section \<open>Scanning a file\<close>

record scan =
  sc_loaded :: loaded_session
  sc_last_event_id :: u64
  sc_raw_last_event_id :: "u64 option"
  sc_first_event_id :: "u64 option"
  sc_offset :: nat
  sc_collected :: "replay_buffer option"
  sc_limited :: bool

definition materialize_event ::
    "log_codec \<Rightarrow> bool \<Rightarrow> event \<Rightarrow> scan \<Rightarrow> scan option" where
  "materialize_event k materialize e st =
     (if materialize then
        map_option (\<lambda>l. st\<lparr>sc_loaded := l, sc_last_event_id := ls_next_id l\<rparr>)
          (loaded_push (lc_sha256 k) e (sc_loaded st))
      else Some (st\<lparr>sc_loaded := (sc_loaded st)\<lparr>ls_next_id := ev_id e\<rparr>,
                    sc_last_event_id := ev_id e\<rparr>))"

text \<open>The checks on a decoded event, in order, and what is done with it.  The flag
  reports that the replay buffer is full; \<open>None\<close> is an eviction loop that does not end.\<close>

definition accept_event ::
    "log_codec \<Rightarrow> bool \<Rightarrow> u64 \<Rightarrow> event \<Rightarrow> scan \<Rightarrow> (log_error + (scan \<times> bool)) option" where
  "accept_event k materialize snapshot_boundary e st =
     (if ev_id e = 0 then Some (Inl EventIdZero)
      else if (case sc_raw_last_event_id st of Some previous \<Rightarrow> ev_id e \<le> previous | None \<Rightarrow> False)
      then Some (Inl EventIdsNotIncreasing)
      else
      let st = st\<lparr>sc_raw_last_event_id := Some (ev_id e)\<rparr> in
      if ev_id e \<le> snapshot_boundary \<and> snapshot_boundary < sc_last_event_id st
      then Some (Inl StaleEvent)
      else if snapshot_boundary < ev_id e \<and> ev_id e \<noteq> saturating_add (sc_last_event_id st) 1
      then Some (Inl EventIdGap)
      else
      let st = st\<lparr>sc_first_event_id := Some (case sc_first_event_id st of
                   None \<Rightarrow> ev_id e | Some first \<Rightarrow> first)\<rparr> in
      if ls_next_id (sc_loaded st) < ev_id e then
        (case sc_collected st of
           None \<Rightarrow> map_option (\<lambda>st. Inr (st, False)) (materialize_event k materialize e st)
         | Some buffer \<Rightarrow>
             let (buffer, more) = replay_push e buffer; st = st\<lparr>sc_collected := Some buffer\<rparr>
             in if more then map_option (\<lambda>st. Inr (st, False)) (materialize_event k materialize e st)
                else Some (Inr (st, True)))
      else Some (Inr (st, False)))"

function scan_frames ::
    "log_codec \<Rightarrow> bool \<Rightarrow> bool \<Rightarrow> bool \<Rightarrow> u64 \<Rightarrow> scan \<Rightarrow> bytes \<Rightarrow> (log_error + scan) option" where
  "scan_frames k create checksummed materialize snapshot_boundary st input =
     (case read_log_frame k create checksummed input of
        Inl e \<Rightarrow> Some (Inl e)
      | Inr (None, _) \<Rightarrow> Some (Inr st)
      | Inr (Some e, rest) \<Rightarrow>
          (case accept_event k materialize snapshot_boundary e st of
             None \<Rightarrow> None
           | Some (Inl err) \<Rightarrow> Some (Inl err)
           | Some (Inr (st', limited)) \<Rightarrow>
               if limited then Some (Inr (st'\<lparr>sc_limited := True\<rparr>))
               else scan_frames k create checksummed materialize snapshot_boundary
                      (st'\<lparr>sc_offset := sc_offset st' + (length input - length rest)\<rparr>) rest))"
  by pat_completeness auto
termination
  by (relation "measure (\<lambda>(k, create, checksummed, materialize, snapshot_boundary, st, input). length input)")
     (auto dest: read_log_frame_shrinks)

declare scan_frames.simps [simp del]

text \<open>\<open>load_event_log\<close>: the content of the file after loading, whether it is checksummed,
  the first event id, and the scan state handed to the next file.\<close>

record event_file =
  ef_bytes :: bytes
  ef_checksummed :: bool
  ef_first_event_id :: "u64 option"
  ef_dirty_bytes :: u64

definition load_header :: "bool \<Rightarrow> bytes \<Rightarrow> log_error + (bytes \<times> bool)" where
  "load_header create file =
     (let file = (if file = [] then log_header EVENT_LOG_VERSION else file) in
      if length file < 9 \<and> \<not> create then Inl TruncatedLogHeader
      else
      let file = (if length file < 9 then log_header EVENT_LOG_VERSION else file) in
      if take 7 file \<noteq> EVENT_LOG_MAGIC then Inl UnsupportedLogFormat
      else
      let version = be_nat (slice 7 9 file) in
      if version = EVENT_LOG_LEGACY_VERSION then Inr (file, False)
      else if version = EVENT_LOG_VERSION then Inr (file, True)
      else Inl (UnsupportedLogVersion version))"

definition load_event_log ::
    "log_codec \<Rightarrow> bool \<Rightarrow> bool \<Rightarrow> u64 \<Rightarrow> scan \<Rightarrow> bytes \<Rightarrow> (log_error + (event_file \<times> scan)) option" where
  "load_event_log k create materialize snapshot_boundary st file =
     (case load_header create file of
        Inl e \<Rightarrow> Some (Inl e)
      | Inr (file, checksummed) \<Rightarrow>
          (case scan_frames k create checksummed materialize snapshot_boundary
                  (st\<lparr>sc_offset := 9, sc_raw_last_event_id := None, sc_first_event_id := None,
                      sc_limited := False\<rparr>) (drop 9 file) of
             None \<Rightarrow> None
           | Some (Inl e) \<Rightarrow> Some (Inl e)
           | Some (Inr st) \<Rightarrow>
               let file = (if sc_limited st then file else take (sc_offset st) file)
               in if EVENT_LOG_MAX_BYTES < length file then Some (Inl LogSegmentTooLarge)
                  else Some (Inr (\<lparr>ef_bytes = file, ef_checksummed = checksummed,
                         ef_first_event_id = sc_first_event_id st, ef_dirty_bytes = 0\<rparr>, st))))"

section \<open>The session directory\<close>

text \<open>A rotated segment is its first event id (the zero-padded number in its file name,
  by which the files are sorted) and its content.\<close>

record session_disk =
  dk_active :: event_file
  dk_segments :: "(u64 \<times> bytes) list"
  dk_snapshot_boundary :: u64
  dk_total_bytes :: u64

text \<open>The outcome of the system calls of one append, and whether the sync interval has
  elapsed.\<close>

record append_io =
  io_write_ok :: bool
  io_sync_ok :: bool
  io_sync_due :: bool

definition total_len :: "session_disk \<Rightarrow> u64" where
  "total_len d = saturating_add (length (ef_bytes (dk_active d)))
     (fold (\<lambda>(_, content) total. saturating_add total (length content)) (dk_segments d) 0)"

definition rotate_locked :: "u64 \<Rightarrow> session_disk \<Rightarrow> session_disk" where
  "rotate_locked next_event_id d =
     (let first = (case ef_first_event_id (dk_active d) of None \<Rightarrow> next_event_id | Some i \<Rightarrow> i)
      in d\<lparr>dk_segments := dk_segments d @ [(first, ef_bytes (dk_active d))],
           dk_active := \<lparr>ef_bytes = log_header EVENT_LOG_VERSION, ef_checksummed = True,
             ef_first_event_id = None, ef_dirty_bytes = 0\<rparr>\<rparr>)"

definition event_force_sync :: "event_kind \<Rightarrow> bool" where
  "event_force_sync kind = (case kind of
     ProcessOutput _ _ _ _ \<Rightarrow> False | PtyStateAdvanced _ \<Rightarrow> False | _ \<Rightarrow> True)"

definition write_active ::
    "log_codec \<Rightarrow> append_io \<Rightarrow> event \<Rightarrow> bytes \<Rightarrow> u64 \<Rightarrow> session_disk
       \<Rightarrow> session_disk \<times> (log_error + unit)" where
  "write_active k io e payload frame_bytes d =
     (let active = dk_active d in
      if \<not> io_write_ok io then
        (d\<lparr>dk_active := active\<lparr>ef_dirty_bytes := 0\<rparr>\<rparr>, Inl LogWriteFailed)
      else
      let dirty = saturating_add (ef_dirty_bytes active) frame_bytes;
          first = Some (case ef_first_event_id active of None \<Rightarrow> ev_id e | Some i \<Rightarrow> i);
          written = ef_bytes active @ log_frame k (ef_checksummed active) payload;
          sync = event_force_sync (ev_kind e) \<or> EVENT_SYNC_BYTES \<le> dirty \<or> io_sync_due io
      in if sync \<and> \<not> io_sync_ok io then
           (d\<lparr>dk_active := active\<lparr>ef_first_event_id := first, ef_dirty_bytes := 0\<rparr>\<rparr>,
            Inl LogSyncFailed)
         else
           (d\<lparr>dk_active := active\<lparr>ef_bytes := written, ef_first_event_id := first,
                ef_dirty_bytes := (if sync then 0 else dirty)\<rparr>,
              dk_total_bytes := dk_total_bytes d + frame_bytes\<rparr>, Inr ()))"

definition disk_append ::
    "log_codec \<Rightarrow> append_io \<Rightarrow> event \<Rightarrow> session_disk \<Rightarrow> session_disk \<times> (log_error + unit)" where
  "disk_append k io e d =
     (case lc_ser k e of
        None \<Rightarrow> (d, Inl EventNotSerializable)
      | Some payload \<Rightarrow>
      if u32_max < length payload then (d, Inl EventExceedsFrameLimit)
      else
      let start = length (ef_bytes (dk_active d));
          checksum_bytes = (if ef_checksummed (dk_active d) then 4 else 0);
          frame_bytes = saturating_add (saturating_add 4 checksum_bytes) (length payload);
          d = (if 9 < start \<and> EVENT_SEGMENT_MAX_BYTES < saturating_add start frame_bytes
               then let d = rotate_locked (ev_id e) d in d\<lparr>dk_total_bytes := total_len d\<rparr>
               else d)
      in if EVENT_LOG_MAX_BYTES < saturating_add (dk_total_bytes d) frame_bytes
         then (d, Inl EventStorageLimit)
         else write_active k io e payload frame_bytes d)"

definition disk_compact :: "u64 \<Rightarrow> session_disk \<Rightarrow> session_disk" where
  "disk_compact through_event_id d =
     (let d = d\<lparr>dk_active := \<lparr>ef_bytes = log_header EVENT_LOG_VERSION, ef_checksummed = True,
                 ef_first_event_id = None, ef_dirty_bytes = 0\<rparr>,
               dk_segments := [], dk_snapshot_boundary := through_event_id\<rparr>
      in d\<lparr>dk_total_bytes := total_len d\<rparr>)"

fun load_segments ::
    "log_codec \<Rightarrow> bool \<Rightarrow> u64 \<Rightarrow> scan \<Rightarrow> (u64 \<times> bytes) list \<Rightarrow> (log_error + scan) option" where
  "load_segments k materialize snapshot_boundary st [] = Some (Inr st)"
| "load_segments k materialize snapshot_boundary st ((first, content) # segments) =
     (case load_event_log k False materialize snapshot_boundary st content of
        None \<Rightarrow> None
      | Some (Inl e) \<Rightarrow> Some (Inl e)
      | Some (Inr (_, st)) \<Rightarrow>
          if sc_limited st then Some (Inr st)
          else load_segments k materialize snapshot_boundary st segments)"

definition start_scan :: "loaded_session \<Rightarrow> replay_buffer option \<Rightarrow> scan" where
  "start_scan loaded collected = \<lparr>sc_loaded = loaded, sc_last_event_id = ls_next_id loaded,
     sc_raw_last_event_id = None, sc_first_event_id = None, sc_offset = 0,
     sc_collected = collected, sc_limited = False\<rparr>"

text \<open>\<open>SessionDisk::open\<close> after the snapshot has been read: every segment in order of its
  name, then the active log.\<close>

definition disk_open ::
    "log_codec \<Rightarrow> session_snapshot_data option \<Rightarrow> (u64 \<times> bytes) list \<Rightarrow> bytes
       \<Rightarrow> (log_error + (session_disk \<times> loaded_session)) option" where
  "disk_open k snapshot segments active =
     (let loaded = (case snapshot of None \<Rightarrow> default_loaded
                    | Some snapshot \<Rightarrow> loaded_from_snapshot (lc_sha256 k) snapshot);
          snapshot_boundary = ls_next_id loaded;
          segments = sort_key fst segments
      in case load_segments k True snapshot_boundary (start_scan loaded None) segments of
           None \<Rightarrow> None
         | Some (Inl e) \<Rightarrow> Some (Inl e)
         | Some (Inr st) \<Rightarrow>
             (case load_event_log k True True snapshot_boundary st active of
                None \<Rightarrow> None
              | Some (Inl e) \<Rightarrow> Some (Inl e)
              | Some (Inr (file, st)) \<Rightarrow>
                  let d = \<lparr>dk_active = file, dk_segments = segments,
                           dk_snapshot_boundary = snapshot_boundary, dk_total_bytes = 0\<rparr>
                  in Some (Inr (d\<lparr>dk_total_bytes := total_len d\<rparr>, sc_loaded st))))"

definition read_events_since ::
    "log_codec \<Rightarrow> u64 \<Rightarrow> session_disk \<Rightarrow> (log_error + event list option) option" where
  "read_events_since k after_event_id d =
     (let snapshot_boundary = dk_snapshot_boundary d in
      if after_event_id < snapshot_boundary then Some (Inr (Some []))
      else
      let st = start_scan (default_loaded\<lparr>ls_next_id := snapshot_boundary\<rparr>)
                 (Some (replay_new after_event_id))
      in case load_segments k False snapshot_boundary st (dk_segments d) of
           None \<Rightarrow> None
         | Some (Inl e) \<Rightarrow> Some (Inl e)
         | Some (Inr st) \<Rightarrow>
             if sc_limited st then Some (Inr None)
             else
             (case load_event_log k False False snapshot_boundary st
                     (ef_bytes (dk_active d)) of
                None \<Rightarrow> None
              | Some (Inl e) \<Rightarrow> Some (Inl e)
              | Some (Inr (_, st)) \<Rightarrow>
                  if sc_limited st then Some (Inr None)
                  else Some (Inr (map_option rb_events (sc_collected st)))))"

section \<open>Frames are read back\<close>

lemma log_lawfulD:
  assumes "log_lawful k" "lc_ser k e = Some payload"
  shows "lc_de k payload = Some e" "length payload \<le> MAX_FRAME_BYTES" "storable_kind (ev_kind e)"
    "lc_crc k b < 4294967296" "length payload < 4294967296"
proof -
  show "lc_de k payload = Some e" "length payload \<le> MAX_FRAME_BYTES" "storable_kind (ev_kind e)"
    using assms by (auto simp: log_lawful_def postcard_law_def)
  then show "length payload < 4294967296" by (simp add: consts_simps)
  have "lc_crc k b \<le> u32_max" using assms by (simp add: log_lawful_def)
  then show "lc_crc k b < 4294967296" by (simp add: u32_max_def)
qed

lemma read_log_frame_written:
  assumes "log_lawful k" "lc_ser k e = Some payload"
  shows "read_log_frame k create checksummed (log_frame k checksummed payload @ rest)
    = Inr (Some e, rest)"
  using log_lawfulD [OF assms] be_nat_be_bytes [of "length payload" 4]
    be_nat_be_bytes [of "lc_crc k payload" 4]
  by (simp add: read_log_frame_def log_frame_def Let_def)

lemma read_log_frame_cut:
  assumes "log_lawful k" "lc_ser k e = Some payload"
    and "0 < n" "n < length (log_frame k checksummed payload)"
  shows "read_log_frame k create checksummed (take n (log_frame k checksummed payload)) =
    (if create then Inr (None, [])
     else Inl (if n < 4 then TruncatedFrame
               else if checksummed \<and> n < 8 then TruncatedChecksum else TruncatedPayload))"
proof (cases "n < 4")
  case True
  then show ?thesis using assms(3) by (simp add: read_log_frame_def log_frame_def)
next
  case False
  let ?c = "if checksummed then be_bytes 4 (lc_crc k payload) else []"
  let ?in = "take n (log_frame k checksummed payload)"
  have len: "be_nat (be_bytes 4 (length payload)) = length payload"
    "length payload \<le> MAX_FRAME_BYTES"
    using log_lawfulD [OF assms(1,2)] by simp_all
  have parts: "take 4 ?in = be_bytes 4 (length payload)" "drop 4 ?in = take (n - 4) (?c @ payload)"
    using False by (simp_all add: log_frame_def)
  have n: "length ?in = n" "4 \<le> n" "n < 4 + length ?c + length payload"
    using False assms(4) by (simp_all add: log_frame_def)
  show ?thesis
    unfolding read_log_frame_def Let_def parts len(1) n(1)
    using False len(2) n by (auto simp: not_less)
qed

lemma log_frame_nonempty: "log_frame k checksummed payload \<noteq> []"
  by (auto simp: log_frame_def simp flip: length_greater_0_conv)

lemma read_log_frame_Nil [simp]: "read_log_frame k create checksummed [] = Inr (None, [])"
  by (simp add: read_log_frame_def)

interpretation log_stream: framed_stream "\<lambda>(k, checksummed). log_lawful k" write_log_frame
    "\<lambda>(k, checksummed). read_log_frame k False checksummed"
proof
  fix c :: "log_codec \<times> bool" and s m s'
  obtain k checksummed where c: "c = (k, checksummed)" by force
  assume "case c of (k, checksummed) \<Rightarrow> log_lawful k" "write_log_frame c s m = Inr s'"
  then obtain payload where w: "log_lawful k" "lc_ser k m = Some payload"
      "s' = s @ log_frame k checksummed payload"
    by (auto simp: c write_log_frame_def split: if_splits)
  show "\<exists>w. s' = s @ w \<and> w \<noteq> []
      \<and> (\<forall>rest. (case c of (k, checksummed) \<Rightarrow> read_log_frame k False checksummed) (w @ rest)
           = Inr (Some m, rest))
      \<and> (\<forall>n. 0 < n \<and> n < length w \<longrightarrow>
           (\<exists>e. (case c of (k, checksummed) \<Rightarrow> read_log_frame k False checksummed) (take n w) = Inl e))"
    using w(3) read_log_frame_written [OF w(1,2)] read_log_frame_cut [OF w(1,2)]
    by (intro exI [of _ "log_frame k checksummed payload"]) (auto simp: c log_frame_nonempty)
qed (auto)

section \<open>Files that hold a list of events\<close>

definition serializable :: "log_codec \<Rightarrow> event list \<Rightarrow> bool" where
  "serializable k es \<longleftrightarrow> (\<forall>e \<in> set es. lc_ser k e \<noteq> None)"

definition frames_of :: "log_codec \<Rightarrow> bool \<Rightarrow> event list \<Rightarrow> bytes" where
  "frames_of k checksummed es = concat (map (\<lambda>e. log_frame k checksummed (the (lc_ser k e))) es)"

lemma frames_of_simps [simp]:
  "frames_of k c [] = []"
  "frames_of k c (e # es) = log_frame k c (the (lc_ser k e)) @ frames_of k c es"
  "frames_of k c (es @ fs) = frames_of k c es @ frames_of k c fs"
  by (simp_all add: frames_of_def)

lemma serializable_simps [simp]:
  "serializable k []"
  "serializable k (e # es) \<longleftrightarrow> (\<exists>b. lc_ser k e = Some b) \<and> serializable k es"
  "serializable k (es @ fs) \<longleftrightarrow> serializable k es \<and> serializable k fs"
  by (auto simp: serializable_def)

text \<open>A byte string cut at any point inside a sequence of frames holds the complete
  frames of a prefix and a tail on which the reader of the active log stops.\<close>

definition clean_end :: "log_codec \<Rightarrow> bool \<Rightarrow> bool \<Rightarrow> bytes \<Rightarrow> bool" where
  "clean_end k create checksummed tail \<longleftrightarrow>
     (\<exists>rest. read_log_frame k create checksummed tail = Inr (None, rest))"

lemma clean_end_Nil [simp]: "clean_end k create checksummed []"
  by (simp add: clean_end_def)

lemma cut_frames:
  assumes "log_lawful k" "serializable k es"
  shows "\<exists>m tail. take n (frames_of k c es) = frames_of k c (take m es) @ tail
    \<and> clean_end k True c tail \<and> m \<le> length es
    \<and> (length (frames_of k c es) \<le> n \<longrightarrow> m = length es \<and> tail = [])"
  using assms(2)
proof (induction es arbitrary: n)
  case (Cons e es)
  then obtain b where b: "lc_ser k e = Some b" by auto
  let ?f = "log_frame k c b"
  show ?case
  proof (cases "n < length ?f")
    case True
    have "clean_end k True c (take n ?f)"
      using read_log_frame_cut [OF assms(1) b _ True, of True]
      by (cases "n = 0") (auto simp: clean_end_def)
    with True show ?thesis
      by (intro exI [of _ 0] exI [of _ "take n ?f"]) (auto simp: b)
  next
    case False
    obtain m tail where m: "take (n - length ?f) (frames_of k c es) = frames_of k c (take m es) @ tail"
        "clean_end k True c tail" "m \<le> length es"
        "length (frames_of k c es) \<le> n - length ?f \<longrightarrow> m = length es \<and> tail = []"
      using Cons.IH [of "n - length ?f"] Cons.prems by fastforce
    then show ?thesis
      using False by (intro exI [of _ "Suc m"] exI [of _ tail]) (auto simp: b)
  qed
qed simp

section \<open>Scanning the frames\<close>

lemma scan_end:
  "clean_end k create c tail \<Longrightarrow> scan_frames k create c materialize b st tail = Some (Inr st)"
  by (auto simp: clean_end_def scan_frames.simps)

lemma scan_step:
  assumes "log_lawful k" "lc_ser k e = Some payload"
    and "accept_event k materialize b e st = Some (Inr (st', False))"
  shows "scan_frames k create c materialize b st (log_frame k c payload @ rest)
    = scan_frames k create c materialize b
        (st'\<lparr>sc_offset := sc_offset st' + length (log_frame k c payload)\<rparr>) rest"
  using assms read_log_frame_written [OF assms(1,2), of create c rest]
  by (subst scan_frames.simps) simp

lemma scan_step_limited:
  assumes "log_lawful k" "lc_ser k e = Some payload"
    and "accept_event k materialize b e st = Some (Inr (st', True))"
  shows "scan_frames k create c materialize b st (log_frame k c payload @ rest)
    = Some (Inr (st'\<lparr>sc_limited := True\<rparr>))"
  using assms read_log_frame_written [OF assms(1,2), of create c rest]
  by (subst scan_frames.simps) simp

text \<open>Consistency of a scan that has reached event \<open>n\<close>: all counters agree, and the
  previous id in this file is not beyond \<open>n\<close>.\<close>

definition scan_at :: "u64 \<Rightarrow> u64 \<Rightarrow> scan \<Rightarrow> bool" where
  "scan_at b n st \<longleftrightarrow> sc_last_event_id st = n \<and> ls_next_id (sc_loaded st) = n \<and> b \<le> n
     \<and> (\<forall>p. sc_raw_last_event_id st = Some p \<longrightarrow> p \<le> n)"

text \<open>Stale events, at or below the snapshot boundary, are checked and skipped.\<close>

lemma accept_stale:
  assumes "scan_at b b st" "0 < ev_id e" "ev_id e \<le> b"
    and "\<forall>p. sc_raw_last_event_id st = Some p \<longrightarrow> p < ev_id e"
  shows "\<exists>first. accept_event k materialize b e st
    = Some (Inr (st\<lparr>sc_raw_last_event_id := Some (ev_id e), sc_first_event_id := first\<rparr>, False))"
  using assms by (auto simp: accept_event_def scan_at_def Let_def split: option.splits)

lemma scan_stale:
  assumes "log_lawful k" "serializable k es" "scan_at b b st"
    and "sorted_wrt (<) (map ev_id es)" "\<forall>e \<in> set es. 0 < ev_id e \<and> ev_id e \<le> b"
    and "\<forall>p. sc_raw_last_event_id st = Some p \<longrightarrow> (\<forall>e \<in> set es. p < ev_id e)"
  shows "\<exists>raw first. scan_frames k create c materialize b st (frames_of k c es @ tail)
      = scan_frames k create c materialize b
          (st\<lparr>sc_raw_last_event_id := raw, sc_first_event_id := first,
              sc_offset := sc_offset st + length (frames_of k c es)\<rparr>) tail
    \<and> (\<forall>p. raw = Some p \<longrightarrow> p \<le> b)"
  using assms(2-)
proof (induction es arbitrary: st)
  case Nil
  have "st\<lparr>sc_raw_last_event_id := sc_raw_last_event_id st,
      sc_first_event_id := sc_first_event_id st, sc_offset := sc_offset st\<rparr> = st" by simp
  moreover have "\<forall>p. sc_raw_last_event_id st = Some p \<longrightarrow> p \<le> b"
    using Nil.prems(2) by (simp add: scan_at_def)
  ultimately show ?case by (metis append_Nil frames_of_simps(1) list.size(3) add_0_right)
next
  case (Cons e es)
  obtain payload where p: "lc_ser k e = Some payload" using Cons.prems(1) by auto
  obtain first where acc: "accept_event k materialize b e st
      = Some (Inr (st\<lparr>sc_raw_last_event_id := Some (ev_id e), sc_first_event_id := first\<rparr>, False))"
    using accept_stale [of b st e k materialize] Cons.prems by auto
  let ?st = "st\<lparr>sc_raw_last_event_id := Some (ev_id e), sc_first_event_id := first,
    sc_offset := sc_offset st + length (log_frame k c payload)\<rparr>"
  have at: "scan_at b b ?st" using Cons.prems(2,4) by (simp add: scan_at_def)
  obtain raw first' where IH: "scan_frames k create c materialize b ?st (frames_of k c es @ tail)
      = scan_frames k create c materialize b
          (?st\<lparr>sc_raw_last_event_id := raw, sc_first_event_id := first',
              sc_offset := sc_offset ?st + length (frames_of k c es)\<rparr>) tail"
      "\<forall>p. raw = Some p \<longrightarrow> p \<le> b"
    using Cons.IH [OF _ at] Cons.prems by auto
  show ?case
    using IH scan_step [OF assms(1) p acc, of create c "frames_of k c es @ tail"]
    by (intro exI [of _ raw] exI [of _ first']) (simp add: p add.assoc)
qed

text \<open>New events, consecutive after \<open>n\<close>, are materialized.\<close>

lemma accept_new:
  assumes "scan_at b n st" "ev_id e = Suc n" "Suc n \<le> u64_max" "loaded_inv (sc_loaded st)"
    and "storable_kind (ev_kind e)" "sc_collected st = None"
  shows "\<exists>l first. accept_event k True b e st
      = Some (Inr (st\<lparr>sc_loaded := l, sc_last_event_id := Suc n,
          sc_raw_last_event_id := Some (Suc n), sc_first_event_id := first\<rparr>, False))
    \<and> loaded_inv l \<and> ls_next_id l = Suc n
    \<and> ls_state l = apply_event (lc_sha256 k) e (ls_state (sc_loaded st))
    \<and> (\<exists>i. ls_events l = drop i (ls_events (sc_loaded st) @ [e]))
    \<and> ls_event_consumers l = ls_event_consumers (sc_loaded st)"
proof -
  have "ev_id e = Suc (ls_next_id (sc_loaded st))" using assms(1,2) by (simp add: scan_at_def)
  from loaded_push_next [OF assms(4) this assms(5), of "lc_sha256 k"]
  obtain l where l: "loaded_push (lc_sha256 k) e (sc_loaded st) = Some l" "loaded_inv l"
      "ls_next_id l = Suc (ls_next_id (sc_loaded st))"
      "ls_state l = apply_event (lc_sha256 k) e (ls_state (sc_loaded st))"
      "\<exists>i. ls_events l = drop i (ls_events (sc_loaded st) @ [e])"
      "ls_event_consumers l = ls_event_consumers (sc_loaded st)" by blast
  have sat: "saturating_add n (Suc 0) = Suc n" using assms(3) by (simp add: saturating_add_def)
  show ?thesis
    using assms l sat
    by (intro exI [of _ l] exI [of _ "Some (case sc_first_event_id st of None \<Rightarrow> Suc n | Some f \<Rightarrow> f)"])
       (auto simp: accept_event_def scan_at_def Let_def materialize_event_def split: option.splits)
qed

end
