(* ===== verification/Log_Recovery.thy ===== *)
theory Log_Recovery
  imports Event_Log "HOL-Library.Sublist"
begin

text \<open>
  Durability and recovery of the write-ahead log: what the startup scan rebuilds from
  the files an append sequence left behind, also after a crash that tore the tail of
  the active log or interrupted a compaction, and what the live replay returns.
\<close>

section \<open>Materializing the frames of a file\<close>

text \<open>The scan state after \<open>es\<close> have been materialized on top of \<open>st\<close>.\<close>

definition scanned :: "log_codec \<Rightarrow> u64 \<Rightarrow> event list \<Rightarrow> scan \<Rightarrow> scan \<Rightarrow> bool" where
  "scanned k b es st st' \<longleftrightarrow>
     scan_at b (sc_last_event_id st + length es) st' \<and> loaded_inv (sc_loaded st')
     \<and> ls_state (sc_loaded st') = fold (apply_event (lc_sha256 k)) es (ls_state (sc_loaded st))
     \<and> (\<exists>i. ls_events (sc_loaded st') = drop i (ls_events (sc_loaded st) @ es))
     \<and> ls_event_consumers (sc_loaded st') = ls_event_consumers (sc_loaded st)
     \<and> sc_collected st' = None \<and> sc_limited st' = sc_limited st"

lemma drop_drop_append: "\<exists>j. drop i (drop m xs @ ys) = drop j (xs @ ys)"
proof (cases "m \<le> length xs")
  case True
  then have "drop m xs @ ys = drop m (xs @ ys)" by simp
  then show ?thesis by (metis drop_drop)
next
  case False
  then have "drop m xs @ ys = drop (length xs) (xs @ ys)" by simp
  then show ?thesis by (metis drop_drop)
qed

lemma scan_new:
  assumes "log_lawful k" "serializable k es" "scan_at b n st" "loaded_inv (sc_loaded st)"
    and "sc_collected st = None" "map ev_id es = [Suc n..<Suc (n + length es)]"
    and "n + length es \<le> u64_max"
  shows "\<exists>st'. scan_frames k create c True b st (frames_of k c es @ tail)
      = scan_frames k create c True b st' tail
    \<and> scanned k b es st st' \<and> sc_offset st' = sc_offset st + length (frames_of k c es)"
  using assms(2-)
proof (induction es arbitrary: st n)
  case Nil
  then show ?case
    by (intro exI [of _ st]) (auto simp: scanned_def scan_at_def intro: exI [of _ 0])
next
  case (Cons e es)
  obtain payload where p: "lc_ser k e = Some payload" using Cons.prems(1) by auto
  have ids: "ev_id e = Suc n" "map ev_id es = [Suc (Suc n)..<Suc (Suc n + length es)]"
    using Cons.prems(5) by (simp_all add: upt_conv_Cons del: upt_Suc)
  have max: "Suc n \<le> u64_max" using Cons.prems(6) by simp
  obtain l first where acc: "accept_event k True b e st
      = Some (Inr (st\<lparr>sc_loaded := l, sc_last_event_id := Suc n,
          sc_raw_last_event_id := Some (Suc n), sc_first_event_id := first\<rparr>, False))"
    and l: "loaded_inv l" "ls_next_id l = Suc n"
      "ls_state l = apply_event (lc_sha256 k) e (ls_state (sc_loaded st))"
      "\<exists>i. ls_events l = drop i (ls_events (sc_loaded st) @ [e])"
      "ls_event_consumers l = ls_event_consumers (sc_loaded st)"
    using accept_new [OF Cons.prems(2) ids(1) max Cons.prems(3) log_lawfulD(3) [OF assms(1) p]
        Cons.prems(4), of k] by blast
  let ?st = "st\<lparr>sc_loaded := l, sc_last_event_id := Suc n,
    sc_raw_last_event_id := Some (Suc n), sc_first_event_id := first,
    sc_offset := sc_offset st + length (log_frame k c payload)\<rparr>"
  have at: "scan_at b (Suc n) ?st" using Cons.prems(2) l(2) by (simp add: scan_at_def)
  obtain st' where st': "scan_frames k create c True b ?st (frames_of k c es @ tail)
      = scan_frames k create c True b st' tail" "scanned k b es ?st st'"
      "sc_offset st' = sc_offset ?st + length (frames_of k c es)"
    using Cons.IH [OF _ at] Cons.prems(1,4,6) l(1) ids(2) by auto
  have "scanned k b (e # es) st st'"
    using st'(2) l Cons.prems(2) drop_drop_append [of _ _ "ls_events (sc_loaded st) @ [e]" es]
    by (auto simp: scanned_def scan_at_def)
  then show ?case
    using st'(1,3) scan_step [OF assms(1) p acc, of create c "frames_of k c es @ tail"]
    by (intro exI [of _ st']) (simp add: p)
qed

text \<open>A file holds stale events, at or below the boundary, followed by new ones.\<close>

definition file_events :: "u64 \<Rightarrow> u64 \<Rightarrow> event list \<Rightarrow> event list \<Rightarrow> bool" where
  "file_events b n stale new \<longleftrightarrow>
     sorted_wrt (<) (map ev_id stale) \<and> (\<forall>e \<in> set stale. 0 < ev_id e \<and> ev_id e \<le> b)
     \<and> map ev_id new = [Suc n..<Suc (n + length new)] \<and> b \<le> n \<and> (stale \<noteq> [] \<longrightarrow> n = b)
     \<and> n + length new \<le> u64_max"

lemma scan_file:
  assumes "log_lawful k" "serializable k (stale @ new)" "file_events b n stale new"
    and "scan_at b n st" "loaded_inv (sc_loaded st)" "sc_collected st = None"
    and "sc_raw_last_event_id st = None" "clean_end k create c tail"
  shows "\<exists>st'. scan_frames k create c True b st (frames_of k c (stale @ new) @ tail) = Some (Inr st')
    \<and> scanned k b new st st' \<and> sc_offset st' = sc_offset st + length (frames_of k c (stale @ new))"
proof (cases "stale = []")
  case True
  then show ?thesis
    using scan_new [OF assms(1) _ assms(4-6), of new create c tail] assms(2,3,8)
    by (auto simp: file_events_def scan_end)
next
  case False
  then have n: "n = b" using assms(3) by (simp add: file_events_def)
  obtain raw first where st: "scan_frames k create c True b st (frames_of k c stale @ frames_of k c new @ tail)
      = scan_frames k create c True b
          (st\<lparr>sc_raw_last_event_id := raw, sc_first_event_id := first,
              sc_offset := sc_offset st + length (frames_of k c stale)\<rparr>) (frames_of k c new @ tail)"
      "\<forall>p. raw = Some p \<longrightarrow> p \<le> b"
    using scan_stale [OF assms(1), of stale b st create c True "frames_of k c new @ tail"]
      assms(2,3,4,7) n by (auto simp: file_events_def)
  let ?st = "st\<lparr>sc_raw_last_event_id := raw, sc_first_event_id := first,
    sc_offset := sc_offset st + length (frames_of k c stale)\<rparr>"
  have at: "scan_at b n ?st" using assms(4) st(2) n by (simp add: scan_at_def)
  obtain st' where "scan_frames k create c True b ?st (frames_of k c new @ tail)
      = scan_frames k create c True b st' tail" "scanned k b new ?st st'"
      "sc_offset st' = sc_offset ?st + length (frames_of k c new)"
    using scan_new [OF assms(1) _ at, of new create c tail] assms(2,3,5,6)
    by (auto simp: file_events_def)
  then show ?thesis
    using st(1) assms(8) by (intro exI [of _ st']) (auto simp: scan_end scanned_def)
qed

lemma scanned_append:
  assumes "scanned k b xs st st1" "scanned k b ys st1 st2"
  shows "scanned k b (xs @ ys) st st2"
proof -
  have "sc_last_event_id st1 = sc_last_event_id st + length xs"
    using assms(1) by (simp add: scanned_def scan_at_def)
  moreover obtain i j where "ls_events (sc_loaded st1) = drop i (ls_events (sc_loaded st) @ xs)"
      "ls_events (sc_loaded st2) = drop j (ls_events (sc_loaded st1) @ ys)"
    using assms by (auto simp: scanned_def)
  then have "\<exists>m. ls_events (sc_loaded st2) = drop m ((ls_events (sc_loaded st) @ xs) @ ys)"
    using drop_drop_append [of j i "ls_events (sc_loaded st) @ xs" ys] by metis
  ultimately show ?thesis
    using assms unfolding scanned_def by (simp add: add.assoc)
qed

text \<open>The first event id reported for a file is the id of one of its events.\<close>

lemma accept_event_first:
  "accept_event k materialize b e st = Some (Inr (st', limited)) \<Longrightarrow>
     sc_first_event_id st' = Some (case sc_first_event_id st of None \<Rightarrow> ev_id e | Some f \<Rightarrow> f)"
  by (auto simp: accept_event_def materialize_event_def Let_def
      split: if_splits option.splits prod.splits)

lemma scan_first:
  assumes "log_lawful k" "serializable k es" "clean_end k create c tail"
    and "scan_frames k create c materialize b st (frames_of k c es @ tail) = Some (Inr st')"
  shows "sc_first_event_id st' \<in> insert (sc_first_event_id st) (Some ` ev_id ` set es)
    \<and> (es \<noteq> [] \<longrightarrow> sc_first_event_id st' \<noteq> None)"
  using assms(2,4)
proof (induction es arbitrary: st)
  case Nil
  then show ?case using assms(3) by (simp add: scan_end)
next
  case (Cons e es)
  obtain payload where p: "lc_ser k e = Some payload" using Cons.prems(1) by auto
  obtain st1 limited where acc: "accept_event k materialize b e st = Some (Inr (st1, limited))"
    using Cons.prems(2) read_log_frame_written [OF assms(1) p]
    by (subst (asm) scan_frames.simps) (auto simp: p split: option.splits sum.splits)
  note first = accept_event_first [OF acc]
  show ?case
  proof (cases limited)
    case True
    then show ?thesis
      using scan_step_limited [OF assms(1) p, of materialize b st st1] acc Cons.prems(2) first
      by (auto simp: p split: option.splits)
  next
    case False
    then show ?thesis
      using scan_step [OF assms(1) p, of materialize b st st1] acc Cons.prems first
        Cons.IH [of "st1\<lparr>sc_offset := sc_offset st1 + length (log_frame k c payload)\<rparr>"]
      by (auto simp: p split: option.splits)
  qed
qed

section \<open>Files\<close>

definition log_file :: "log_codec \<Rightarrow> u16 \<Rightarrow> event list \<Rightarrow> bytes" where
  "log_file k version es = log_header version @ frames_of k (version = EVENT_LOG_VERSION) es"

lemma length_log_header [simp]: "length (log_header version) = 9"
  by (simp add: log_header_def consts_simps)

lemma load_header_log:
  assumes "version \<in> {EVENT_LOG_LEGACY_VERSION, EVENT_LOG_VERSION}"
  shows "load_header create (log_header version @ body)
    = Inr (log_header version @ body, version = EVENT_LOG_VERSION)"
proof -
  have "version < 256 ^ 2" using assms by (auto simp: consts_simps)
  moreover have "slice 7 9 (log_header version @ body) = be_bytes 2 version"
    by (simp add: log_header_def slice_def consts_simps)
  moreover have "take 7 (log_header version @ body) = EVENT_LOG_MAGIC"
    by (simp add: log_header_def consts_simps)
  moreover have "log_header version @ body \<noteq> []" by (auto simp flip: length_greater_0_conv)
  ultimately show ?thesis
    using assms by (auto simp: load_header_def Let_def consts_simps)
qed

lemma load_header_short:
  assumes "length file < 9"
  shows "load_header True file = Inr (log_header EVENT_LOG_VERSION, True)"
proof -
  have "slice 7 9 (log_header EVENT_LOG_VERSION) = be_bytes 2 EVENT_LOG_VERSION"
    "take 7 (log_header EVENT_LOG_VERSION) = EVENT_LOG_MAGIC"
    by (simp_all add: log_header_def slice_def consts_simps)
  moreover have "be_nat (be_bytes 2 EVENT_LOG_VERSION) = EVENT_LOG_VERSION"
    by (rule be_nat_be_bytes) (simp add: consts_simps)
  moreover have "EVENT_LOG_VERSION \<noteq> EVENT_LOG_LEGACY_VERSION" by (simp add: consts_simps)
  ultimately show ?thesis
    using assms by (cases "file = []") (simp_all add: load_header_def Let_def del: slice_to_end)
qed

lemma load_file:
  assumes "log_lawful k" "serializable k (stale @ new)" "file_events b n stale new"
    and "scan_at b n st" "loaded_inv (sc_loaded st)" "sc_collected st = None"
    and "clean_end k create (version = EVENT_LOG_VERSION) tail"
    and "load_header create file = Inr (log_file k version (stale @ new) @ tail, version = EVENT_LOG_VERSION)"
    and "length (log_file k version (stale @ new)) \<le> EVENT_LOG_MAX_BYTES"
  shows "\<exists>st' first. load_event_log k create True b st file
      = Some (Inr (\<lparr>ef_bytes = log_file k version (stale @ new),
          ef_checksummed = (version = EVENT_LOG_VERSION), ef_first_event_id = first,
          ef_dirty_bytes = 0\<rparr>, st'))
    \<and> scanned k b new (st\<lparr>sc_limited := False\<rparr>) st'
    \<and> (first = None \<and> stale @ new = [] \<or> first \<in> Some ` ev_id ` set (stale @ new))"
proof -
  let ?c = "version = EVENT_LOG_VERSION"
  let ?st = "st\<lparr>sc_offset := 9, sc_raw_last_event_id := None, sc_first_event_id := None,
    sc_limited := False\<rparr>"
  have "scan_at b n ?st" using assms(4) by (simp add: scan_at_def)
  then obtain st' where st': "scan_frames k create ?c True b ?st
        (frames_of k ?c (stale @ new) @ tail) = Some (Inr st')"
      "scanned k b new ?st st'" "sc_offset st' = 9 + length (frames_of k ?c (stale @ new))"
    using scan_file [OF assms(1-3), of ?st create ?c tail] assms(5-7) by auto
  have parts: "drop 9 (log_file k version (stale @ new) @ tail) = frames_of k ?c (stale @ new) @ tail"
    "take (9 + length (frames_of k ?c (stale @ new))) (log_file k version (stale @ new) @ tail)
      = log_file k version (stale @ new)"
    by (simp_all add: log_file_def)
  have "\<not> sc_limited st'" using st'(2) by (simp add: scanned_def)
  then have "load_event_log k create True b st file
      = Some (Inr (\<lparr>ef_bytes = log_file k version (stale @ new), ef_checksummed = ?c,
          ef_first_event_id = sc_first_event_id st', ef_dirty_bytes = 0\<rparr>, st'))"
    unfolding load_event_log_def assms(8) sum.case prod.case parts(1) st'(1) option.case
    using assms(9) st'(3) parts(2) by (simp add: Let_def)
  moreover have "scanned k b new (st\<lparr>sc_limited := False\<rparr>) st'"
    using st'(2) by (simp add: scanned_def)
  moreover have "sc_first_event_id st' = None \<and> stale @ new = []
      \<or> sc_first_event_id st' \<in> Some ` ev_id ` set (stale @ new)"
    using scan_first [OF assms(1,2,7) st'(1)] by auto
  ultimately show ?thesis by blast
qed

section \<open>Segments\<close>

type_synonym segment_rep = "u64 \<times> u16 \<times> event list \<times> event list"

definition segment_file :: "log_codec \<Rightarrow> segment_rep \<Rightarrow> u64 \<times> bytes" where
  "segment_file k = (\<lambda>(first, version, stale, new). (first, log_file k version (stale @ new)))"

definition file_ok :: "log_codec \<Rightarrow> u64 \<Rightarrow> u64 \<Rightarrow> u16 \<Rightarrow> event list \<Rightarrow> event list \<Rightarrow> bool" where
  "file_ok k b n version stale new \<longleftrightarrow>
     version \<in> {EVENT_LOG_LEGACY_VERSION, EVENT_LOG_VERSION} \<and> serializable k (stale @ new)
     \<and> file_events b n stale new \<and> length (log_file k version (stale @ new)) \<le> EVENT_LOG_MAX_BYTES"

fun segments_ok :: "log_codec \<Rightarrow> u64 \<Rightarrow> u64 \<Rightarrow> segment_rep list \<Rightarrow> bool" where
  "segments_ok k b n [] \<longleftrightarrow> True"
| "segments_ok k b n ((first, version, stale, new) # segs) \<longleftrightarrow>
     file_ok k b n version stale new \<and> segments_ok k b (n + length new) segs"

definition segments_new :: "segment_rep list \<Rightarrow> event list" where
  "segments_new segs = concat (map (\<lambda>(_, _, _, new). new) segs)"

lemma segments_new_simps [simp]:
  "segments_new [] = []"
  "segments_new ((f, v, stale, new) # segs) = new @ segments_new segs"
  "segments_new (xs @ ys) = segments_new xs @ segments_new ys"
  by (simp_all add: segments_new_def)

lemma segments_ok_append:
  "segments_ok k b n (xs @ ys) \<longleftrightarrow>
     segments_ok k b n xs \<and> segments_ok k b (n + length (segments_new xs)) ys"
  by (induction k b n xs rule: segments_ok.induct) (auto simp: add.assoc)

lemma load_segments_ok:
  assumes "segments_ok k b n segs"
    and "scan_at b n st" "loaded_inv (sc_loaded st)" "sc_collected st = None" "\<not> sc_limited st"
    and "log_lawful k"
  shows "\<exists>st'. load_segments k True b st (map (segment_file k) segs) = Some (Inr st')
    \<and> scanned k b (segments_new segs) st st'"
  using assms
proof (induction k b n segs arbitrary: st rule: segments_ok.induct)
  case (1 k b n)
  then show ?case
    by (auto simp: scanned_def scan_at_def intro: exI [of _ 0])
next
  case (2 k b n first version stale new segs)
  have ok: "file_ok k b n version stale new" "segments_ok k b (n + length new) segs"
    using "2.prems"(1) by simp_all
  have hdr: "load_header False (log_file k version (stale @ new))
      = Inr (log_file k version (stale @ new) @ [], version = EVENT_LOG_VERSION)"
    using ok(1) load_header_log by (simp add: file_ok_def log_file_def)
  have lim: "st\<lparr>sc_limited := False\<rparr> = st" using "2.prems"(5) by simp
  obtain st1 first' where st1: "load_event_log k False True b st (log_file k version (stale @ new))
      = Some (Inr (\<lparr>ef_bytes = log_file k version (stale @ new),
          ef_checksummed = (version = EVENT_LOG_VERSION), ef_first_event_id = first',
          ef_dirty_bytes = 0\<rparr>, st1))" "scanned k b new st st1"
    using load_file [OF _ _ _ "2.prems"(2-4) clean_end_Nil hdr] ok(1) "2.prems"(6)
    by (auto simp: file_ok_def lim)
  have at: "scan_at b (n + length new) st1" "loaded_inv (sc_loaded st1)" "sc_collected st1 = None"
      "\<not> sc_limited st1"
    using st1(2) "2.prems"(2,5) by (auto simp: scanned_def scan_at_def)
  obtain st2 where "load_segments k True b st1 (map (segment_file k) segs) = Some (Inr st2)"
      "scanned k b (segments_new segs) st1 st2"
    using "2.IH" [OF ok(2) at] "2.prems"(6) by blast
  then show ?case
    using st1 at(4) scanned_append by (auto simp: segment_file_def)
qed

section \<open>A disk that holds a log\<close>

text \<open>The rotated segments hold the events \<open>sealed\<close> after the snapshot boundary, the
  active log the events \<open>recent\<close> that follow; stale events may precede them in the files.
  The segment numbers, under which the files sort, increase strictly.\<close>

definition first_bound :: "u64 list \<Rightarrow> u64 option \<Rightarrow> event list \<Rightarrow> u64 \<Rightarrow> bool" where
  "first_bound firsts first es n \<longleftrightarrow> sorted_wrt (<) firsts
     \<and> (\<forall>f \<in> set firsts. f \<le> n \<and> (\<forall>e \<in> set es. f < ev_id e))
     \<and> (case first of None \<Rightarrow> es = []
        | Some i \<Rightarrow> (\<forall>f \<in> set firsts. f < i) \<and> (if es = [] then i \<le> Suc n else \<exists>e \<in> set es. i \<le> ev_id e))"

definition disk_holds :: "log_codec \<Rightarrow> session_disk \<Rightarrow> event list \<Rightarrow> event list \<Rightarrow> bool" where
  "disk_holds k d sealed recent \<longleftrightarrow> (\<exists>segs version stale.
     dk_segments d = map (segment_file k) segs \<and> sealed = segments_new segs
     \<and> segments_ok k (dk_snapshot_boundary d) (dk_snapshot_boundary d) segs
     \<and> ef_bytes (dk_active d) = log_file k version (stale @ recent)
     \<and> ef_checksummed (dk_active d) = (version = EVENT_LOG_VERSION)
     \<and> file_ok k (dk_snapshot_boundary d) (dk_snapshot_boundary d + length sealed) version stale recent
     \<and> first_bound (map fst segs) (ef_first_event_id (dk_active d)) (stale @ recent)
         (dk_snapshot_boundary d + length sealed))"

lemma file_ok_empty:
  "b \<le> n \<Longrightarrow> n \<le> u64_max \<Longrightarrow> file_ok k b n EVENT_LOG_VERSION [] []"
  by (simp add: file_ok_def file_events_def log_file_def) (simp add: consts_simps)

lemma fst_segment_file [simp]: "fst (segment_file k seg) = fst seg"
  by (cases seg) (simp add: segment_file_def)

lemma file_ok_new_ids:
  assumes "file_ok k b n version stale new" "e \<in> set new"
  shows "n < ev_id e \<and> ev_id e \<le> n + length new"
proof -
  have "ev_id e \<in> set (map ev_id new)" using assms(2) by simp
  also have "\<dots> = {Suc n..<Suc (n + length new)}"
    using assms(1) by (simp only: file_ok_def file_events_def set_upt)
  finally show ?thesis by simp
qed

lemma file_ok_ids:
  assumes "file_ok k b n version stale new" "e \<in> set (stale @ new)"
  shows "ev_id e \<le> n + length new"
proof (cases "e \<in> set new")
  case True
  then show ?thesis using file_ok_new_ids [OF assms(1)] by blast
next
  case False
  then have "ev_id e \<le> b \<and> b \<le> n" using assms by (simp add: file_ok_def file_events_def)
  then show ?thesis by simp
qed

lemma first_bound_first:
  "first_bound firsts first es n \<Longrightarrow> es \<noteq> [] \<Longrightarrow> \<exists>i. first = Some i \<and> (\<exists>e \<in> set es. i \<le> ev_id e)"
  by (cases first) (simp_all add: first_bound_def)

lemma rotate_holds:
  fixes "next" :: u64
  assumes "disk_holds k d sealed recent"
    and "9 < length (ef_bytes (dk_active d))"
  defines "d1 \<equiv> rotate_locked next d"
  shows "disk_holds k (d1\<lparr>dk_total_bytes := total_len d1\<rparr>) (sealed @ recent) []"
proof -
  let ?b = "dk_snapshot_boundary d"
  obtain segs version stale where h: "dk_segments d = map (segment_file k) segs"
      "sealed = segments_new segs" "segments_ok k ?b ?b segs"
      "ef_bytes (dk_active d) = log_file k version (stale @ recent)"
      "file_ok k ?b (?b + length sealed) version stale recent"
      "first_bound (map fst segs) (ef_first_event_id (dk_active d)) (stale @ recent)
         (?b + length sealed)"
    using assms(1) unfolding disk_holds_def by blast
  define first where "first = (case ef_first_event_id (dk_active d) of None \<Rightarrow> next | Some i \<Rightarrow> i)"
  let ?segs = "segs @ [(first, version, stale, recent)]"
  have "stale @ recent \<noteq> []" using assms(2) h(4) by (auto simp: log_file_def)
  then obtain i e where i: "ef_first_event_id (dk_active d) = Some i" "e \<in> set (stale @ recent)" "i \<le> ev_id e"
    using first_bound_first [OF h(6)] by blast
  have "i \<le> ?b + length (sealed @ recent)"
    using i(3) file_ok_ids [OF h(5) i(2)] by simp
  then have "first_bound (map fst ?segs) None [] (?b + length (sealed @ recent))"
    using h(6) by (auto simp: first_bound_def first_def i(1) sorted_wrt_append)
  moreover have "segments_ok k ?b ?b ?segs"
    using h(2,3,5) by (simp add: segments_ok_append)
  moreover have "file_ok k ?b (?b + length (sealed @ recent)) EVENT_LOG_VERSION [] []"
    using h(5) by (intro file_ok_empty) (auto simp: file_ok_def file_events_def)
  moreover have "dk_segments d1 = map (segment_file k) ?segs"
    using h(1,4) by (simp add: d1_def rotate_locked_def first_def segment_file_def Let_def)
  moreover have "dk_active d1 = \<lparr>ef_bytes = log_header EVENT_LOG_VERSION, ef_checksummed = True,
      ef_first_event_id = None, ef_dirty_bytes = 0\<rparr>" "dk_snapshot_boundary d1 = ?b"
    by (simp_all add: d1_def rotate_locked_def Let_def)
  ultimately show ?thesis
    unfolding disk_holds_def
    by (intro exI [of _ ?segs] exI [of _ EVENT_LOG_VERSION] exI [of _ "[]"])
       (simp add: h(2) log_file_def add.assoc)
qed

lemma first_bound_write:
  assumes "first_bound firsts first es n" "n < ev_id e" "es = [] \<Longrightarrow> ev_id e = Suc n"
  defines "first' \<equiv> Some (case first of None \<Rightarrow> ev_id e | Some i \<Rightarrow> i)"
  shows "first_bound firsts first' es n" "first_bound firsts first' (es @ [e]) n"
proof -
  have old: "\<forall>f \<in> set firsts. f < ev_id e"
    using assms(1,2) unfolding first_bound_def by fastforce
  show "first_bound firsts first' es n"
    using assms(1,3) old by (cases first) (simp_all add: first_bound_def first'_def)
  show "first_bound firsts first' (es @ [e]) n"
    using assms(1,3) old by (cases first; cases "es = []") (auto simp: first_bound_def first'_def)
qed

lemma frame_bytes_eq:
  assumes "log_lawful k" "lc_ser k e = Some payload"
  shows "saturating_add (saturating_add 4 (if c then 4 else 0)) (length payload)
    = length (log_frame k c payload)"
  using log_lawfulD(5) [OF assms] by (simp add: log_frame_def saturating_add_def u64_max_def)

lemma write_holds:
  assumes "log_lawful k" "disk_holds k d sealed recent" "lc_ser k e = Some payload"
    and "ev_id e = Suc (dk_snapshot_boundary d + length sealed + length recent)"
    and "ev_id e \<le> u64_max"
    and "length (ef_bytes (dk_active d)) + length (log_frame k (ef_checksummed (dk_active d)) payload)
      \<le> EVENT_LOG_MAX_BYTES"
    and "write_active k io e payload fb d = (d', r)"
  shows "disk_holds k d' sealed (recent @ (if r = Inr () then [e] else []))
    \<and> dk_snapshot_boundary d' = dk_snapshot_boundary d"
proof -
  let ?b = "dk_snapshot_boundary d" and ?a = "dk_active d"
  obtain segs version stale where h: "dk_segments d = map (segment_file k) segs"
      "sealed = segments_new segs" "segments_ok k ?b ?b segs"
      "ef_bytes ?a = log_file k version (stale @ recent)"
      "ef_checksummed ?a = (version = EVENT_LOG_VERSION)"
      "file_ok k ?b (?b + length sealed) version stale recent"
      "first_bound (map fst segs) (ef_first_event_id ?a) (stale @ recent)
         (?b + length sealed)"
    using assms(2) unfolding disk_holds_def by blast
  let ?first = "Some (case ef_first_event_id ?a of None \<Rightarrow> ev_id e | Some i \<Rightarrow> i)"
  have fb': "first_bound (map fst segs) ?first (stale @ recent) (?b + length sealed)"
      "first_bound (map fst segs) ?first (stale @ recent @ [e]) (?b + length sealed)"
    using first_bound_write [OF h(7), of e] assms(4) by simp_all
  consider (failed) "\<not> io_write_ok io"
    | (sync) "io_write_ok io" "d' = d\<lparr>dk_active := ?a\<lparr>ef_first_event_id := ?first, ef_dirty_bytes := 0\<rparr>\<rparr>"
      "r = Inl LogSyncFailed"
    | (ok) dirty where "io_write_ok io"
      "d' = d\<lparr>dk_active := ?a\<lparr>ef_bytes := ef_bytes ?a @ log_frame k (ef_checksummed ?a) payload,
          ef_first_event_id := ?first, ef_dirty_bytes := dirty\<rparr>,
          dk_total_bytes := dk_total_bytes d + fb\<rparr>" "r = Inr ()"
    using assms(7) by (auto simp: write_active_def Let_def split: if_splits)
  then show ?thesis
  proof cases
    case failed
    then have "d' = d\<lparr>dk_active := ?a\<lparr>ef_dirty_bytes := 0\<rparr>\<rparr>" "r = Inl LogWriteFailed"
      using assms(7) by (auto simp: write_active_def)
    then show ?thesis
      using h assms(4) unfolding disk_holds_def by auto
  next
    case sync
    then show ?thesis
      using h fb'(1) assms(4) unfolding disk_holds_def by auto
  next
    case ok
    have bytes: "ef_bytes ?a @ log_frame k (ef_checksummed ?a) payload
        = log_file k version (stale @ recent @ [e])"
      using h(4,5) assms(3) by (simp add: log_file_def)
    have "file_ok k ?b (?b + length sealed) version stale (recent @ [e])"
      using h(6) assms(3-6) bytes
      by (auto simp: file_ok_def file_events_def simp flip: bytes)
    then show ?thesis
      using h(1-3,5) fb'(2) ok(2,3) bytes assms(4) unfolding disk_holds_def
      by (intro conjI exI [of _ segs] exI [of _ version] exI [of _ stale]) simp_all
  qed
qed

lemma append_holds:
  assumes "log_lawful k" "disk_holds k d sealed recent"
    and "ev_id e = Suc (dk_snapshot_boundary d + length (sealed @ recent))" "ev_id e \<le> u64_max"
    and "disk_append k io e d = (d', r)"
  shows "\<exists>sealed' recent'. disk_holds k d' sealed' recent'
    \<and> sealed' @ recent' = (sealed @ recent) @ (if r = Inr () then [e] else [])
    \<and> dk_snapshot_boundary d' = dk_snapshot_boundary d"
proof (cases "lc_ser k e")
  case None
  then show ?thesis using assms(2,5) by (auto simp: disk_append_def)
next
  case (Some payload)
  let ?start = "length (ef_bytes (dk_active d))" and ?c = "ef_checksummed (dk_active d)"
  let ?fb = "length (log_frame k ?c payload)"
  let ?rotated = "let d = rotate_locked (ev_id e) d in d\<lparr>dk_total_bytes := total_len d\<rparr>"
  define dr where "dr = (if 9 < ?start \<and> EVENT_SEGMENT_MAX_BYTES < saturating_add ?start ?fb
    then ?rotated else d)"
  have small: "\<not> u32_max < length payload"
    using log_lawfulD(5) [OF assms(1) Some] by (simp add: u32_max_def)
  have eq: "disk_append k io e d =
      (if EVENT_LOG_MAX_BYTES < saturating_add (dk_total_bytes dr) ?fb
       then (dr, Inl EventStorageLimit) else write_active k io e payload ?fb dr)"
    using small frame_bytes_eq [OF assms(1) Some, of ?c]
    by (simp add: disk_append_def Some dr_def Let_def)
  have dr: "\<exists>sealed' recent'. disk_holds k dr sealed' recent' \<and> sealed' @ recent' = sealed @ recent"
    using rotate_holds [OF assms(2), of "ev_id e"] assms(2) by (auto simp: dr_def Let_def)
  then obtain sealed' recent' where dr: "disk_holds k dr sealed' recent'"
      "sealed' @ recent' = sealed @ recent" by blast
  have b: "dk_snapshot_boundary dr = dk_snapshot_boundary d"
    by (simp add: dr_def rotate_locked_def Let_def)
  show ?thesis
  proof (cases "EVENT_LOG_MAX_BYTES < saturating_add (dk_total_bytes dr) ?fb")
    case True
    then show ?thesis using assms(5) eq dr b by auto
  next
    case False
    have "length (ef_bytes (dk_active dr)) + length (log_frame k (ef_checksummed (dk_active dr)) payload)
        \<le> EVENT_LOG_MAX_BYTES"
      using log_lawfulD(2) [OF assms(1) Some]
      by (auto simp: dr_def rotate_locked_def log_frame_def saturating_add_def Let_def consts_simps
          u64_max_def min_def split: if_splits)
    moreover have "length sealed' + length recent' = length sealed + length recent"
      using dr(2) by (metis length_append)
    ultimately have "disk_holds k d' sealed' (recent' @ (if r = Inr () then [e] else []))
        \<and> dk_snapshot_boundary d' = dk_snapshot_boundary d"
      using write_holds [OF assms(1) dr(1) Some _ assms(4), of io ?fb d' r] False assms(3,5) eq b
      by simp
    then show ?thesis
      using dr(2) by (metis append_assoc)
  qed
qed

section \<open>Recovery\<close>

lemma sort_key_sorted: "sorted (map f xs) \<Longrightarrow> sort_key f xs = xs"
  by (induction xs) (auto simp: insort_is_Cons)

lemma frames_of_Nil_iff: "frames_of k c es = [] \<longleftrightarrow> es = []"
  by (cases es) (auto simp: log_frame_nonempty)

text \<open>A file cut after \<open>n\<close> bytes opens as a file that holds a prefix of its events.\<close>

lemma cut_file:
  assumes "log_lawful k" "file_ok k b n version stale recent"
  shows "\<exists>m stale' version' tail.
    load_header True (take i (log_file k version (stale @ recent)))
      = Inr (log_file k version' (stale' @ take m recent) @ tail, version' = EVENT_LOG_VERSION)
    \<and> clean_end k True (version' = EVENT_LOG_VERSION) tail
    \<and> file_ok k b n version' stale' (take m recent) \<and> m \<le> length recent \<and> set stale' \<subseteq> set stale
    \<and> (length (log_file k version (stale @ recent)) \<le> i \<longrightarrow> m = length recent) \<and> (i \<le> 9 \<longrightarrow> m = 0)"
proof (cases "i < 9")
  case True
  then have "load_header True (take i (log_file k version (stale @ recent)))
      = Inr (log_file k EVENT_LOG_VERSION [], True)"
    using load_header_short by (simp add: log_file_def)
  moreover have "file_ok k b n EVENT_LOG_VERSION [] []"
    using assms(2) by (intro file_ok_empty) (auto simp: file_ok_def file_events_def)
  moreover have "\<not> length (log_file k version (stale @ recent)) \<le> i"
    using True by (simp add: log_file_def)
  ultimately show ?thesis
    by (intro exI [of _ 0] exI [of _ "[]"] exI [of _ EVENT_LOG_VERSION]) simp
next
  case False
  let ?c = "version = EVENT_LOG_VERSION"
  have ok: "version \<in> {EVENT_LOG_LEGACY_VERSION, EVENT_LOG_VERSION}" "serializable k (stale @ recent)"
    "file_events b n stale recent" "length (log_file k version (stale @ recent)) \<le> EVENT_LOG_MAX_BYTES"
    using assms(2) by (simp_all add: file_ok_def)
  obtain m tail where m: "take (i - 9) (frames_of k ?c (stale @ recent))
        = frames_of k ?c (take m (stale @ recent)) @ tail" "clean_end k True ?c tail"
      "m \<le> length (stale @ recent)"
      "length (frames_of k ?c (stale @ recent)) \<le> i - 9 \<longrightarrow> m = length (stale @ recent) \<and> tail = []"
    using cut_frames [OF assms(1) ok(2), of "i - 9" ?c] by blast
  let ?stale = "take m stale" and ?recent = "take (m - length stale) recent"
  have bytes: "take i (log_file k version (stale @ recent)) = log_file k version (?stale @ ?recent) @ tail"
    using False m(1) by (simp add: log_file_def)
  have "length (log_file k version (?stale @ ?recent)) \<le> length (take i (log_file k version (stale @ recent)))"
    unfolding bytes by simp
  then have "length (log_file k version (?stale @ ?recent)) \<le> EVENT_LOG_MAX_BYTES"
    using ok(4) by simp
  moreover have "serializable k (?stale @ ?recent)"
    using ok(2) by (auto simp: serializable_def dest: in_set_takeD)
  moreover have "file_events b n ?stale ?recent"
  proof -
    have "sorted_wrt (<) (map ev_id ?stale)"
      using ok(3) by (simp add: file_events_def sorted_wrt_take flip: take_map)
    moreover have "map ev_id ?recent = [Suc n..<Suc (n + length ?recent)]"
      using ok(3) by (simp add: file_events_def take_upt min_def flip: take_map del: upt_Suc)
    ultimately show ?thesis
      using ok(3) by (auto simp: file_events_def dest: in_set_takeD)
  qed
  ultimately have "file_ok k b n version ?stale ?recent"
    using ok(1) by (simp add: file_ok_def)
  moreover have "load_header True (take i (log_file k version (stale @ recent)))
      = Inr (log_file k version (?stale @ ?recent) @ tail, ?c)"
    unfolding bytes using load_header_log [OF ok(1), of True] by (simp add: log_file_def)
  moreover have "length (log_file k version (stale @ recent)) \<le> i \<longrightarrow> m - length stale = length recent"
    using m(4) False by (auto simp: log_file_def)
  moreover have "i \<le> 9 \<longrightarrow> m - length stale = 0"
    using m(1,3) frames_of_Nil_iff [of k ?c "take m (stale @ recent)"] by auto
  ultimately show ?thesis
    using m(2,3) set_take_subset [of m stale]
    by (intro exI [of _ "m - length stale"] exI [of _ ?stale] exI [of _ version] exI [of _ tail]) auto
qed

definition snapshot_base :: "log_codec \<Rightarrow> session_snapshot_data option \<Rightarrow> loaded_session" where
  "snapshot_base k snapshot = (case snapshot of None \<Rightarrow> default_loaded
     | Some snapshot \<Rightarrow> loaded_from_snapshot (lc_sha256 k) snapshot)"

lemma snapshot_base_fresh: "ls_events (snapshot_base k snapshot) = []" "loaded_inv (snapshot_base k snapshot)"
  by (auto simp: snapshot_base_def loaded_inv_def loaded_from_snapshot_def default_loaded_def
      split: option.splits)

text \<open>The segment numbers stay ordered when the active log loses a torn tail.\<close>

lemma first_bound_reopen:
  assumes "first_bound firsts first es n" "set es' \<subseteq> set es"
    and "first' = None \<and> es' = [] \<or> first' \<in> Some ` ev_id ` set es'"
  shows "first_bound firsts first' es' n"
proof -
  have bounds: "\<forall>f \<in> set firsts. f \<le> n \<and> (\<forall>e \<in> set es'. f < ev_id e)"
    using assms(1,2) unfolding first_bound_def by blast
  show ?thesis
  proof (cases first')
    case None
    then show ?thesis using assms(1,3) bounds by (auto simp: first_bound_def)
  next
    case (Some i)
    then obtain e where "e \<in> set es'" "i = ev_id e" using assms(3) by blast
    then show ?thesis using assms(1) bounds Some by (auto simp: first_bound_def)
  qed
qed

text \<open>What a startup rebuilds when it recovers the events \<open>log\<close>.\<close>

definition recovered :: "log_codec \<Rightarrow> loaded_session \<Rightarrow> event list \<Rightarrow> loaded_session \<Rightarrow> bool" where
  "recovered k base log l \<longleftrightarrow>
     ls_state l = fold (apply_event (lc_sha256 k)) log (ls_state base)
     \<and> ls_next_id l = ls_next_id base + length log
     \<and> suffix (ls_events l) log \<and> loaded_inv l"

lemma open_recovers:
  assumes "log_lawful k" "disk_holds k d sealed recent"
    and "ls_next_id (snapshot_base k snapshot) = dk_snapshot_boundary d"
  shows "\<exists>m d' l. disk_open k snapshot (dk_segments d) (take n (ef_bytes (dk_active d)))
      = Some (Inr (d', l))
    \<and> m \<le> length recent \<and> (length (ef_bytes (dk_active d)) \<le> n \<longrightarrow> m = length recent)
    \<and> (n \<le> 9 \<longrightarrow> m = 0)
    \<and> disk_holds k d' sealed (take m recent) \<and> dk_snapshot_boundary d' = dk_snapshot_boundary d
    \<and> dk_total_bytes d' = total_len d'
    \<and> recovered k (snapshot_base k snapshot) (sealed @ take m recent) l"
proof -
  let ?b = "dk_snapshot_boundary d" and ?base = "snapshot_base k snapshot"
  obtain segs version stale where h: "dk_segments d = map (segment_file k) segs"
      "sealed = segments_new segs" "segments_ok k ?b ?b segs"
      "ef_bytes (dk_active d) = log_file k version (stale @ recent)"
      "file_ok k ?b (?b + length sealed) version stale recent"
      "first_bound (map fst segs) (ef_first_event_id (dk_active d)) (stale @ recent)
         (?b + length sealed)"
    using assms(2) unfolding disk_holds_def by blast
  have "sorted_wrt (<) (map fst segs)" using h(6) by (simp add: first_bound_def)
  then have "sorted (map fst segs)" by (rule sorted_wrt_mono_rel [rotated]) simp
  then have sorted: "sort_key fst (map (segment_file k) segs) = map (segment_file k) segs"
    by (intro sort_key_sorted) (simp add: comp_def)
  let ?st = "start_scan ?base None"
  have "scan_at ?b ?b ?st" "loaded_inv (sc_loaded ?st)" "sc_collected ?st = None" "\<not> sc_limited ?st"
    using assms(3) snapshot_base_fresh(2) by (simp_all add: scan_at_def start_scan_def)
  then obtain st1 where st1: "load_segments k True ?b ?st (map (segment_file k) segs) = Some (Inr st1)"
      "scanned k ?b sealed ?st st1"
    using load_segments_ok [OF h(3) _ _ _ _ assms(1)] h(2) by blast
  have at: "scan_at ?b (?b + length sealed) st1" "loaded_inv (sc_loaded st1)" "sc_collected st1 = None"
      "st1\<lparr>sc_limited := False\<rparr> = st1"
    using st1(2) assms(3) by (auto simp: scanned_def start_scan_def)
  obtain m stale' version' tail where cut:
    "load_header True (take n (ef_bytes (dk_active d)))
      = Inr (log_file k version' (stale' @ take m recent) @ tail, version' = EVENT_LOG_VERSION)"
    "clean_end k True (version' = EVENT_LOG_VERSION) tail"
    "file_ok k ?b (?b + length sealed) version' stale' (take m recent)"
    "m \<le> length recent" "set stale' \<subseteq> set stale"
    "length (ef_bytes (dk_active d)) \<le> n \<longrightarrow> m = length recent" "n \<le> 9 \<longrightarrow> m = 0"
    using cut_file [OF assms(1) h(5), of n] unfolding h(4) by blast
  obtain st2 first where st2: "load_event_log k True True ?b st1 (take n (ef_bytes (dk_active d)))
      = Some (Inr (\<lparr>ef_bytes = log_file k version' (stale' @ take m recent),
          ef_checksummed = (version' = EVENT_LOG_VERSION), ef_first_event_id = first,
          ef_dirty_bytes = 0\<rparr>, st2))"
    "scanned k ?b (take m recent) st1 st2"
    "first = None \<and> stale' @ take m recent = []
      \<or> first \<in> Some ` ev_id ` set (stale' @ take m recent)"
    using load_file [OF assms(1) _ _ at(1-3) cut(2,1)] cut(3) at(4) by (auto simp: file_ok_def)
  let ?d0 = "\<lparr>dk_active = \<lparr>ef_bytes = log_file k version' (stale' @ take m recent),
      ef_checksummed = (version' = EVENT_LOG_VERSION), ef_first_event_id = first,
      ef_dirty_bytes = 0\<rparr>, dk_segments = map (segment_file k) segs,
      dk_snapshot_boundary = ?b, dk_total_bytes = 0\<rparr>"
  let ?d = "?d0\<lparr>dk_total_bytes := total_len ?d0\<rparr>"
  have op: "disk_open k snapshot (dk_segments d) (take n (ef_bytes (dk_active d)))
      = Some (Inr (?d, sc_loaded st2))"
    using st1(1) st2(1) assms(3)
    by (simp add: disk_open_def h(1) sorted Let_def flip: snapshot_base_def)
  have subset: "set (stale' @ take m recent) \<subseteq> set (stale @ recent)"
    using cut(5) set_take_subset [of m recent] by auto
  have "first_bound (map fst segs) first (stale' @ take m recent) (?b + length sealed)"
    by (rule first_bound_reopen [OF h(6) subset st2(3)])
  then have "disk_holds k ?d sealed (take m recent)"
    unfolding disk_holds_def using h(1-3) cut(3,4)
    by (intro exI [of _ segs] exI [of _ version'] exI [of _ stale']) simp
  moreover have "recovered k ?base (sealed @ take m recent) (sc_loaded st2)"
    using scanned_append [OF st1(2) st2(2)] assms(3) snapshot_base_fresh(1)
    by (auto simp: recovered_def scanned_def scan_at_def start_scan_def suffix_drop
        simp del: drop_append)
  moreover have "dk_total_bytes ?d = total_len ?d" by (simp add: total_len_def)
  ultimately show ?thesis
    using op cut(4,6,7) by (intro exI [of _ m] exI [of _ ?d] exI [of _ "sc_loaded st2"]) simp
qed

section \<open>A crash during compaction\<close>

text \<open>The files a crash inside \<open>SessionDisk::compact\<close> leaves behind once the snapshot has
  been published: the log is untouched, or its reset is torn after some bytes of the new
  header, or the reset is complete and some of the segments have been removed.\<close>

datatype compact_crash = BeforeReset | DuringReset nat | RemovingSegments nat

fun compact_crash_files :: "compact_crash \<Rightarrow> session_disk \<Rightarrow> (u64 \<times> bytes) list \<times> bytes" where
  "compact_crash_files BeforeReset d = (dk_segments d, ef_bytes (dk_active d))"
| "compact_crash_files (DuringReset n) d = (dk_segments d, take n (log_header EVENT_LOG_VERSION))"
| "compact_crash_files (RemovingSegments i) d =
     (drop i (dk_segments d), log_header EVENT_LOG_VERSION)"

lemma file_ok_stale:
  assumes "file_ok k b n version stale new" "n + length new \<le> b'" "b' \<le> u64_max"
  shows "file_ok k b' b' version (stale @ new) []"
proof -
  note file_ok_new_ids [OF assms(1)]
  moreover have "sorted_wrt (<) (map ev_id new)"
    using assms(1) by (simp add: file_ok_def file_events_def del: upt_Suc)
  ultimately show ?thesis
    using assms by (fastforce simp: file_ok_def file_events_def sorted_wrt_append)
qed

definition stale_segment :: "segment_rep \<Rightarrow> segment_rep" where
  "stale_segment = (\<lambda>(first, version, stale, new). (first, version, stale @ new, []))"

lemma stale_segment_simps [simp]:
  "segment_file k (stale_segment seg) = segment_file k seg" "fst (stale_segment seg) = fst seg"
  by (cases seg, simp add: stale_segment_def segment_file_def)+

lemma segments_new_stale [simp]: "segments_new (map stale_segment segs) = []"
  by (induction segs) (auto simp: stale_segment_def)

lemma segments_ok_stale:
  assumes "segments_ok k b n segs" "n + length (segments_new segs) \<le> b'" "b' \<le> u64_max"
  shows "segments_ok k b' b' (map stale_segment segs)"
  using assms
  by (induction k b n segs rule: segments_ok.induct)
     (auto simp: stale_segment_def intro: file_ok_stale)

lemma segments_ok_drop:
  "segments_ok k b b (map stale_segment segs) \<Longrightarrow> segments_ok k b b (map stale_segment (drop i segs))"
  by (induction segs arbitrary: i)
     (auto simp: stale_segment_def drop_Cons' split: if_splits)

lemma first_bound_drop:
  assumes "first_bound firsts first es n" "n \<le> n'"
  shows "first_bound (drop i firsts) first es n'"
proof -
  have "set (drop i firsts) \<subseteq> set firsts" by (rule set_drop_subset)
  then have "\<forall>f \<in> set (drop i firsts). f \<le> n \<and> (\<forall>e \<in> set es. f < ev_id e)"
      "\<forall>f \<in> set (drop i firsts). \<forall>i. first = Some i \<longrightarrow> f < i"
    using assms(1) unfolding first_bound_def by (blast, fastforce)
  then show ?thesis
    using assms by (auto simp: first_bound_def sorted_wrt_drop split: option.splits)
qed

lemma compact_crash_holds:
  assumes "disk_holds k d sealed recent"
    and "compact_crash_files crash d = (segments, active)"
  shows "\<exists>d' n. disk_holds k d' [] [] \<and> dk_segments d' = segments
    \<and> take n (ef_bytes (dk_active d')) = active
    \<and> dk_snapshot_boundary d' = dk_snapshot_boundary d + length (sealed @ recent)"
proof -
  let ?b = "dk_snapshot_boundary d"
  let ?b' = "?b + length (sealed @ recent)"
  obtain segs version stale where h: "dk_segments d = map (segment_file k) segs"
      "sealed = segments_new segs" "segments_ok k ?b ?b segs"
      "ef_bytes (dk_active d) = log_file k version (stale @ recent)"
      "file_ok k ?b (?b + length sealed) version stale recent"
      "first_bound (map fst segs) (ef_first_event_id (dk_active d)) (stale @ recent)
         (?b + length sealed)"
    using assms(1) unfolding disk_holds_def by blast
  have max: "?b' \<le> u64_max" using h(5) by (simp add: file_ok_def file_events_def add.assoc)
  have segs: "segments_ok k ?b' ?b' (map stale_segment (drop i segs))" for i
    using segments_ok_drop segments_ok_stale [OF h(3) _ max] h(2) by simp
  have make: "disk_holds k \<lparr>dk_active = \<lparr>ef_bytes = log_file k v es, ef_checksummed = (v = EVENT_LOG_VERSION),
        ef_first_event_id = first, ef_dirty_bytes = 0\<rparr>, dk_segments = map (segment_file k) (drop i segs),
        dk_snapshot_boundary = ?b', dk_total_bytes = 0\<rparr> [] []" (is "disk_holds k (?disk v es i first) [] []")
    if "file_ok k ?b' ?b' v es []" "first_bound (map fst segs) first es (?b + length sealed)" for v es i first
  proof -
    have "first_bound (map fst (drop i segs)) first es ?b'"
      using first_bound_drop [OF that(2), of "?b'" i] by (simp add: drop_map)
    then show ?thesis
      unfolding disk_holds_def using that(1) segs [of i]
      by (intro exI [of _ "map stale_segment (drop i segs)"] exI [of _ v] exI [of _ es])
         (simp add: comp_def)
  qed
  have header: "log_header EVENT_LOG_VERSION = log_file k EVENT_LOG_VERSION []"
    by (simp add: log_file_def)
  have empty: "file_ok k ?b' ?b' EVENT_LOG_VERSION [] []" using max by (intro file_ok_empty) simp_all
  have none: "first_bound (map fst segs) None [] (?b + length sealed)"
    using h(6) by (auto simp: first_bound_def)
  show ?thesis
  proof (cases crash)
    case BeforeReset
    have "file_ok k ?b' ?b' version (stale @ recent) []"
      using file_ok_stale [OF h(5) _ max] by simp
    then have "disk_holds k (?disk version (stale @ recent) 0 (ef_first_event_id (dk_active d))) [] []"
      using h(6) by (rule make)
    then show ?thesis
      using BeforeReset assms(2) h(1,4)
      by (intro exI [of _ "?disk version (stale @ recent) 0 (ef_first_event_id (dk_active d))"] exI [of _ "length active"]) simp
  next
    case (DuringReset n)
    then show ?thesis
      using make [OF empty none, of 0] assms(2) h(1)
      by (intro exI [of _ "?disk EVENT_LOG_VERSION [] 0 None"] exI [of _ n]) (simp add: header)
  next
    case (RemovingSegments i)
    then show ?thesis
      using make [OF empty none, of i] assms(2) h(1)
      by (intro exI [of _ "?disk EVENT_LOG_VERSION [] i None"] exI [of _ "length active"])
         (simp add: header flip: drop_map)
  qed
qed

section \<open>Properties\<close>

text \<open>A small codec and a disk with two durable events, on which the properties are
  exercised.\<close>

definition demo_log_codec :: log_codec where
  "demo_log_codec = \<lparr>lc_crc = (\<lambda>b. sum_list (map unat b) mod 4294967296),
     lc_ser = (\<lambda>e. if ev_id e < 256 \<and> e = demo_event (ev_id e) then Some [of_nat (ev_id e)] else None),
     lc_de = (\<lambda>b. case b of [w] \<Rightarrow> Some (demo_event (unat w)) | _ \<Rightarrow> None),
     lc_sha256 = (\<lambda>b. [])\<rparr>"

lemma demo_log_codec_lawful: "log_lawful demo_log_codec"
proof -
  have "lc_crc demo_log_codec b \<le> u32_max" for b
    using mod_less_divisor [of 4294967296 "sum_list (map unat b)"]
    by (simp add: demo_log_codec_def u32_max_def)
  moreover have "postcard_law (lc_ser demo_log_codec) (lc_de demo_log_codec)"
    by (auto simp: postcard_law_def demo_log_codec_def unat_of_nat_byte split: if_splits)
  moreover have "storable_kind (ev_kind (demo_event i))" for i
    by (simp add: demo_event_def storable_kind_def event_variable_bytes_def)
  ultimately show ?thesis
    by (auto simp: log_lawful_def demo_log_codec_def consts_simps split: if_splits) (metis)
qed

definition demo_disk :: session_disk where
  "demo_disk = \<lparr>dk_active = \<lparr>ef_bytes = log_file demo_log_codec EVENT_LOG_VERSION [demo_event 2],
       ef_checksummed = True, ef_first_event_id = Some 2, ef_dirty_bytes = 0\<rparr>,
     dk_segments = [(1, log_file demo_log_codec EVENT_LOG_VERSION [demo_event 1])],
     dk_snapshot_boundary = 0, dk_total_bytes = 36\<rparr>"

lemma demo_disk_holds: "disk_holds demo_log_codec demo_disk [demo_event 1] [demo_event 2]"
  unfolding disk_holds_def
  by (intro exI [of _ "[(1, EVENT_LOG_VERSION, [], [demo_event 1])]"] exI [of _ EVENT_LOG_VERSION] exI [of _ "[]"])
     (simp add: demo_disk_def segment_file_def file_ok_def file_events_def first_bound_def
       log_file_def demo_event_def demo_log_codec_def log_frame_def consts_simps u64_max_def)

definition demo_snapshot :: session_snapshot_data where
  "demo_snapshot = \<lparr>sd_session_id = 0, sd_through_event_id = 2, sd_oldest_event_unix_ms = None, sd_processes = fmempty,
     sd_process_requests = fmempty, sd_file_versions = fmempty, sd_file_requests = fmempty,
     sd_signal_requests = fmempty, sd_artifact_requests = fmempty, sd_artifacts = fmempty,
     sd_pty_started = False, sd_pty_generation = 0\<rparr>"



text \<open>Claim C2. A crash that cuts the active log at any byte never prevents a restart and
  never corrupts it: the restart succeeds and rebuilds the state of the sealed segments
  followed by a prefix of the active events, all of them when nothing was cut; the
  reopened disk again holds exactly those events.\<close>

theorem wal_torn_tail_recovery:
  assumes "log_lawful k" "disk_holds k d sealed recent"
    and "ls_next_id (snapshot_base k snapshot) = dk_snapshot_boundary d"
  shows "\<exists>m d' l. disk_open k snapshot (dk_segments d) (take n (ef_bytes (dk_active d)))
      = Some (Inr (d', l))
    \<and> m \<le> length recent \<and> (length (ef_bytes (dk_active d)) \<le> n \<longrightarrow> m = length recent)
    \<and> disk_holds k d' sealed (take m recent) \<and> dk_total_bytes d' = total_len d'
    \<and> recovered k (snapshot_base k snapshot) (sealed @ take m recent) l"
  using open_recovers [OF assms, of n] by blast

theorem wal_torn_tail_recovery_witness:
  "\<exists>m d' l. disk_open demo_log_codec None (dk_segments demo_disk) (take 12 (ef_bytes (dk_active demo_disk)))
      = Some (Inr (d', l)) \<and> m \<le> 1
    \<and> recovered demo_log_codec (snapshot_base demo_log_codec None) ([demo_event 1] @ take m [demo_event 2]) l"
  using wal_torn_tail_recovery [OF demo_log_codec_lawful demo_disk_holds, of None 12]
  by (auto simp: snapshot_base_def default_loaded_def demo_disk_def)



end
