(* ===== verification/Log_Replay.thy ===== *)
theory Log_Replay
  imports Log_Recovery
begin

text \<open>
  Live replay from the write-ahead log (\<open>SessionDisk::read_events_since\<close>): a scan that
  collects the events after a cursor into a bounded buffer without materializing them.
\<close>

definition wanted :: "u64 \<Rightarrow> event list \<Rightarrow> event list" where
  "wanted after = filter (\<lambda>e. after < ev_id e)"

definition replay_fits :: "event list \<Rightarrow> bool" where
  "replay_fits es \<longleftrightarrow> length es \<le> MAX_DURABLE_REPLAY_EVENTS \<and> total_bytes es \<le> MAX_DURABLE_REPLAY_BYTES"

lemma wanted_simps [simp]:
  "wanted a [] = []"
  "wanted a (xs @ ys) = wanted a xs @ wanted a ys"
  "wanted a (e # xs) = (if a < ev_id e then e # wanted a xs else wanted a xs)"
  by (simp_all add: wanted_def)

lemma replay_fits_append: "replay_fits (xs @ ys) \<Longrightarrow> replay_fits xs"
  by (simp add: replay_fits_def)

lemma replay_push_more:
  assumes "replay_ok b" "replay_push e b = (b', room)"
  shows "room = replay_fits (rb_events b @ wanted (rb_after_event_id b) [e])"
proof -
  have "replay_fits (rb_events b)" using assms(1) by (simp add: replay_ok_def replay_fits_def)
  then show ?thesis
    using assms
    by (auto simp: replay_push_def replay_ok_def replay_fits_def Let_def saturating_add_def min_def
        consts_simps u64_max_def split: if_splits)
qed

text \<open>A scan that has reached event \<open>n\<close> and collected \<open>xs\<close>.\<close>

definition replayed :: "u64 \<Rightarrow> u64 \<Rightarrow> u64 \<Rightarrow> event list \<Rightarrow> scan \<Rightarrow> bool" where
  "replayed b after n xs st \<longleftrightarrow> scan_at b n st \<and> \<not> sc_limited st
     \<and> (\<exists>buf. sc_collected st = Some buf \<and> replay_ok buf \<and> rb_after_event_id buf = after
          \<and> rb_events buf = xs)"

lemma accept_replay:
  assumes "replayed b after n xs st" "ev_id e = Suc n" "Suc n \<le> u64_max"
  shows "\<exists>st'. accept_event k False b e st
      = Some (Inr (st', \<not> replay_fits (xs @ wanted after [e])))
    \<and> sc_offset st' = sc_offset st
    \<and> (replay_fits (xs @ wanted after [e]) \<longrightarrow> replayed b after (Suc n) (xs @ wanted after [e]) st')"
proof -
  obtain buf where buf: "sc_collected st = Some buf" "replay_ok buf" "rb_after_event_id buf = after"
      "rb_events buf = xs"
    using assms(1) by (auto simp: replayed_def)
  obtain buf' room where push: "replay_push e buf = (buf', room)" by force
  have room: "room = replay_fits (xs @ wanted after [e])"
    using replay_push_more [OF buf(2) push] buf(3,4) by simp
  have ok: "replay_ok buf'" using replay_push_ok [OF buf(2), of e] push by simp
  have sat: "saturating_add n (Suc 0) = Suc n" using assms(3) by (simp add: saturating_add_def)
  let ?st = "st\<lparr>sc_raw_last_event_id := Some (Suc n),
    sc_first_event_id := Some (case sc_first_event_id st of None \<Rightarrow> Suc n | Some first \<Rightarrow> first),
    sc_collected := Some buf'\<rparr>"
  let ?st' = "?st\<lparr>sc_loaded := (sc_loaded st)\<lparr>ls_next_id := Suc n\<rparr>, sc_last_event_id := Suc n\<rparr>"
  have acc: "accept_event k False b e st = Some (Inr (if room then ?st' else ?st, \<not> room))"
    using assms buf(1) push sat
    by (auto simp: accept_event_def materialize_event_def replayed_def scan_at_def Let_def
        split: option.splits)
  have "replayed b after (Suc n) (xs @ wanted after [e]) ?st'" if room
    using replay_push_True [of e buf buf'] push that ok buf(3,4) assms(1)
    by (auto simp: replayed_def scan_at_def wanted_def)
  then show ?thesis
    using acc room by (intro exI [of _ "if room then ?st' else ?st"]) auto
qed

lemma scan_replay:
  assumes "log_lawful k" "serializable k es" "replayed b after n xs st"
    and "map ev_id es = [Suc n..<Suc (n + length es)]" "n + length es \<le> u64_max"
  shows "\<exists>st'. if replay_fits (xs @ wanted after es)
    then scan_frames k create c False b st (frames_of k c es @ tail)
        = scan_frames k create c False b st' tail
      \<and> replayed b after (n + length es) (xs @ wanted after es) st'
    else scan_frames k create c False b st (frames_of k c es @ tail) = Some (Inr st')
      \<and> sc_limited st'"
  using assms(2-)
proof (induction es arbitrary: st n xs)
  case Nil
  then show ?case
    by (intro exI [of _ st]) (auto simp: replayed_def replay_ok_def replay_fits_def)
next
  case (Cons e es)
  obtain payload where p: "lc_ser k e = Some payload" using Cons.prems(1) by auto
  have ids: "ev_id e = Suc n" "map ev_id es = [Suc (Suc n)..<Suc (Suc n + length es)]"
    using Cons.prems(3) by (simp_all add: upt_conv_Cons del: upt_Suc)
  have max: "Suc n \<le> u64_max" using Cons.prems(4) by simp
  let ?xs = "xs @ wanted after [e]"
  obtain st1 where st1: "accept_event k False b e st = Some (Inr (st1, \<not> replay_fits ?xs))"
      "replay_fits ?xs \<longrightarrow> replayed b after (Suc n) ?xs st1"
    using accept_replay [OF Cons.prems(2) ids(1) max, of k] by blast
  have all: "xs @ wanted after (e # es) = ?xs @ wanted after es" by simp
  show ?case
  proof (cases "replay_fits ?xs")
    case True
    let ?st1 = "st1\<lparr>sc_offset := sc_offset st1 + length (log_frame k c payload)\<rparr>"
    have "replayed b after (Suc n) ?xs ?st1"
      using st1(2) True by (simp add: replayed_def scan_at_def)
    from Cons.IH [OF _ this ids(2)] Cons.prems(1,4)
    obtain st' where "if replay_fits (?xs @ wanted after es)
      then scan_frames k create c False b ?st1 (frames_of k c es @ tail)
          = scan_frames k create c False b st' tail
        \<and> replayed b after (Suc n + length es) (?xs @ wanted after es) st'
      else scan_frames k create c False b ?st1 (frames_of k c es @ tail) = Some (Inr st')
        \<and> sc_limited st'" by auto
    moreover have "scan_frames k create c False b st (frames_of k c (e # es) @ tail)
        = scan_frames k create c False b ?st1 (frames_of k c es @ tail)"
      using scan_step [OF assms(1) p, of False b st st1 create c "frames_of k c es @ tail"] st1(1) True
      by (simp add: p)
    ultimately show ?thesis
      unfolding all by (intro exI [of _ st']) (simp only: length_Cons add_Suc_right add_Suc)
  next
    case False
    then have "\<not> replay_fits (xs @ wanted after (e # es))"
      unfolding all using replay_fits_append by blast
    then show ?thesis
      using scan_step_limited [OF assms(1) p, of False b st st1 create c "frames_of k c es @ tail"]
        st1(1) False
      by (intro exI [of _ "st1\<lparr>sc_limited := True\<rparr>"]) (simp add: p)
  qed
qed

lemma scan_file_replay:
  assumes "log_lawful k" "file_ok k b n version stale new" "replayed b after n xs st"
    and "sc_raw_last_event_id st = None"
  shows "\<exists>st'. scan_frames k False c False b st (frames_of k c (stale @ new)) = Some (Inr st')
    \<and> (if replay_fits (xs @ wanted after new)
       then replayed b after (n + length new) (xs @ wanted after new) st' else sc_limited st')"
proof -
  have ok: "serializable k stale" "serializable k new" "file_events b n stale new"
    using assms(2) by (simp_all add: file_ok_def)
  obtain st1 where st1: "scan_frames k False c False b st (frames_of k c stale @ frames_of k c new)
      = scan_frames k False c False b st1 (frames_of k c new)" "replayed b after n xs st1"
  proof (cases "stale = []")
    case True
    then show ?thesis using that [of st] assms(3) by simp
  next
    case False
    then have n: "n = b" using ok(3) by (simp add: file_events_def)
    obtain raw first where *: "scan_frames k False c False b st (frames_of k c stale @ frames_of k c new)
        = scan_frames k False c False b (st\<lparr>sc_raw_last_event_id := raw, sc_first_event_id := first,
            sc_offset := sc_offset st + length (frames_of k c stale)\<rparr>) (frames_of k c new)"
        "\<forall>p. raw = Some p \<longrightarrow> p \<le> b"
      using scan_stale [OF assms(1) ok(1), of b st False c False "frames_of k c new"] assms(3,4) ok(3) n
      by (auto simp: file_events_def replayed_def)
    then show ?thesis
      using that [OF *(1)] assms(3) n by (simp add: replayed_def scan_at_def)
  qed
  have "map ev_id new = [Suc n..<Suc (n + length new)]" "n + length new \<le> u64_max"
    using ok(3) by (simp_all add: file_events_def del: upt_Suc)
  from scan_replay [OF assms(1) ok(2) st1(2) this, of False c "[]"]
  show ?thesis
    using st1(1) scan_end [OF clean_end_Nil, of k False c False b] by (auto split: if_splits)
qed

lemma load_file_replay:
  assumes "log_lawful k" "file_ok k b n version stale new" "replayed b after n xs st"
  shows "\<exists>f st'. load_event_log k False False b st (log_file k version (stale @ new)) = Some (Inr (f, st'))
    \<and> (if replay_fits (xs @ wanted after new)
       then replayed b after (n + length new) (xs @ wanted after new) st' else sc_limited st')"
proof -
  let ?c = "version = EVENT_LOG_VERSION"
  let ?st = "st\<lparr>sc_offset := 9, sc_raw_last_event_id := None, sc_first_event_id := None,
    sc_limited := False\<rparr>"
  have "replayed b after n xs ?st" using assms(3) by (simp add: replayed_def scan_at_def)
  then obtain st' where st': "scan_frames k False ?c False b ?st (frames_of k ?c (stale @ new)) = Some (Inr st')"
      "if replay_fits (xs @ wanted after new)
       then replayed b after (n + length new) (xs @ wanted after new) st' else sc_limited st'"
    using scan_file_replay [OF assms(1,2), of after xs ?st ?c] by auto
  have hdr: "load_header False (log_file k version (stale @ new))
      = Inr (log_file k version (stale @ new), ?c)"
    and len: "length (log_file k version (stale @ new)) \<le> EVENT_LOG_MAX_BYTES"
    using assms(2) load_header_log [of version False] by (auto simp: file_ok_def log_file_def)
  have body: "drop 9 (log_file k version (stale @ new)) = frames_of k ?c (stale @ new)"
    by (simp add: log_file_def)
  show ?thesis
    unfolding load_event_log_def hdr sum.case prod.case body st'(1) option.case
    using len st'(2) by (auto simp: Let_def)
qed

lemma load_segments_replay:
  assumes "segments_ok k b n segs" "log_lawful k" "replayed b after n xs st"
  shows "\<exists>st'. load_segments k False b st (map (segment_file k) segs) = Some (Inr st')
    \<and> (if replay_fits (xs @ wanted after (segments_new segs))
       then replayed b after (n + length (segments_new segs)) (xs @ wanted after (segments_new segs)) st'
       else sc_limited st')"
  using assms
proof (induction k b n segs arbitrary: st xs rule: segments_ok.induct)
  case (1 k b n)
  then show ?case by (auto simp: replayed_def replay_ok_def replay_fits_def)
next
  case (2 k b n first version stale new segs)
  let ?xs = "xs @ wanted after new"
  have ok: "file_ok k b n version stale new" "segments_ok k b (n + length new) segs"
    using "2.prems"(1) by simp_all
  obtain f st1 where st1: "load_event_log k False False b st (log_file k version (stale @ new)) = Some (Inr (f, st1))"
      "if replay_fits ?xs then replayed b after (n + length new) ?xs st1 else sc_limited st1"
    using load_file_replay [OF "2.prems"(2) ok(1) "2.prems"(3)] by blast
  show ?case
  proof (cases "replay_fits ?xs")
    case True
    then have "replayed b after (n + length new) ?xs st1" "\<not> sc_limited st1"
      using st1(2) by (auto simp: replayed_def)
    then show ?thesis
      using "2.IH" [OF ok(2) "2.prems"(2)] st1(1) by (fastforce simp: segment_file_def add.assoc)
  next
    case False
    then have "\<not> replay_fits (?xs @ wanted after (segments_new segs))"
      using replay_fits_append by blast
    then show ?thesis using st1 False by (simp add: segment_file_def)
  qed
qed

lemma read_events_since_eq:
  assumes "log_lawful k" "disk_holds k d sealed recent"
  shows "read_events_since k after d = Some (Inr
    (if after < dk_snapshot_boundary d then Some []
     else if replay_fits (wanted after (sealed @ recent)) then Some (wanted after (sealed @ recent))
     else None))"
proof (cases "after < dk_snapshot_boundary d")
  case True
  then show ?thesis by (simp add: read_events_since_def)
next
  case False
  let ?b = "dk_snapshot_boundary d"
  let ?st = "start_scan (default_loaded\<lparr>ls_next_id := ?b\<rparr>) (Some (replay_new after))"
  obtain segs version stale where h: "dk_segments d = map (segment_file k) segs"
      "sealed = segments_new segs" "segments_ok k ?b ?b segs"
      "ef_bytes (dk_active d) = log_file k version (stale @ recent)"
      "file_ok k ?b (?b + length sealed) version stale recent"
    using assms(2) unfolding disk_holds_def by blast
  have "replayed ?b after ?b [] ?st"
    by (simp add: replayed_def scan_at_def start_scan_def) (simp add: replay_new_def)
  from load_segments_replay [OF h(3) assms(1) this]
  obtain st1 where st1: "load_segments k False ?b ?st (dk_segments d) = Some (Inr st1)"
      "if replay_fits (wanted after sealed)
       then replayed ?b after (?b + length sealed) (wanted after sealed) st1 else sc_limited st1"
    unfolding append_Nil h(1,2) by blast
  show ?thesis
  proof (cases "replay_fits (wanted after sealed)")
    case True
    then have r: "replayed ?b after (?b + length sealed) (wanted after sealed) st1" using st1(2) by simp
    obtain f st2 where "load_event_log k False False ?b st1 (ef_bytes (dk_active d)) = Some (Inr (f, st2))"
        "if replay_fits (wanted after (sealed @ recent))
         then replayed ?b after (?b + length sealed + length recent) (wanted after (sealed @ recent)) st2
         else sc_limited st2"
      using load_file_replay [OF assms(1) h(5) r] unfolding h(4) wanted_simps by blast
    then show ?thesis
      using st1(1) r False by (auto simp: read_events_since_def Let_def replayed_def)
  next
    case no: False
    then have "\<not> replay_fits (wanted after (sealed @ recent))"
      using replay_fits_append by (metis wanted_simps(2))
    then show ?thesis
      using st1 no False by (simp add: read_events_since_def Let_def)
  qed
qed

text \<open>Claim C32. Replay from the log returns exactly the durable events after the cursor, in
  order and across all rotated segments; it gives up only when they exceed the replay
  limits, and a cursor before the snapshot boundary reads nothing.\<close>

theorem read_events_since_exact:
  assumes "log_lawful k" "disk_holds k d sealed recent"
  shows "read_events_since k after d = Some (Inr
    (if after < dk_snapshot_boundary d then Some []
     else if replay_fits (wanted after (sealed @ recent)) then Some (wanted after (sealed @ recent))
     else None))"
  by (rule read_events_since_eq [OF assms])

theorem read_events_since_exact_witness:
  "read_events_since demo_log_codec 1 demo_disk = Some (Inr (Some [demo_event 2]))
    \<and> read_events_since demo_log_codec 2 demo_disk = Some (Inr (Some []))"
proof -
  have small: "replay_fits (wanted n ([demo_event 1] @ [demo_event 2]))" for n
    by (simp add: replay_fits_def demo_event_def event_approx_bytes_def event_variable_bytes_def
        saturating_add_def u64_max_def consts_simps)
  have "wanted 1 ([demo_event 1] @ [demo_event 2]) = [demo_event 2]"
      "wanted 2 ([demo_event 1] @ [demo_event 2]) = []" "dk_snapshot_boundary demo_disk = 0"
    by (simp_all add: demo_event_def demo_disk_def)
  then show ?thesis
    using small [of 1] small [of 2]
      read_events_since_exact [OF demo_log_codec_lawful demo_disk_holds, of 1]
      read_events_since_exact [OF demo_log_codec_lawful demo_disk_holds, of 2]
    by (simp del: One_nat_def wanted_simps append.simps)
qed

end
