(* ===== verification/Session_Files.thy ===== *)
theory Session_Files
  imports Log_Replay
begin

text \<open>
  The sidecar files of a session directory and the complete restart
  (\<open>read_snapshot_file\<close>, \<open>write_snapshot_file\<close>, \<open>read_event_consumers_file\<close>,
  \<open>SessionDisk::persist_event_consumers\<close> and \<open>SessionDisk::open\<close> in
  \<open>crates/asp-server/src/main.rs\<close>).  A file that does not exist is \<open>None\<close>;
  \<open>write_atomic_file\<close> publishes the whole content or leaves the old one.
\<close>

datatype session_error =
    StateFileTooLarge
  | UnsupportedStateFormat
  | UnsupportedStateVersion u16
  | InvalidStateLength
  | StateChecksumMismatch
  | StateUndecodable
  | StateNotSerializable
  | StateExceedsFrameLimit
  | StateWriteFailed
  | TooManyEventConsumers
  | InvalidEventConsumerId
  | SnapshotSessionMismatch
  | ConsumerBeyondHead
  | LogFailure log_error
  | CursorAheadOfJournal
  | EventConsumerCapacity
  | ProcessSlotsExhausted
  | SubscriptionsExhausted
  | IdempotencyCapacity

definition SNAPSHOT_MAGIC :: bytes where
  "SNAPSHOT_MAGIC = [0x41, 0x53, 0x50, 0x53, 0x4E, 0x41, 0x50, 0]"

definition SNAPSHOT_VERSION :: u16 where
  "SNAPSHOT_VERSION = 1"

definition EVENT_CONSUMER_STATE_MAGIC :: bytes where
  "EVENT_CONSUMER_STATE_MAGIC = [0x41, 0x53, 0x50, 0x43, 0x4F, 0x4E, 0x53, 0]"

definition EVENT_CONSUMER_STATE_VERSION :: u16 where
  "EVENT_CONSUMER_STATE_VERSION = 1"

definition MAX_EVENT_CONSUMER_STATE_BYTES :: u64 where [consts_simps]:
  "MAX_EVENT_CONSUMER_STATE_BYTES = 4194304"

definition MAX_EVENT_CONSUMERS_PER_SESSION :: usize where [consts_simps]:
  "MAX_EVENT_CONSUMERS_PER_SESSION = 1024"

definition MAX_EVENT_CONSUMER_ID_BYTES :: usize where [consts_simps]:
  "MAX_EVENT_CONSUMER_ID_BYTES = 128"

section \<open>The checked container both files share\<close>

definition checked_file :: "(bytes \<Rightarrow> nat) \<Rightarrow> bytes \<Rightarrow> u16 \<Rightarrow> bytes \<Rightarrow> bytes" where
  "checked_file crc magic version payload =
     magic @ be_bytes 2 version @ be_bytes 4 (length payload) @ be_bytes 4 (crc payload) @ payload"

definition read_checked_file ::
    "(bytes \<Rightarrow> nat) \<Rightarrow> bytes \<Rightarrow> u16 \<Rightarrow> u64 \<Rightarrow> nat \<Rightarrow> bytes \<Rightarrow> session_error + bytes" where
  "read_checked_file crc magic version maximum max_payload file =
     (if maximum < length file then Inl StateFileTooLarge
      else
      let cursor = length magic; header_len = cursor + 10 in
      if length file < header_len \<or> take cursor file \<noteq> magic then Inl UnsupportedStateFormat
      else
      let found = be_nat (slice cursor (cursor + 2) file) in
      if found \<noteq> version then Inl (UnsupportedStateVersion found)
      else
      let len = be_nat (slice (cursor + 2) (cursor + 6) file);
          expected_crc = be_nat (slice (cursor + 6) (cursor + 10) file) in
      if max_payload < len \<or> length file \<noteq> saturating_add header_len len then Inl InvalidStateLength
      else
      let payload = drop header_len file in
      if crc payload \<noteq> expected_crc then Inl StateChecksumMismatch else Inr payload)"

lemma checked_file_parts:
  assumes "length payload \<le> u32_max" "crc payload \<le> u32_max" "version \<le> u16_max"
  shows "be_nat (slice (length magic) (length magic + 2) (checked_file crc magic version payload)) = version"
    "be_nat (slice (length magic + 2) (length magic + 6) (checked_file crc magic version payload)) = length payload"
    "be_nat (slice (length magic + 6) (length magic + 10) (checked_file crc magic version payload)) = crc payload"
    "drop (length magic + 10) (checked_file crc magic version payload) = payload"
    "length (checked_file crc magic version payload) = length magic + 10 + length payload"
proof -
  have n: "length payload < 256 ^ 4" "crc payload < 256 ^ 4" "version < 256 ^ 2"
    using assms by (simp_all add: int_bounds)
  show "be_nat (slice (length magic) (length magic + 2) (checked_file crc magic version payload)) = version"
    using n(3) by (simp add: checked_file_def slice_def)
  show "be_nat (slice (length magic + 2) (length magic + 6) (checked_file crc magic version payload)) = length payload"
    using n(1) by (simp add: checked_file_def slice_def)
  show "be_nat (slice (length magic + 6) (length magic + 10) (checked_file crc magic version payload)) = crc payload"
    using n(2) by (simp add: checked_file_def slice_def)
qed (simp_all add: checked_file_def)

lemma read_checked_file_written:
  assumes "length payload \<le> u32_max" "crc payload \<le> u32_max" "version \<le> u16_max" "length magic = 8"
  shows "read_checked_file crc magic version maximum max_payload (checked_file crc magic version payload)
    = (if maximum < 18 + length payload then Inl StateFileTooLarge
       else if max_payload < length payload then Inl InvalidStateLength
       else Inr payload)"
proof -
  note parts = checked_file_parts [of payload crc version magic, OF assms(1-3), unfolded assms(4)]
  have "take 8 (checked_file crc magic version payload) = magic"
    using assms(4) by (simp add: checked_file_def)
  moreover have "saturating_add 18 (length payload) = 18 + length payload"
    using assms(1) by (simp add: saturating_add_def int_bounds)
  ultimately show ?thesis
    unfolding read_checked_file_def Let_def assms(4) parts by (simp add: parts)
qed

text \<open>Whatever the reader accepts is a file the writer would produce.\<close>

lemma read_checked_file_Inr:
  assumes "read_checked_file crc magic version maximum max_payload file = Inr payload"
    and "length magic = 8"
  shows "file = checked_file crc magic version payload \<and> length payload \<le> max_payload"
proof -
  let ?len = "slice 10 14 file" and ?crc = "slice 14 18 file" and ?version = "slice 8 10 file"
  have ok: "18 \<le> length file" "take 8 file = magic" "be_nat ?version = version"
      "be_nat ?len \<le> max_payload" "length file = saturating_add 18 (be_nat ?len)"
      "crc payload = be_nat ?crc" "payload = drop 18 file"
    using assms(1) unfolding read_checked_file_def Let_def assms(2)
    by (simp_all del: slice_to_end split: if_splits)
  have lens: "length ?version = 2" "length ?len = 4" "length ?crc = 4" using ok(1) by simp_all
  have bytes: "be_bytes 2 version = ?version" "be_bytes 4 (be_nat ?len) = ?len"
      "be_bytes 4 (crc payload) = ?crc"
    using be_bytes_be_nat [of ?version] be_bytes_be_nat [of ?len] be_bytes_be_nat [of ?crc]
    by (simp_all only: lens ok(3,6))
  have "be_nat ?len < 256 ^ 4" using be_nat_bound [of ?len] by (simp only: lens)
  then have len: "length payload = be_nat ?len"
    using ok(5) unfolding ok(7) by (simp add: saturating_add_def u64_max_def del: slice_to_end)
  have "take 8 file @ ?version @ ?len @ ?crc @ drop 18 file = file"
    by (simp only: slice_append_drop append_take_drop_id numeral_le_iff semiring_norm)
  then have "file = take 8 file @ ?version @ ?len @ ?crc @ drop 18 file" by (rule sym)
  also have "\<dots> = checked_file crc magic version payload"
    by (simp only: checked_file_def ok(2) bytes(1) len bytes(2) bytes(3) ok(7) [symmetric])
  finally show ?thesis using ok(4) len by simp
qed

section \<open>Snapshot\<close>

type_synonym 'a serde = "('a \<Rightarrow> bytes option) \<times> (bytes \<Rightarrow> 'a option)"

definition write_snapshot_file ::
    "(bytes \<Rightarrow> nat) \<Rightarrow> session_snapshot_data serde \<Rightarrow> bool \<Rightarrow> session_snapshot_data
       \<Rightarrow> bytes option \<Rightarrow> bytes option \<times> (session_error + unit)" where
  "write_snapshot_file crc sd io_ok snapshot old =
     (case fst sd snapshot of
        None \<Rightarrow> (old, Inl StateNotSerializable)
      | Some payload \<Rightarrow>
          if u32_max < length payload then (old, Inl StateExceedsFrameLimit)
          else if \<not> io_ok then (old, Inl StateWriteFailed)
          else (Some (checked_file crc SNAPSHOT_MAGIC SNAPSHOT_VERSION payload), Inr ()))"

definition read_snapshot_file ::
    "(bytes \<Rightarrow> nat) \<Rightarrow> session_snapshot_data serde \<Rightarrow> bytes option
       \<Rightarrow> session_error + session_snapshot_data option" where
  "read_snapshot_file crc sd file =
     (case file of
        None \<Rightarrow> Inr None
      | Some file \<Rightarrow>
          and_then (read_checked_file crc SNAPSHOT_MAGIC SNAPSHOT_VERSION (18 + MAX_FRAME_BYTES)
                      MAX_FRAME_BYTES file)
            (\<lambda>payload. and_then (ok_or StateUndecodable (snd sd payload)) (\<lambda>s. Inr (Some s))))"

section \<open>Event consumers\<close>

type_synonym consumers = "(string, event_consumer) fmap"

definition validate_event_consumer_id :: "string \<Rightarrow> session_error + unit" where
  "validate_event_consumer_id cid =
     (if cid = [] \<or> MAX_EVENT_CONSUMER_ID_BYTES < length cid
         \<or> list_ex (\<lambda>c. is_whitespace c \<or> is_control c) (str_chars cid)
      then Inl InvalidEventConsumerId else Inr ())"

definition valid_consumers :: "consumers \<Rightarrow> bool" where
  "valid_consumers cs \<longleftrightarrow> fmsize cs \<le> MAX_EVENT_CONSUMERS_PER_SESSION
     \<and> fBall (fmdom cs) (\<lambda>cid. validate_event_consumer_id cid = Inr ())"

definition persist_event_consumers ::
    "(bytes \<Rightarrow> nat) \<Rightarrow> consumers serde \<Rightarrow> bool \<Rightarrow> consumers \<Rightarrow> bytes option
       \<Rightarrow> bytes option \<times> (session_error + unit)" where
  "persist_event_consumers crc cd io_ok cs old =
     (if MAX_EVENT_CONSUMERS_PER_SESSION < fmsize cs then (old, Inl TooManyEventConsumers)
      else if \<not> fBall (fmdom cs) (\<lambda>cid. validate_event_consumer_id cid = Inr ())
      then (old, Inl InvalidEventConsumerId)
      else case fst cd cs of
        None \<Rightarrow> (old, Inl StateNotSerializable)
      | Some payload \<Rightarrow>
          if u32_max < length payload then (old, Inl StateExceedsFrameLimit)
          else
          let file = checked_file crc EVENT_CONSUMER_STATE_MAGIC EVENT_CONSUMER_STATE_VERSION payload in
          if MAX_EVENT_CONSUMER_STATE_BYTES < length file then (old, Inl StateFileTooLarge)
          else if \<not> io_ok then (old, Inl StateWriteFailed)
          else (Some file, Inr ()))"

definition read_event_consumers_file ::
    "(bytes \<Rightarrow> nat) \<Rightarrow> consumers serde \<Rightarrow> bytes option \<Rightarrow> session_error + consumers" where
  "read_event_consumers_file crc cd file =
     (case file of
        None \<Rightarrow> Inr fmempty
      | Some file \<Rightarrow>
          and_then (read_checked_file crc EVENT_CONSUMER_STATE_MAGIC EVENT_CONSUMER_STATE_VERSION
                      MAX_EVENT_CONSUMER_STATE_BYTES MAX_EVENT_CONSUMER_STATE_BYTES file)
            (\<lambda>payload. and_then (ok_or StateUndecodable (snd cd payload)) (\<lambda>cs.
               if MAX_EVENT_CONSUMERS_PER_SESSION < fmsize cs then Inl TooManyEventConsumers
               else if \<not> fBall (fmdom cs) (\<lambda>cid. validate_event_consumer_id cid = Inr ())
               then Inl InvalidEventConsumerId
               else Inr cs)))"

section \<open>The complete restart\<close>

record session_codec =
  sx_log :: log_codec
  sx_snapshot :: "session_snapshot_data serde"
  sx_consumers :: "consumers serde"

record session_files =
  sf_snapshot :: "bytes option"
  sf_segments :: "(u64 \<times> bytes) list"
  sf_active :: bytes
  sf_consumers :: "bytes option"

definition session_open ::
    "session_codec \<Rightarrow> uuid option \<Rightarrow> session_files
       \<Rightarrow> (session_error + (session_disk \<times> loaded_session)) option" where
  "session_open x expected_id files =
     (case read_snapshot_file (lc_crc (sx_log x)) (sx_snapshot x) (sf_snapshot files) of
        Inl e \<Rightarrow> Some (Inl e)
      | Inr snapshot \<Rightarrow>
      if (case (snapshot, expected_id) of
            (Some s, Some cid) \<Rightarrow> sd_session_id s \<noteq> cid | _ \<Rightarrow> False)
      then Some (Inl SnapshotSessionMismatch)
      else case disk_open (sx_log x) snapshot (sf_segments files) (sf_active files) of
        None \<Rightarrow> None
      | Some (Inl e) \<Rightarrow> Some (Inl (LogFailure e))
      | Some (Inr (d, l)) \<Rightarrow>
      (case read_event_consumers_file (lc_crc (sx_log x)) (sx_consumers x) (sf_consumers files) of
         Inl e \<Rightarrow> Some (Inl e)
       | Inr cs \<Rightarrow>
           if fmany (\<lambda>_ c. ls_next_id l < ec_acknowledged_event_id c) cs
           then Some (Inl ConsumerBeyondHead)
           else Some (Inr (d, l\<lparr>ls_event_consumers := cs\<rparr>))))"

section \<open>Round trips\<close>

definition session_lawful :: "session_codec \<Rightarrow> bool" where
  "session_lawful x \<longleftrightarrow> log_lawful (sx_log x)
     \<and> postcard_law (fst (sx_snapshot x)) (snd (sx_snapshot x))
     \<and> postcard_law (fst (sx_consumers x)) (snd (sx_consumers x))"

lemma session_lawfulD:
  assumes "session_lawful x"
  shows "log_lawful (sx_log x)" "lc_crc (sx_log x) b \<le> u32_max"
    "fst (sx_snapshot x) s = Some b \<Longrightarrow> snd (sx_snapshot x) b = Some s"
    "fst (sx_consumers x) c = Some b \<Longrightarrow> snd (sx_consumers x) b = Some c"
  using assms by (auto simp: session_lawful_def log_lawful_def postcard_law_def)

lemma sidecar_magic:
  "length SNAPSHOT_MAGIC = 8" "length EVENT_CONSUMER_STATE_MAGIC = 8"
  "SNAPSHOT_VERSION \<le> u16_max" "EVENT_CONSUMER_STATE_VERSION \<le> u16_max"
  by (simp_all add: SNAPSHOT_MAGIC_def EVENT_CONSUMER_STATE_MAGIC_def SNAPSHOT_VERSION_def
      EVENT_CONSUMER_STATE_VERSION_def int_bounds)

lemma snapshot_written:
  assumes "session_lawful x"
    and "write_snapshot_file (lc_crc (sx_log x)) (sx_snapshot x) io_ok s old = (new, Inr ())"
  shows "\<exists>payload. fst (sx_snapshot x) s = Some payload \<and> length payload \<le> u32_max
    \<and> read_snapshot_file (lc_crc (sx_log x)) (sx_snapshot x) new
      = (if MAX_FRAME_BYTES < length payload then Inl StateFileTooLarge else Inr (Some s))"
proof -
  obtain payload where p: "fst (sx_snapshot x) s = Some payload" "length payload \<le> u32_max"
      "new = Some (checked_file (lc_crc (sx_log x)) SNAPSHOT_MAGIC SNAPSHOT_VERSION payload)"
    using assms(2) by (auto simp: write_snapshot_file_def split: option.splits if_splits)
  show ?thesis
    using p session_lawfulD [OF assms(1)] sidecar_magic
      read_checked_file_written [of payload "lc_crc (sx_log x)" SNAPSHOT_VERSION SNAPSHOT_MAGIC]
    by (auto simp: read_snapshot_file_def)
qed

lemma consumers_written:
  assumes "session_lawful x"
    and "persist_event_consumers (lc_crc (sx_log x)) (sx_consumers x) io_ok cs old = (new, Inr ())"
  shows "read_event_consumers_file (lc_crc (sx_log x)) (sx_consumers x) new = Inr cs"
proof -
  obtain payload where p: "fst (sx_consumers x) cs = Some payload" "length payload \<le> u32_max"
      "new = Some (checked_file (lc_crc (sx_log x)) EVENT_CONSUMER_STATE_MAGIC
         EVENT_CONSUMER_STATE_VERSION payload)"
      "18 + length payload \<le> MAX_EVENT_CONSUMER_STATE_BYTES"
      "fmsize cs \<le> MAX_EVENT_CONSUMERS_PER_SESSION"
      "fBall (fmdom cs) (\<lambda>cid. validate_event_consumer_id cid = Inr ())"
    using assms(2) sidecar_magic
    by (auto simp: persist_event_consumers_def Let_def checked_file_def split: option.splits if_splits)
  show ?thesis
    using p session_lawfulD [OF assms(1)] sidecar_magic
      read_checked_file_written [of payload "lc_crc (sx_log x)" EVENT_CONSUMER_STATE_VERSION
        EVENT_CONSUMER_STATE_MAGIC]
    by (simp add: read_event_consumers_file_def)
qed

lemma persist_failed:
  "persist_event_consumers crc cd io_ok cs old = (new, Inl e) \<Longrightarrow> new = old"
  by (auto simp: persist_event_consumers_def Let_def split: option.splits if_splits)

lemma session_open_recovers:
  assumes "session_lawful x" "disk_holds (sx_log x) d sealed recent"
    and "read_snapshot_file (lc_crc (sx_log x)) (sx_snapshot x) snap = Inr snapshot"
    and "\<forall>s. snapshot = Some s \<longrightarrow> sd_session_id s = sid"
    and "ls_next_id (snapshot_base (sx_log x) snapshot) = dk_snapshot_boundary d"
    and "read_event_consumers_file (lc_crc (sx_log x)) (sx_consumers x) sidecar = Inr cs"
  shows "\<exists>m d' l. m \<le> length recent \<and> (length (ef_bytes (dk_active d)) \<le> n \<longrightarrow> m = length recent)
    \<and> (n \<le> 9 \<longrightarrow> m = 0) \<and> disk_holds (sx_log x) d' sealed (take m recent)
    \<and> recovered (sx_log x) (snapshot_base (sx_log x) snapshot) (sealed @ take m recent) l
    \<and> session_open x (Some sid) \<lparr>sf_snapshot = snap, sf_segments = dk_segments d,
          sf_active = take n (ef_bytes (dk_active d)), sf_consumers = sidecar\<rparr>
      = Some (if \<exists>cid c. fmlookup cs cid = Some c
                  \<and> dk_snapshot_boundary d + length sealed + m < ec_acknowledged_event_id c
              then Inl ConsumerBeyondHead else Inr (d', l\<lparr>ls_event_consumers := cs\<rparr>))"
proof -
  obtain m d' l where r: "disk_open (sx_log x) snapshot (dk_segments d) (take n (ef_bytes (dk_active d)))
      = Some (Inr (d', l))" "m \<le> length recent" "length (ef_bytes (dk_active d)) \<le> n \<longrightarrow> m = length recent"
      "n \<le> 9 \<longrightarrow> m = 0" "disk_holds (sx_log x) d' sealed (take m recent)"
      "recovered (sx_log x) (snapshot_base (sx_log x) snapshot) (sealed @ take m recent) l"
    using open_recovers [OF session_lawfulD(1) [OF assms(1)] assms(2,5), of n] by blast
  have "ls_next_id l = dk_snapshot_boundary d + length sealed + m"
    using r(2,6) assms(5) by (simp add: recovered_def)
  then show ?thesis
    using r assms(3,4,6)
    by (intro exI [of _ m] exI [of _ d'] exI [of _ l])
       (auto simp: session_open_def fmany_iff split: option.splits)
qed

section \<open>Properties\<close>

text \<open>Claim C4. A complete restart, from the bytes of the snapshot, the log files with the
  active log cut anywhere, and the consumer sidecar: it succeeds with the state of the
  durable prefix and the persisted acknowledgements exactly when no acknowledgement lies
  beyond the recovered head; otherwise it refuses to open the session.\<close>

theorem session_restart:
  assumes "session_lawful x" "disk_holds (sx_log x) d sealed recent"
    and "read_snapshot_file (lc_crc (sx_log x)) (sx_snapshot x) snap = Inr snapshot"
    and "\<forall>s. snapshot = Some s \<longrightarrow> sd_session_id s = sid"
    and "ls_next_id (snapshot_base (sx_log x) snapshot) = dk_snapshot_boundary d"
    and "persist_event_consumers (lc_crc (sx_log x)) (sx_consumers x) io_ok cs old = (sidecar, Inr ())"
  shows "\<exists>m d' l. m \<le> length recent \<and> (length (ef_bytes (dk_active d)) \<le> n \<longrightarrow> m = length recent)
    \<and> disk_holds (sx_log x) d' sealed (take m recent)
    \<and> recovered (sx_log x) (snapshot_base (sx_log x) snapshot) (sealed @ take m recent) l
    \<and> session_open x (Some sid) \<lparr>sf_snapshot = snap, sf_segments = dk_segments d,
          sf_active = take n (ef_bytes (dk_active d)), sf_consumers = sidecar\<rparr>
      = Some (if \<exists>cid c. fmlookup cs cid = Some c
                  \<and> dk_snapshot_boundary d + length sealed + m < ec_acknowledged_event_id c
              then Inl ConsumerBeyondHead else Inr (d', l\<lparr>ls_event_consumers := cs\<rparr>))"
  using session_open_recovers [OF assms(1-5) consumers_written [OF assms(1,6)], of n] by blast

definition demo_consumers :: consumers where
  "demo_consumers = fmupd ''agent'' \<lparr>ec_acknowledged_event_id = 2, ec_last_seen_unix_ms = 5000\<rparr> fmempty"

definition demo_session_codec :: session_codec where
  "demo_session_codec = \<lparr>sx_log = demo_log_codec, sx_snapshot = (\<lambda>_. None, \<lambda>_. None),
     sx_consumers = (\<lambda>cs. if cs = demo_consumers then Some [] else None, \<lambda>_. Some demo_consumers)\<rparr>"

lemma demo_session_codec_lawful: "session_lawful demo_session_codec"
  using demo_log_codec_lawful
  by (auto simp: session_lawful_def demo_session_codec_def postcard_law_def split: if_splits)

lemma demo_consumers_persisted:
  "\<exists>file. persist_event_consumers (lc_crc (sx_log demo_session_codec)) (sx_consumers demo_session_codec)
     True demo_consumers None = (Some file, Inr ())"
proof -
  have "validate_event_consumer_id ''agent'' = Inr ()"
    by (simp add: validate_event_consumer_id_def byte_of_def is_whitespace_def is_control_def
        consts_simps Let_def)
  then show ?thesis
    by (simp add: persist_event_consumers_def demo_session_codec_def demo_consumers_def fmsize_upd
        checked_file_def EVENT_CONSUMER_STATE_MAGIC_def consts_simps int_bounds Let_def)
qed

lemma demo_base: "ls_next_id (snapshot_base (sx_log demo_session_codec) None) = dk_snapshot_boundary demo_disk"
  by (simp add: snapshot_base_def default_loaded_def demo_disk_def)

lemma demo_snapshot_absent:
  "read_snapshot_file (lc_crc (sx_log demo_session_codec)) (sx_snapshot demo_session_codec) None = Inr None"
  by (simp add: read_snapshot_file_def)

lemma demo_session_holds: "disk_holds (sx_log demo_session_codec) demo_disk [demo_event 1] [demo_event 2]"
  using demo_disk_holds by (simp add: demo_session_codec_def)

theorem session_restart_witness:
  "\<exists>sidecar d' l. session_open demo_session_codec (Some 7) \<lparr>sf_snapshot = None,
      sf_segments = dk_segments demo_disk, sf_active = ef_bytes (dk_active demo_disk),
      sf_consumers = Some sidecar\<rparr> = Some (Inr (d', l)) \<and> ls_next_id l = 2
      \<and> ls_event_consumers l = demo_consumers"
proof -
  obtain f where f: "persist_event_consumers (lc_crc (sx_log demo_session_codec))
      (sx_consumers demo_session_codec) True demo_consumers None = (Some f, Inr ())"
    using demo_consumers_persisted by blast
  let ?n = "length (ef_bytes (dk_active demo_disk))"
  have b: "dk_snapshot_boundary demo_disk = 0" by (simp add: demo_disk_def)
  have ack: "fmlookup demo_consumers cid = Some c \<longrightarrow> ec_acknowledged_event_id c \<le> 2" for cid c
    by (auto simp: demo_consumers_def split: if_splits)
  obtain m d' l where h: "length (ef_bytes (dk_active demo_disk)) \<le> ?n \<longrightarrow> m = length [demo_event 2]"
      "recovered (sx_log demo_session_codec) (snapshot_base (sx_log demo_session_codec) None)
        ([demo_event 1] @ take m [demo_event 2]) l"
      "session_open demo_session_codec (Some 7) \<lparr>sf_snapshot = None, sf_segments = dk_segments demo_disk,
          sf_active = take ?n (ef_bytes (dk_active demo_disk)), sf_consumers = Some f\<rparr>
        = Some (if \<exists>cid c. fmlookup demo_consumers cid = Some c
              \<and> dk_snapshot_boundary demo_disk + length [demo_event 1] + m < ec_acknowledged_event_id c
            then Inl ConsumerBeyondHead else Inr (d', l\<lparr>ls_event_consumers := demo_consumers\<rparr>))"
    using session_restart [OF demo_session_codec_lawful demo_session_holds demo_snapshot_absent _ demo_base f,
        of 7 ?n] by blast
  have m: "m = 1" using h(1) by simp
  have "\<not> (\<exists>cid c. fmlookup demo_consumers cid = Some c
      \<and> dk_snapshot_boundary demo_disk + length [demo_event 1] + m < ec_acknowledged_event_id c)"
    using ack by (fastforce simp: m b)
  then have "session_open demo_session_codec (Some 7) \<lparr>sf_snapshot = None,
      sf_segments = dk_segments demo_disk, sf_active = ef_bytes (dk_active demo_disk),
      sf_consumers = Some f\<rparr> = Some (Inr (d', l\<lparr>ls_event_consumers := demo_consumers\<rparr>))"
    using h(3) by simp
  moreover have "ls_next_id l = 2"
    using h(2) by (simp add: m recovered_def snapshot_base_def default_loaded_def)
  ultimately show ?thesis 
    by (intro exI [of _ f] exI [of _ d'] exI [of _ "l\<lparr>ls_event_consumers := demo_consumers\<rparr>"]) simp
qed


text \<open>Claim C6. A snapshot larger than a protocol frame is written without complaint and can never be
  read back; by then the compaction has discarded the log it replaces.\<close>

theorem oversized_snapshot_unreadable:
  assumes "session_lawful x" "fst (sx_snapshot x) s = Some payload"
    and "MAX_FRAME_BYTES < length payload" "length payload \<le> u32_max"
  shows "\<exists>file. write_snapshot_file (lc_crc (sx_log x)) (sx_snapshot x) True s old = (file, Inr ())
    \<and> read_snapshot_file (lc_crc (sx_log x)) (sx_snapshot x) file = Inl StateFileTooLarge"
proof -
  obtain f where "write_snapshot_file (lc_crc (sx_log x)) (sx_snapshot x) True s old = (f, Inr ())"
    using assms(2,4) by (simp add: write_snapshot_file_def)
  then show ?thesis using snapshot_written [OF assms(1)] assms(2,3) by fastforce
qed

theorem oversized_snapshot_unreadable_witness:
  "\<exists>x f. session_lawful x
    \<and> write_snapshot_file (lc_crc (sx_log x)) (sx_snapshot x) True demo_snapshot None = (f, Inr ())
    \<and> read_snapshot_file (lc_crc (sx_log x)) (sx_snapshot x) f = Inl StateFileTooLarge"
proof -
  let ?payload = "replicate (Suc MAX_FRAME_BYTES) (0 :: 8 word)"
  let ?x = "demo_session_codec\<lparr>sx_snapshot :=
    (\<lambda>s. if s = demo_snapshot then Some ?payload else None, \<lambda>_. Some demo_snapshot)\<rparr>"
  have x: "session_lawful ?x"
    using demo_session_codec_lawful
    by (auto simp: session_lawful_def postcard_law_def split: if_splits)
  have "\<exists>f. write_snapshot_file (lc_crc (sx_log ?x)) (sx_snapshot ?x) True demo_snapshot None = (f, Inr ())
      \<and> read_snapshot_file (lc_crc (sx_log ?x)) (sx_snapshot ?x) f = Inl StateFileTooLarge"
    by (rule oversized_snapshot_unreadable [OF x, of _ ?payload])
       (simp_all add: consts_simps int_bounds del: replicate.simps)
  then show ?thesis using x by blast
qed

end
