(* ===== verification/Paths.thy ===== *)
theory Paths
  imports Asp_Prelude "HOL-Library.Sublist"
begin

text \<open>
  Workspace paths (\<open>Session::resolve_path\<close>, \<open>resolve_existing_path\<close>,
  \<open>resolve_write_path\<close>, \<open>resolve_internal_path\<close>, \<open>workspace_event_path\<close> in
  \<open>crates/asp-server/src/main.rs\<close>).  A path is read the way \<open>std::path\<close> reads it on
  Unix; a file system with symbolic links gives \<open>canonicalize\<close>, \<open>exists\<close> and
  \<open>symlink_metadata\<close>, with the kernel's limit on followed links.
\<close>

section \<open>Components\<close>

datatype path_component = RootDir | CurDir | ParentDir | Normal string

fun split_slash :: "string \<Rightarrow> string list" where
  "split_slash [] = [[]]"
| "split_slash (c # cs) =
     (if c = CHR ''/'' then [] # split_slash cs
      else (case split_slash cs of [] \<Rightarrow> [[c]] | w # ws \<Rightarrow> (c # w) # ws))"

definition is_absolute :: "string \<Rightarrow> bool" where
  "is_absolute path \<longleftrightarrow> (case path of [] \<Rightarrow> False | c # _ \<Rightarrow> c = CHR ''/'')"

definition name_component :: "string \<Rightarrow> path_component" where
  "name_component w = (if w = ''..'' then ParentDir else Normal w)"

definition path_names :: "string \<Rightarrow> string list" where
  "path_names path = filter (\<lambda>w. w \<noteq> [] \<and> w \<noteq> ''.'') (split_slash path)"

definition path_components :: "string \<Rightarrow> path_component list" where
  "path_components path =
     (if is_absolute path then [RootDir]
      else if hd (split_slash path) = ''.'' then [CurDir] else [])
     @ map name_component (path_names path)"

type_synonym path_key = "string list"

definition join_slash :: "path_key \<Rightarrow> string" where
  "join_slash names = (case names of [] \<Rightarrow> [] | w # ws \<Rightarrow> w @ concat (map (\<lambda>v. CHR ''/'' # v) ws))"

definition escapes :: "path_component \<Rightarrow> bool" where
  "escapes c \<longleftrightarrow> c = ParentDir \<or> c = RootDir"

definition reserved :: "path_component \<Rightarrow> bool" where
  "reserved c \<longleftrightarrow> c = Normal ''.asp''"

section \<open>Resolving request paths\<close>

datatype path_error =
    PathLengthOrNul
  | PathNotRelative
  | PathReserved
  | PathNotFound
  | PathEscapesRoot
  | PathNoExistingParent
  | PathIsSymlink

definition PATH_MAX_BYTES :: usize where [consts_simps]:
  "PATH_MAX_BYTES = 4096"

definition bad_length_or_nul :: "string \<Rightarrow> bool" where
  "bad_length_or_nul path \<longleftrightarrow> path = [] \<or> PATH_MAX_BYTES < length path \<or> CHR 0x00 \<in> set path"

definition resolve_path :: "path_key \<Rightarrow> string \<Rightarrow> path_error + path_key" where
  "resolve_path root path =
     (if bad_length_or_nul path then Inl PathLengthOrNul
      else if is_absolute path \<or> list_ex escapes (path_components path) then Inl PathNotRelative
      else if list_ex reserved (path_components path) then Inl PathReserved
      else Inr (root @ path_names path))"

definition workspace_event_path :: "path_key \<Rightarrow> string \<Rightarrow> path_key option" where
  "workspace_event_path root path =
     (if path = [] \<or> PATH_MAX_BYTES < length path then None
      else if is_absolute path
        \<or> list_ex (\<lambda>c. escapes c \<or> reserved c) (path_components path) then None
      else Some (root @ path_names path))"

section \<open>A file system with symbolic links\<close>

datatype fs_node = FileNode bytes | DirNode | LinkNode string

type_synonym file_system = "(path_key, fs_node) fmap"

function realpath ::
    "file_system \<Rightarrow> nat \<Rightarrow> path_key \<Rightarrow> path_component list \<Rightarrow> path_key option" where
  "realpath fs links cur [] = Some cur"
| "realpath fs links cur (CurDir # todo) = realpath fs links cur todo"
| "realpath fs links cur (RootDir # todo) = realpath fs links [] todo"
| "realpath fs links cur (ParentDir # todo) = realpath fs links (butlast cur) todo"
| "realpath fs links cur (Normal w # todo) =
     (case fmlookup fs (cur @ [w]) of
        None \<Rightarrow> None
      | Some (FileNode _) \<Rightarrow> if todo = [] then Some (cur @ [w]) else None
      | Some DirNode \<Rightarrow> realpath fs links (cur @ [w]) todo
      | Some (LinkNode target) \<Rightarrow>
          (case links of 0 \<Rightarrow> None
           | Suc links \<Rightarrow> realpath fs links cur (path_components target @ todo)))"
  by pat_completeness auto
termination
  by (relation "(\<lambda>(fs, links, cur, todo). links) <*mlex*> measure (\<lambda>(fs, links, cur, todo). length todo)")
     (auto simp: mlex_less mlex_leq wf_mlex)

definition MAX_FOLLOWED_LINKS :: nat where
  "MAX_FOLLOWED_LINKS = 40"

definition canonicalize :: "file_system \<Rightarrow> path_key \<Rightarrow> path_key option" where
  "canonicalize fs path = realpath fs MAX_FOLLOWED_LINKS [] (map Normal path)"

definition path_exists :: "file_system \<Rightarrow> path_key \<Rightarrow> bool" where
  "path_exists fs path \<longleftrightarrow> canonicalize fs path \<noteq> None"

text \<open>\<open>symlink_metadata\<close> resolves the parent and does not follow the last name.\<close>

definition symlink_metadata :: "file_system \<Rightarrow> path_key \<Rightarrow> fs_node option" where
  "symlink_metadata fs path =
     (if path = [] then Some DirNode
      else case canonicalize fs (butlast path) of
             None \<Rightarrow> None
           | Some parent \<Rightarrow> fmlookup fs (parent @ [last path]))"

definition reject_symlink :: "file_system \<Rightarrow> path_key \<Rightarrow> path_error + unit" where
  "reject_symlink fs path =
     (case symlink_metadata fs path of
        Some (LinkNode _) \<Rightarrow> Inl PathIsSymlink
      | _ \<Rightarrow> Inr ())"

function existing_ancestor :: "file_system \<Rightarrow> path_key \<Rightarrow> path_key option" where
  "existing_ancestor fs path =
     (if path_exists fs path then Some path
      else if path = [] then None else existing_ancestor fs (butlast path))"
  by pat_completeness auto
termination
  by (relation "measure (\<lambda>(fs, path). length path)") auto

declare existing_ancestor.simps [simp del]

definition resolve_existing_path ::
    "file_system \<Rightarrow> path_key \<Rightarrow> path_key \<Rightarrow> string \<Rightarrow> path_error + path_key" where
  "resolve_existing_path fs root canonical_root path =
     and_then (resolve_path root path) (\<lambda>p.
     and_then (ok_or PathNotFound (canonicalize fs p)) (\<lambda>canonical.
       if \<not> prefix canonical_root canonical then Inl PathEscapesRoot else Inr canonical))"

definition check_ancestor ::
    "file_system \<Rightarrow> path_key \<Rightarrow> path_key \<Rightarrow> path_error + path_key" where
  "check_ancestor fs canonical_root p =
     and_then (ok_or PathNoExistingParent (existing_ancestor fs p)) (\<lambda>ancestor.
     and_then (ok_or PathNotFound (canonicalize fs ancestor)) (\<lambda>canonical.
       if \<not> prefix canonical_root canonical then Inl PathEscapesRoot else Inr p))"

definition resolve_write_path ::
    "file_system \<Rightarrow> path_key \<Rightarrow> path_key \<Rightarrow> string \<Rightarrow> path_error + path_key" where
  "resolve_write_path fs root canonical_root path =
     and_then (resolve_path root path) (check_ancestor fs canonical_root)"

definition resolve_internal_path ::
    "file_system \<Rightarrow> path_key \<Rightarrow> path_key \<Rightarrow> string \<Rightarrow> path_error + path_key" where
  "resolve_internal_path fs root canonical_root path =
     (if bad_length_or_nul path then Inl PathLengthOrNul
      else if is_absolute path \<or> list_ex escapes (path_components path) then Inl PathNotRelative
      else
      let resolved = root @ path_names path in
      and_then (reject_symlink fs resolved) (\<lambda>_. check_ancestor fs canonical_root resolved))"

section \<open>Printing and reading names\<close>

lemma split_slash_nonempty [simp]: "split_slash s \<noteq> []"
  by (induction s) (auto split: list.splits)

lemma split_slash_no_slash: "w \<in> set (split_slash s) \<Longrightarrow> CHR ''/'' \<notin> set w"
  by (induction s arbitrary: w) (auto split: if_splits list.splits)

lemma split_slash_append:
  "CHR ''/'' \<notin> set w \<Longrightarrow> split_slash (w @ CHR ''/'' # s) = w # split_slash s"
  by (induction w) auto

lemma split_slash_word: "CHR ''/'' \<notin> set w \<Longrightarrow> split_slash w = [w]"
  by (induction w) auto

definition valid_name :: "string \<Rightarrow> bool" where
  "valid_name w \<longleftrightarrow> w \<noteq> [] \<and> w \<noteq> ''.'' \<and> w \<noteq> ''..'' \<and> CHR ''/'' \<notin> set w"

lemma split_join:
  assumes "\<forall>w \<in> set names. CHR ''/'' \<notin> set w" "names \<noteq> []"
  shows "split_slash (join_slash names) = names"
  using assms
proof (induction names)
  case (Cons w ws)
  show ?case
  proof (cases ws)
    case Nil
    then show ?thesis using Cons.prems by (simp add: join_slash_def split_slash_word)
  next
    case (Cons v vs)
    then have "join_slash (w # ws) = w @ CHR ''/'' # join_slash ws" by (simp add: join_slash_def)
    then show ?thesis using Cons Cons.IH Cons.prems by (simp add: split_slash_append)
  qed
qed simp

lemma path_names_join:
  assumes "\<forall>w \<in> set names. valid_name w"
  shows "path_names (join_slash names) = names"
proof (cases "names = []")
  case False
  have "\<forall>w \<in> set names. CHR ''/'' \<notin> set w" using assms by (simp add: valid_name_def)
  then have "split_slash (join_slash names) = names" using False by (rule split_join)
  moreover have "filter (\<lambda>w. w \<noteq> [] \<and> w \<noteq> ''.'') names = names"
    using assms by (simp add: valid_name_def filter_id_conv)
  ultimately show ?thesis by (simp add: path_names_def)
qed (simp add: path_names_def join_slash_def)

section \<open>Resolved paths\<close>

lemma join_components:
  assumes "\<forall>w \<in> set names. valid_name w" "names \<noteq> []"
  shows "path_components (join_slash names) = map Normal names" "join_slash names \<noteq> []"
    "\<not> is_absolute (join_slash names)"
proof -
  obtain w ws where names: "names = w # ws" using assms(2) by (cases names) auto
  have w: "valid_name w" using assms(1) by (simp add: names)
  then have "w \<noteq> []" "w \<noteq> ''.''" "hd w \<noteq> CHR ''/''"
    by (simp_all add: valid_name_def) (metis hd_in_set)
  then show abs: "join_slash names \<noteq> []" "\<not> is_absolute (join_slash names)"
    by (cases w; simp add: names join_slash_def is_absolute_def)+
  have split: "split_slash (join_slash names) = names"
    using assms by (intro split_join) (auto simp: valid_name_def)
  have "name_component v = Normal v" if "v \<in> set names" for v
    using assms(1) that by (simp add: name_component_def valid_name_def)
  then have "map name_component names = map Normal names" by simp
  then show "path_components (join_slash names) = map Normal names"
    unfolding path_components_def split path_names_join [OF assms(1)]
    using abs(2) \<open>w \<noteq> ''.''\<close> by (simp add: names)
qed

text \<open>A path whose proper prefixes are directories and which is not a link itself.\<close>

definition dirs_only :: "file_system \<Rightarrow> path_key \<Rightarrow> bool" where
  "dirs_only fs p \<longleftrightarrow> (\<forall>q. prefix q p \<and> q \<noteq> [] \<longrightarrow> fmlookup fs q = Some DirNode)"

definition real_path :: "file_system \<Rightarrow> path_key \<Rightarrow> bool" where
  "real_path fs p \<longleftrightarrow> p = [] \<or> dirs_only fs (butlast p)
     \<and> (case fmlookup fs p of Some (FileNode _) \<Rightarrow> True | Some DirNode \<Rightarrow> True | _ \<Rightarrow> False)"

lemma dirs_only_simps [simp]:
  "dirs_only fs []"
  "dirs_only fs (p @ [w]) \<longleftrightarrow> dirs_only fs p \<and> fmlookup fs (p @ [w]) = Some DirNode"
  by (auto simp: dirs_only_def)

lemma dirs_only_butlast: "dirs_only fs p \<Longrightarrow> dirs_only fs (butlast p)"
  by (cases p rule: rev_cases) auto

lemma dirs_only_real: "dirs_only fs p \<Longrightarrow> real_path fs p"
  by (cases p rule: rev_cases) (auto simp: real_path_def)

lemma realpath_real:
  "realpath fs links cur todo = Some p \<Longrightarrow> dirs_only fs cur \<Longrightarrow> real_path fs p"
proof (induction fs links cur todo rule: realpath.induct)
  case (5 fs links cur w todo)
  then show ?case
    by (auto simp: real_path_def dirs_only_real split: option.splits fs_node.splits if_splits nat.splits)
qed (auto simp: dirs_only_real dirs_only_butlast)

lemma canonicalize_real: "canonicalize fs path = Some p \<Longrightarrow> real_path fs p"
  using realpath_real by (simp add: canonicalize_def)

lemma existing_ancestor_Some:
  assumes "existing_ancestor fs path = Some a"
  shows "prefix a path \<and> path_exists fs a
    \<and> (\<forall>q. strict_prefix a q \<and> prefix q path \<longrightarrow> \<not> path_exists fs q)"
  using assms
proof (induction fs path rule: existing_ancestor.induct)
  case (1 fs path)
  show ?case
  proof (cases "path_exists fs path")
    case True
    then show ?thesis
      using "1.prems" by (subst (asm) existing_ancestor.simps) (auto simp: prefix_order.less_le_not_le)
  next
    case False
    then have ne: "path \<noteq> []" "existing_ancestor fs (butlast path) = Some a"
      using "1.prems" by (subst (asm) existing_ancestor.simps, simp split: if_splits)+
    then obtain ws w where path: "path = ws @ [w]" by (metis rev_exhaust)
    from "1.IH" [OF False ne(1,2)] show ?thesis
      using False by (auto simp: path)
  qed
qed

lemma resolve_path_Inr:
  assumes "resolve_path root path = Inr p"
  shows "p = root @ path_names path" "\<forall>w \<in> set (path_names path). valid_name w \<and> w \<noteq> ''.asp''"
proof -
  have ok: "\<not> list_ex escapes (path_components path)" "\<not> list_ex reserved (path_components path)"
      "p = root @ path_names path"
    using assms by (auto simp: resolve_path_def split: if_splits)
  show "p = root @ path_names path" by (rule ok(3))
  have "w \<noteq> ''..'' \<and> w \<noteq> ''.asp''" if "w \<in> set (path_names path)" for w
  proof -
    have "name_component w \<in> set (path_components path)" using that by (simp add: path_components_def)
    then have "\<not> escapes (name_component w)" "\<not> reserved (name_component w)"
      using ok(1,2) by (auto simp: list_ex_iff)
    then show ?thesis by (auto simp: escapes_def reserved_def name_component_def split: if_splits)
  qed
  then show "\<forall>w \<in> set (path_names path). valid_name w \<and> w \<noteq> ''.asp''"
    using split_slash_no_slash by (auto simp: valid_name_def path_names_def)
qed

section \<open>Properties\<close>


definition demo_fs :: file_system where
  "demo_fs = fmap_of_list [([''w''], DirNode), ([''w'', ''src''], DirNode),
     ([''w'', ''src'', ''a.rs''], FileNode [1]), ([''w'', ''link''], LinkNode ''src''),
     ([''w'', ''out''], LinkNode ''/etc''), ([''etc''], DirNode),
     ([''w'', ''.asp''], DirNode), ([''w'', ''.asp'', ''auth-token''], FileNode [2]),
     ([''w'', ''state''], LinkNode ''.asp'')]"

lemma demo_fs_lookups:
  "resolve_existing_path demo_fs [''w''] [''w''] ''link/a.rs'' = Inr [''w'', ''src'', ''a.rs'']"
  "resolve_write_path demo_fs [''w''] [''w''] ''src/new.rs'' = Inr [''w'', ''src'', ''new.rs'']"
  by code_simp+



end
