(* ===== verification/Session.thy ===== *)
theory Session
  imports Session_Files Paths "HOL-Library.List_Lexorder" "HOL-Library.Char_ord"
begin

text \<open>
  The live session (\<open>Session\<close> in \<open>crates/asp-server/src/main.rs\<close>): committing an event,
  subscriptions and replay, consumer acknowledgements and their leases, slots and
  reservations, the materialized snapshot, and compaction.  Every operation runs under
  the session's commit lock, so it is one step on the session state.  Clock readings and
  the outcome of system calls are arguments.  The broadcast channel is the list of the
  events sent so far.  Hash maps are listed in key order where the code lists them in an
  unspecified order.
\<close>

definition EVENT_CONSUMER_LEASE_MS :: u64 where [consts_simps]:
  "EVENT_CONSUMER_LEASE_MS = 604800000"

definition EVENT_LOG_COMPACT_THRESHOLD :: u64 where [consts_simps]:
  "EVENT_LOG_COMPACT_THRESHOLD = 268435456"

definition MAX_RUNNING_PROCESSES :: usize where [consts_simps]:
  "MAX_RUNNING_PROCESSES = 64"

definition MAX_IDEMPOTENCY_RECORDS_PER_SESSION :: usize where [consts_simps]:
  "MAX_IDEMPOTENCY_RECORDS_PER_SESSION = 65536"

definition MAX_ACTIVE_SUBSCRIPTIONS_PER_SESSION :: usize where [consts_simps]:
  "MAX_ACTIVE_SUBSCRIPTIONS_PER_SESSION = 64"

record session =
  se_id :: uuid
  se_owner :: string
  se_journal :: journal
  se_disk :: "session_disk option"
  se_snapshot_file :: "bytes option"
  se_consumers_file :: "bytes option"
  se_processes :: "(uuid, process_record) fmap"
  se_process_requests :: "(uuid, process_request) fmap"
  se_file_requests :: "(uuid, file_request) fmap"
  se_signal_requests :: "(uuid, signal_request) fmap"
  se_artifact_requests :: "(uuid, artifact_request) fmap"
  se_artifacts :: "(string, artifact_record) fmap"
  se_event_consumers :: consumers
  se_idempotency_records :: usize
  se_pty_started :: bool
  se_pty_generation :: u64
  se_running_processes :: usize
  se_active_subscriptions :: usize
  se_file_versions :: "(path_key, u64) fmap"
  se_artifact_readers :: "(string, usize) fmap"
  se_event_tx :: "event list"
  se_root :: path_key

section \<open>File versions\<close>

definition raise_version :: "path_key \<Rightarrow> u64 \<Rightarrow> (path_key, u64) fmap \<Rightarrow> (path_key, u64) fmap" where
  "raise_version k version m =
     fmupd k (case fmlookup m k of None \<Rightarrow> version | Some current \<Rightarrow> max current version) m"

definition loaded_version_key :: "path_key \<Rightarrow> string \<Rightarrow> path_key option" where
  "loaded_version_key root relative =
     (if relative \<noteq> [] \<and> \<not> is_absolute relative
         \<and> \<not> list_ex (\<lambda>c. escapes c \<or> reserved c) (path_components relative)
      then Some (root @ path_names relative) else None)"

definition loaded_file_versions :: "path_key \<Rightarrow> (string, u64) fmap \<Rightarrow> (path_key, u64) fmap" where
  "loaded_file_versions root versions =
     fold (\<lambda>(relative, version) m. case loaded_version_key root relative of
             None \<Rightarrow> m | Some k \<Rightarrow> fmupd k version m)
       (sorted_list_of_fmap versions) fmempty"

definition merge_file_versions ::
    "(path_key, u64) fmap \<Rightarrow> (path_key, u64) fmap \<Rightarrow> (path_key, u64) fmap" where
  "merge_file_versions versions workspace =
     fold (\<lambda>(k, version). raise_version k version) (sorted_list_of_fmap versions) workspace"

section \<open>Construction\<close>

definition session_from_loaded ::
    "uuid \<Rightarrow> path_key \<Rightarrow> session_disk option \<Rightarrow> bytes option \<Rightarrow> bytes option \<Rightarrow> loaded_session
       \<Rightarrow> string \<Rightarrow> (path_key, u64) fmap \<Rightarrow> session" where
  "session_from_loaded sid root disk snapshot_file consumers_file loaded owner workspace_versions =
     (let st = ls_state loaded in
      \<lparr>se_id = sid, se_owner = owner,
       se_journal = journal_from_loaded (ls_events loaded) (ls_next_id loaded)
         (ls_oldest_event_unix_ms loaded),
       se_disk = disk, se_snapshot_file = snapshot_file, se_consumers_file = consumers_file,
       se_processes = m_processes st, se_process_requests = m_process_requests st,
       se_file_requests = m_file_requests st, se_signal_requests = m_signal_requests st,
       se_artifact_requests = m_artifact_requests st, se_artifacts = m_artifacts st,
       se_event_consumers = ls_event_consumers loaded,
       se_idempotency_records =
         saturating_add (saturating_add (saturating_add (fmsize (m_process_requests st))
           (fmsize (m_file_requests st))) (fmsize (m_signal_requests st)))
           (fmsize (m_artifact_requests st)),
       se_pty_started = m_pty_started st, se_pty_generation = m_pty_generation st,
       se_running_processes = m_running_processes st, se_active_subscriptions = 0,
       se_file_versions =
         merge_file_versions (loaded_file_versions root (m_file_versions st)) workspace_versions,
       se_artifact_readers = fmempty, se_event_tx = [], se_root = root\<rparr>)"

section \<open>Slots, reservations and leases\<close>

definition reserve_process_slot :: "session \<Rightarrow> session \<times> (session_error + unit)" where
  "reserve_process_slot s =
     (if se_running_processes s < MAX_RUNNING_PROCESSES
      then (s\<lparr>se_running_processes := se_running_processes s + 1\<rparr>, Inr ())
      else (s, Inl ProcessSlotsExhausted))"

definition release_process_slot :: "session \<Rightarrow> session" where
  "release_process_slot s =
     (if 0 < se_running_processes s
      then s\<lparr>se_running_processes := se_running_processes s - 1\<rparr> else s)"

definition reserve_idempotency_record :: "session \<Rightarrow> session \<times> (session_error + unit)" where
  "reserve_idempotency_record s =
     (if se_idempotency_records s < MAX_IDEMPOTENCY_RECORDS_PER_SESSION
      then (s\<lparr>se_idempotency_records := se_idempotency_records s + 1\<rparr>, Inr ())
      else (s, Inl IdempotencyCapacity))"

definition release_idempotency_record :: "session \<Rightarrow> session" where
  "release_idempotency_record s =
     (if 0 < se_idempotency_records s
      then s\<lparr>se_idempotency_records := se_idempotency_records s - 1\<rparr> else s)"

text \<open>Dropping a reservation releases its record unless it was committed.\<close>

definition drop_reservation :: "bool \<Rightarrow> session \<Rightarrow> session" where
  "drop_reservation committed s = (if committed then s else release_idempotency_record s)"

definition subscription_guard :: "session \<Rightarrow> session \<times> (session_error + unit)" where
  "subscription_guard s =
     (if se_active_subscriptions s < MAX_ACTIVE_SUBSCRIPTIONS_PER_SESSION
      then (s\<lparr>se_active_subscriptions := se_active_subscriptions s + 1\<rparr>, Inr ())
      else (s, Inl SubscriptionsExhausted))"

definition drop_subscription_guard :: "session \<Rightarrow> session" where
  "drop_subscription_guard s = s\<lparr>se_active_subscriptions := se_active_subscriptions s - 1\<rparr>"

section \<open>Committing an event\<close>

definition publish_file_version :: "event_kind \<Rightarrow> session \<Rightarrow> session" where
  "publish_file_version kind s =
     (let publish = (\<lambda>path version. case workspace_event_path (se_root s) path of
            None \<Rightarrow> s
          | Some k \<Rightarrow> s\<lparr>se_file_versions := raise_version k version (se_file_versions s)\<rparr>)
      in case kind of
           FileChanged path version \<Rightarrow> publish path version
         | FileMutation _ _ path version _ \<Rightarrow> publish path version
         | _ \<Rightarrow> s)"

definition after_commit :: "event \<Rightarrow> session \<Rightarrow> session" where
  "after_commit e s =
     (let s = (case ev_kind e of PtyStarted \<Rightarrow> s\<lparr>se_pty_started := True\<rparr> | _ \<Rightarrow> s);
          s = (case ev_kind e of
                 PtyStateAdvanced generation \<Rightarrow> s\<lparr>se_pty_generation := generation\<rparr> | _ \<Rightarrow> s);
          s = (case ev_kind e of ProcessExited _ _ \<Rightarrow> release_process_slot s | _ \<Rightarrow> s)
      in s\<lparr>se_event_tx := se_event_tx s @ [e]\<rparr>)"

definition persist_event ::
    "log_codec \<Rightarrow> append_io \<Rightarrow> event \<Rightarrow> session_disk option
       \<Rightarrow> session_disk option \<times> (log_error + unit)" where
  "persist_event k io e disk =
     (case disk of
        None \<Rightarrow> (None, Inr ())
      | Some d \<Rightarrow> let (d, r) = disk_append k io e d in (Some d, r))"

definition append_locked ::
    "session_codec \<Rightarrow> append_io \<Rightarrow> u64 \<Rightarrow> event_kind \<Rightarrow> session
       \<Rightarrow> (session \<times> (session_error + event)) option" where
  "append_locked x io now kind s =
     (let (journal, e) = journal_append now kind (se_journal s);
          (disk, r) = persist_event (sx_log x) io e (se_disk s);
          s = s\<lparr>se_disk := disk\<rparr>
      in case r of
           Inl err \<Rightarrow> Some (s\<lparr>se_journal := journal_rollback e journal\<rparr>, Inl (LogFailure err))
         | Inr _ \<Rightarrow>
             let s = publish_file_version kind s
             in map_option (\<lambda>journal. (after_commit e (s\<lparr>se_journal := journal\<rparr>), Inr e))
                  (enforce_bounds journal))"

definition has_file_changed_event :: "string \<Rightarrow> u64 \<Rightarrow> session \<Rightarrow> bool" where
  "has_file_changed_event path version s =
     list_ex (\<lambda>e. case ev_kind e of FileChanged p v \<Rightarrow> p = path \<and> v = version | _ \<Rightarrow> False)
       (j_events (se_journal s))"

section \<open>Replay and subscriptions\<close>

definition events_since_locked ::
    "session_codec \<Rightarrow> u64 \<Rightarrow> session \<Rightarrow> (session_error + (event list \<times> bool \<times> bool)) option" where
  "events_since_locked x after s =
     (let (events, compacted) = journal_since after (se_journal s) in
      if \<not> compacted then Some (Inr (events, False, False))
      else case se_disk s of
        None \<Rightarrow> Some (Inr (events, True, False))
      | Some d \<Rightarrow>
          if after < dk_snapshot_boundary d then Some (Inr ([], True, False))
          else case read_events_since (sx_log x) after d of
            None \<Rightarrow> None
          | Some (Inl e) \<Rightarrow> Some (Inl (LogFailure e))
          | Some (Inr None) \<Rightarrow> Some (Inr ([], True, True))
          | Some (Inr (Some durable)) \<Rightarrow>
              if durable = [] \<and> after < j_next_id (se_journal s)
              then Some (Inr ([], True, False))
              else Some (Inr (durable, False, False)))"

definition process_snapshot_of :: "uuid \<Rightarrow> process_record \<Rightarrow> process_snapshot" where
  "process_snapshot_of pid r = \<lparr>prs_process_id = pid, prs_command = pr_command r,
     prs_running = pr_running r, prs_exit_code = pr_exit_code r,
     prs_stdout_bytes = pr_stdout_bytes r, prs_stderr_bytes = pr_stderr_bytes r\<rparr>"

definition snapshot_at_locked :: "pty_snapshot option \<Rightarrow> u64 \<Rightarrow> session \<Rightarrow> session_snapshot" where
  "snapshot_at_locked pty latest_event_id s =
     \<lparr>ss_session_id = se_id s, ss_latest_event_id = latest_event_id,
      ss_processes = map (\<lambda>(pid, r). process_snapshot_of pid r) (sorted_list_of_fmap (se_processes s)),
      ss_pty = pty\<rparr>"

definition session_process_snapshot :: "uuid \<Rightarrow> session \<Rightarrow> process_snapshot option" where
  "session_process_snapshot pid s = map_option (process_snapshot_of pid) (fmlookup (se_processes s) pid)"

text \<open>The receiver of a subscription is its position in the broadcast channel.\<close>

record subscription =
  su_events :: "event list"
  su_compacted :: bool
  su_replay_limited :: bool
  su_retained_from_event_id :: u64
  su_through_event_id :: u64
  su_snapshot :: session_snapshot
  su_receiver :: nat

definition subscribe_events ::
    "session_codec \<Rightarrow> pty_snapshot option \<Rightarrow> u64 \<Rightarrow> session \<Rightarrow> (session_error + subscription) option" where
  "subscribe_events x pty after s =
     (let journal = se_journal s in
      if j_next_id journal < after then Some (Inl CursorAheadOfJournal)
      else map_option (\<lambda>r. and_then r (\<lambda>(events, compacted, replay_limited).
             Inr \<lparr>su_events = events, su_compacted = compacted,
                  su_replay_limited = replay_limited,
                  su_retained_from_event_id = retained_from_event_id journal,
                  su_through_event_id = j_next_id journal,
                  su_snapshot = snapshot_at_locked pty (j_next_id journal) s,
                  su_receiver = length (se_event_tx s)\<rparr>))
           (events_since_locked x after s))"

definition received :: "subscription \<Rightarrow> session \<Rightarrow> event list" where
  "received sub s = drop (su_receiver sub) (se_event_tx s)"

section \<open>Acknowledgements\<close>

definition store_consumers ::
    "session_codec \<Rightarrow> bool \<Rightarrow> consumers \<Rightarrow> session \<Rightarrow> session \<times> (session_error + unit)" where
  "store_consumers x io_ok cs s =
     (case se_disk s of
        None \<Rightarrow> (s\<lparr>se_event_consumers := cs\<rparr>, Inr ())
      | Some _ \<Rightarrow>
          let (file, r) = persist_event_consumers (lc_crc (sx_log x)) (sx_consumers x) io_ok cs
                            (se_consumers_file s)
          in (case r of
                Inl e \<Rightarrow> (s\<lparr>se_consumers_file := file\<rparr>, Inl e)
              | Inr _ \<Rightarrow> (s\<lparr>se_consumers_file := file, se_event_consumers := cs\<rparr>, Inr ())))"

definition ack_event_consumer ::
    "session_codec \<Rightarrow> bool \<Rightarrow> u64 \<Rightarrow> string \<Rightarrow> u64 \<Rightarrow> session \<Rightarrow> session \<times> (session_error + u64)" where
  "ack_event_consumer x io_ok now consumer_id through_event_id s =
     (case validate_event_consumer_id consumer_id of
        Inl e \<Rightarrow> (s, Inl e)
      | Inr _ \<Rightarrow>
      if j_next_id (se_journal s) < through_event_id then (s, Inl CursorAheadOfJournal)
      else
      let acknowledged = (case fmlookup (se_event_consumers s) consumer_id of
            None \<Rightarrow> through_event_id
          | Some existing \<Rightarrow> max (ec_acknowledged_event_id existing) through_event_id) in
      if \<not> fmcontains consumer_id (se_event_consumers s)
         \<and> MAX_EVENT_CONSUMERS_PER_SESSION \<le> fmsize (se_event_consumers s)
      then (s, Inl EventConsumerCapacity)
      else
      let (s, r) = store_consumers x io_ok (fmupd consumer_id
            \<lparr>ec_acknowledged_event_id = acknowledged, ec_last_seen_unix_ms = now\<rparr>
            (se_event_consumers s)) s
      in (s, and_then r (\<lambda>_. Inr acknowledged)))"

definition prune_expired_event_consumers_locked ::
    "session_codec \<Rightarrow> bool \<Rightarrow> u64 \<Rightarrow> session \<Rightarrow> session \<times> (session_error + bool)" where
  "prune_expired_event_consumers_locked x io_ok now s =
     (let cs = fmretain (\<lambda>_ c. now < saturating_add (ec_last_seen_unix_ms c) EVENT_CONSUMER_LEASE_MS)
                 (se_event_consumers s) in
      if cs = se_event_consumers s then (s, Inr False)
      else let (s, r) = store_consumers x io_ok cs s in (s, and_then r (\<lambda>_. Inr True)))"

section \<open>Snapshot and compaction\<close>

definition hash_command :: "(bytes \<Rightarrow> string) \<Rightarrow> process_request \<Rightarrow> process_request" where
  "hash_command sha256 request =
     (if pq_command_hash request = None
      then request\<lparr>pq_command_hash := Some (sha256 (as_bytes (pq_command request)))\<rparr>
      else request)"

definition forget_command :: "(bytes \<Rightarrow> string) \<Rightarrow> process_request \<Rightarrow> process_request" where
  "forget_command sha256 request = (hash_command sha256 request)\<lparr>pq_command := []\<rparr>"

definition relative_file_versions :: "path_key \<Rightarrow> (path_key, u64) fmap \<Rightarrow> (string, u64) fmap" where
  "relative_file_versions root versions =
     fmap_of_list (map (\<lambda>(k, version). (join_slash (drop (length root) k), version))
       (filter (\<lambda>(k, version). prefix root k) (sorted_list_of_fmap versions)))"

definition pruned :: "uuid fset option \<Rightarrow> uuid \<Rightarrow> bool" where
  "pruned ps pid = (case ps of None \<Rightarrow> False | Some ps \<Rightarrow> pid |\<in>| ps)"

definition snapshot_data_filtered ::
    "(bytes \<Rightarrow> string) \<Rightarrow> u64 \<Rightarrow> u64 option \<Rightarrow> uuid fset option \<Rightarrow> session \<Rightarrow> session_snapshot_data" where
  "snapshot_data_filtered sha256 through_event_id oldest_event_unix_ms pruned_processes s =
     \<lparr>sd_session_id = se_id s, sd_through_event_id = through_event_id,
      sd_oldest_event_unix_ms = oldest_event_unix_ms,
      sd_processes = fmfilter (\<lambda>pid. \<not> pruned pruned_processes pid) (se_processes s),
      sd_process_requests = fmmap (\<lambda>request.
        if pruned pruned_processes (pq_process_id request) then forget_command sha256 request
        else hash_command sha256 request) (se_process_requests s),
      sd_file_versions = relative_file_versions (se_root s) (se_file_versions s),
      sd_file_requests = se_file_requests s, sd_signal_requests = se_signal_requests s,
      sd_artifact_requests = se_artifact_requests s, sd_artifacts = se_artifacts s,
      sd_pty_started = se_pty_started s, sd_pty_generation = se_pty_generation s\<rparr>"

text \<open>Where the system calls of a compaction fail, if they do: publishing the snapshot,
  truncating the log, or writing the new header after that many of its bytes.\<close>

datatype compact_io = CompactOk | SnapshotWriteFails | LogResetFails | HeaderWriteFails nat

definition compact_disk ::
    "session_codec \<Rightarrow> compact_io \<Rightarrow> session_snapshot_data \<Rightarrow> session_disk \<Rightarrow> session
       \<Rightarrow> session \<times> (session_error + unit)" where
  "compact_disk x io snapshot d s =
     (let (file, r) = write_snapshot_file (lc_crc (sx_log x)) (sx_snapshot x)
            (io \<noteq> SnapshotWriteFails) snapshot (se_snapshot_file s);
          s = s\<lparr>se_snapshot_file := file\<rparr>
      in case r of
           Inl e \<Rightarrow> (s, Inl e)
         | Inr _ \<Rightarrow>
             (case io of
                CompactOk \<Rightarrow>
                  (s\<lparr>se_disk := Some (disk_compact (sd_through_event_id snapshot) d)\<rparr>, Inr ())
              | HeaderWriteFails n \<Rightarrow>
                  (s\<lparr>se_disk := Some (d\<lparr>dk_active := (dk_active d)
                       \<lparr>ef_bytes := take n (log_header EVENT_LOG_VERSION)\<rparr>\<rparr>)\<rparr>,
                   Inl (LogFailure LogWriteFailed))
              | _ \<Rightarrow> (s, Inl (LogFailure LogWriteFailed))))"

record compact_env =
  ce_now_prune :: u64
  ce_now_age :: u64
  ce_now_cutoff :: u64
  ce_consumers_ok :: bool
  ce_compact :: compact_io

definition age_due :: "u64 option \<Rightarrow> u64 \<Rightarrow> journal \<Rightarrow> bool" where
  "age_due retention_ms now journal =
     (case retention_ms of
        None \<Rightarrow> False
      | Some retention_ms \<Rightarrow>
          (case j_oldest_event_unix_ms journal of
             None \<Rightarrow> False
           | Some oldest \<Rightarrow> retention_ms \<le> saturating_sub now oldest))"

definition finished_before :: "u64 \<Rightarrow> process_record \<Rightarrow> bool" where
  "finished_before cutoff r \<longleftrightarrow> \<not> pr_running r
     \<and> (case pr_exit_unix_ms r of None \<Rightarrow> False | Some finished \<Rightarrow> finished \<le> cutoff)"

definition prunable :: "u64 option \<Rightarrow> u64 \<Rightarrow> session \<Rightarrow> uuid fset option" where
  "prunable retention_ms now s =
     map_option (\<lambda>retention_ms. fmdom (fmretain
       (\<lambda>_ r. finished_before (saturating_sub now retention_ms) r) (se_processes s))) retention_ms"

definition forget_pruned :: "(bytes \<Rightarrow> string) \<Rightarrow> uuid fset option \<Rightarrow> session \<Rightarrow> session" where
  "forget_pruned sha256 ps s =
     (case ps of
        None \<Rightarrow> s
      | Some ps \<Rightarrow> s\<lparr>se_processes := fmfilter (\<lambda>pid. pid |\<notin>| ps) (se_processes s),
          se_process_requests := fmmap (\<lambda>request.
            if pq_process_id request |\<in>| ps then forget_command sha256 request else request)
            (se_process_requests s)\<rparr>)"

definition compaction_snapshot ::
    "session_codec \<Rightarrow> u64 option \<Rightarrow> compact_env \<Rightarrow> session \<Rightarrow> session_snapshot_data" where
  "compaction_snapshot x retention_ms env s =
     (snapshot_data_filtered (lc_sha256 (sx_log x)) (j_next_id (se_journal s))
        (j_oldest_event_unix_ms (se_journal s)) (prunable retention_ms (ce_now_cutoff env) s) s)
       \<lparr>sd_oldest_event_unix_ms := None\<rparr>"

definition compact_now ::
    "session_codec \<Rightarrow> u64 option \<Rightarrow> compact_env \<Rightarrow> session_disk \<Rightarrow> session
       \<Rightarrow> session \<times> (session_error + bool)" where
  "compact_now x retention_ms env d s =
     (let sha256 = lc_sha256 (sx_log x);
          ps = prunable retention_ms (ce_now_cutoff env) s;
          (s, r) = compact_disk x (ce_compact env) (compaction_snapshot x retention_ms env s) d s
      in case r of
           Inl e \<Rightarrow> (s, Inl e)
         | Inr _ \<Rightarrow>
             (forget_pruned sha256 ps (s\<lparr>se_journal := (se_journal s)\<lparr>j_events := [],
                j_approx_bytes := 0, j_oldest_event_unix_ms := None\<rparr>\<rparr>), Inr True))"

definition compact_if_needed ::
    "session_codec \<Rightarrow> u64 option \<Rightarrow> compact_env \<Rightarrow> session \<Rightarrow> session \<times> (session_error + bool)" where
  "compact_if_needed x retention_ms env s =
     (case se_disk s of
        None \<Rightarrow> (s, Inr False)
      | Some d \<Rightarrow>
      let (s, r) = prune_expired_event_consumers_locked x (ce_consumers_ok env) (ce_now_prune env) s in
      case r of
        Inl e \<Rightarrow> (s, Inl e)
      | Inr consumers_pruned \<Rightarrow>
      if \<not> EVENT_LOG_COMPACT_THRESHOLD \<le> dk_total_bytes d
         \<and> \<not> age_due retention_ms (ce_now_age env) (se_journal s)
      then (s, Inr consumers_pruned)
      else if fmany (\<lambda>_ c. ec_acknowledged_event_id c < j_next_id (se_journal s)) (se_event_consumers s)
      then (s, Inr consumers_pruned)
      else compact_now x retention_ms env d s)"

section \<open>The log of a session\<close>

text \<open>The files hold \<open>log\<close> after the snapshot boundary, the head is its last id, and the
  in-memory window is a suffix of it.\<close>

definition session_log :: "session_codec \<Rightarrow> session \<Rightarrow> session_disk \<Rightarrow> event list \<Rightarrow> bool" where
  "session_log x s d log \<longleftrightarrow> se_disk s = Some d \<and> journal_ok (se_journal s)
     \<and> j_next_id (se_journal s) = dk_snapshot_boundary d + length log
     \<and> suffix (j_events (se_journal s)) log
     \<and> (\<exists>sealed recent. disk_holds (sx_log x) d sealed recent \<and> log = sealed @ recent)"

lemma segments_ok_ids:
  "segments_ok k b n segs \<Longrightarrow>
     map ev_id (segments_new segs) = [Suc n..<Suc (n + length (segments_new segs))]"
proof (induction k b n segs rule: segments_ok.induct)
  case (2 k b n first version stale new segs)
  then have "map ev_id new = [Suc n..<Suc (n + length new)]"
    "map ev_id (segments_new segs) = [Suc (n + length new)..<Suc (n + length new + length (segments_new segs))]"
    by (simp_all add: file_ok_def file_events_def del: upt_Suc)
  then show ?case
    using upt_add_eq_append [of "Suc n" "Suc (n + length new)" "length (segments_new segs)"]
    by (simp add: add.assoc del: upt_Suc)
qed simp

lemma disk_holds_ids:
  assumes "disk_holds k d sealed recent"
  shows "map ev_id (sealed @ recent)
    = [Suc (dk_snapshot_boundary d)..<Suc (dk_snapshot_boundary d + length (sealed @ recent))]"
proof -
  let ?b = "dk_snapshot_boundary d"
  have "map ev_id sealed = [Suc ?b..<Suc (?b + length sealed)]"
    "map ev_id recent = [Suc (?b + length sealed)..<Suc (?b + length sealed + length recent)]"
    using assms segments_ok_ids by (auto simp: disk_holds_def file_ok_def file_events_def simp del: upt_Suc)
  then show ?thesis
    using upt_add_eq_append [of "Suc ?b" "Suc (?b + length sealed)" "length recent"]
    by (simp add: add.assoc del: upt_Suc)
qed

lemma session_log_consecutive: "session_log x s d log \<Longrightarrow> consecutive (j_next_id (se_journal s)) log"
  using disk_holds_ids by (fastforce simp: session_log_def consecutive_def simp del: upt_Suc)

lemma publish_file_version_frame [simp]:
  "se_disk (publish_file_version kind s) = se_disk s"
  "se_event_tx (publish_file_version kind s) = se_event_tx s"
  by (auto simp: publish_file_version_def Let_def split: event_kind.splits option.splits)

lemma release_process_slot_frame [simp]:
  "se_journal (release_process_slot s) = se_journal s"
  "se_disk (release_process_slot s) = se_disk s"
  "se_event_tx (release_process_slot s) = se_event_tx s"
  by (simp_all add: release_process_slot_def)

lemma after_commit_frame [simp]:
  "se_journal (after_commit e s) = se_journal s"
  "se_disk (after_commit e s) = se_disk s"
  "se_event_tx (after_commit e s) = se_event_tx s @ [e]"
  by (simp_all add: after_commit_def Let_def split: event_kind.splits)

lemma suffix_drop_append:
  assumes "suffix xs log"
  shows "suffix (drop i (xs @ [e])) (log @ [e])"
proof -
  have "suffix (xs @ [e]) (log @ [e])" using assms by (auto simp: suffix_def)
  with suffix_drop show ?thesis by (rule suffix_order.trans)
qed

lemma append_locked_log:
  fixes now :: u64
  assumes "session_lawful x" "session_log x s d log" "storable_kind kind"
    and "j_next_id (se_journal s) < u64_max"
  defines "e \<equiv> \<lparr>ev_id = Suc (j_next_id (se_journal s)), ev_unix_ms = now, ev_kind = kind\<rparr>"
  shows "\<exists>s' d' r. append_locked x io now kind s = Some (s', r)
    \<and> dk_snapshot_boundary d' = dk_snapshot_boundary d
    \<and> ((\<exists>err. r = Inl (LogFailure err)) \<and> session_log x s' d' log \<and> se_event_tx s' = se_event_tx s
       \<or> r = Inr e \<and> session_log x s' d' (log @ [e]) \<and> se_event_tx s' = se_event_tx s @ [e])"
proof -
  let ?j = "se_journal s" and ?k = "sx_log x"
  obtain sealed recent where h: "se_disk s = Some d" "journal_ok ?j"
      "j_next_id ?j = dk_snapshot_boundary d + length log" "suffix (j_events ?j) log"
      "disk_holds ?k d sealed recent" "log = sealed @ recent"
    using assms(2) by (auto simp: session_log_def)
  obtain j e' where app: "journal_append now kind ?j = (j, e')" by force
  note a = journal.append_law [OF h(2) assms(3) app]
  have e: "e' = e" using a by (simp add: e_def)
  obtain d' r where dr: "disk_append ?k io e d = (d', r)" by force
  have "ev_id e = Suc (dk_snapshot_boundary d + length (sealed @ recent))" "ev_id e \<le> u64_max"
    using h(3,6) assms(4) by (simp_all add: e_def)
  from append_holds [OF session_lawfulD(1) [OF assms(1)] h(5) this dr]
  obtain sealed' recent' where d': "disk_holds ?k d' sealed' recent'"
      "sealed' @ recent' = log @ (if r = Inr () then [e] else [])"
      "dk_snapshot_boundary d' = dk_snapshot_boundary d"
    using h(6) by auto
  show ?thesis
  proof (cases r)
    case (Inl err)
    let ?s = "s\<lparr>se_disk := Some d', se_journal := journal_rollback e j\<rparr>"
    have "append_locked x io now kind s = Some (?s, Inl (LogFailure err))"
      by (simp add: append_locked_def persist_event_def app e h(1) dr Inl)
    moreover have "\<exists>sealed recent. disk_holds ?k d' sealed recent \<and> log = sealed @ recent"
      using d'(1,2) Inl by (intro exI [of _ sealed'] exI [of _ recent']) simp
    then have "session_log x ?s d' log"
      using journal.rollback_law [OF h(2) assms(3) app] h(1,3,4) d'(3)
      by (simp add: session_log_def e)
    ultimately show ?thesis
      using d'(3) by (intro exI [of _ ?s] exI [of _ d'] exI [of _ "Inl (LogFailure err)"]) simp
  next
    case (Inr u)
    then have ok: "r = Inr ()" by simp
    obtain j' i where j': "enforce_bounds j = Some j'" "journal_ok j'" "j_next_id j' = j_next_id j"
        "j_events j' = drop i (j_events j)"
      using journal.trim_law [OF h(2) assms(3) app] by blast
    let ?s = "after_commit e (publish_file_version kind (s\<lparr>se_disk := Some d'\<rparr>)\<lparr>se_journal := j'\<rparr>)"
    have eq: "append_locked x io now kind s = Some (?s, Inr e)"
      by (simp add: append_locked_def persist_event_def app e h(1) dr ok j'(1))
    have "suffix (j_events j') (log @ [e])"
      using j'(4) a e suffix_drop_append [OF h(4)] by simp
    moreover have "\<exists>sealed recent. disk_holds ?k d' sealed recent \<and> log @ [e] = sealed @ recent"
      using d'(1,2) ok by (intro exI [of _ sealed'] exI [of _ recent']) simp
    ultimately have "session_log x ?s d' (log @ [e])"
      using h(3) d'(3) j'(2,3) a by (simp add: session_log_def)
    then show ?thesis
      using eq d'(3) by (intro exI [of _ ?s] exI [of _ d'] exI [of _ "Inr e"]) simp
  qed
qed

section \<open>Subscriptions\<close>

lemma wanted_suffix:
  assumes "consecutive n log" "suffix es log" "n - length es \<le> after"
  shows "wanted after log = filter (\<lambda>e. after < ev_id e) es"
proof -
  obtain pre where log: "log = pre @ es" using assms(2) by (auto simp: suffix_def)
  have len: "length pre + length es \<le> n" using assms(1) unfolding consecutive_def log by simp
  have "\<not> after < ev_id (pre ! i)" if "i < length pre" for i
  proof -
    have "ev_id ((pre @ es) ! i) = Suc (n - length (pre @ es)) + i"
      using consecutive_nth [OF assms(1), of i] that unfolding log by simp
    then show ?thesis using that assms(3) len by (simp add: nth_append)
  qed
  then have "filter (\<lambda>e. after < ev_id e) pre = []"
    unfolding filter_empty_conv by (metis in_set_conv_nth)
  then show ?thesis by (simp add: wanted_def log)
qed

lemma wanted_nonempty:
  assumes "consecutive n log" "n - length log \<le> after" "after < n"
  shows "wanted after log \<noteq> []"
proof -
  have "log \<noteq> []" using assms by auto
  then have "0 < length log" "last log \<in> set log" "last log = log ! (length log - 1)"
    by (simp_all add: last_conv_nth)
  moreover from this have "ev_id (last log) = Suc (n - length log) + (length log - 1)"
    using consecutive_nth [OF assms(1), of "length log - 1"] by simp
  moreover have "length log \<le> n" using assms(1) by (simp add: consecutive_def)
  ultimately have "last log \<in> set log" "ev_id (last log) = n" by (simp, linarith)
  then show ?thesis using assms(3) by (auto simp: wanted_def filter_empty_conv)
qed

text \<open>What a reconnecting client gets: everything after its cursor, or an explicit signal
  that it must start from the snapshot.\<close>

lemma events_since_complete:
  assumes "session_lawful x" "session_log x s d log"
    and "after \<le> j_next_id (se_journal s)" "j_next_id (se_journal s) < u64_max"
  shows "events_since_locked x after s = Some (Inr
    (if dk_snapshot_boundary d \<le> after
        \<and> (replay_fits (wanted after log)
           \<or> j_next_id (se_journal s) - length (j_events (se_journal s)) \<le> after)
     then (wanted after log, False, False)
     else ([], True, dk_snapshot_boundary d \<le> after)))"
proof -
  let ?j = "se_journal s" and ?b = "dk_snapshot_boundary d"
  let ?n = "j_next_id ?j" and ?start = "j_next_id ?j - length (j_events ?j)"
  obtain sealed recent where h: "se_disk s = Some d" "journal_inv ?j" "?n = ?b + length log"
      "suffix (j_events ?j) log" "disk_holds (sx_log x) d sealed recent" "log = sealed @ recent"
    using assms(2) by (auto simp: session_log_def journal_ok_def)
  note c = session_log_consecutive [OF assms(2)]
  have start: "?b \<le> ?start" using h(3,4) suffix_length_le [OF h(4)] by simp
  note since = journal_since_eq [OF h(2) assms(3,4)]
  note durable = read_events_since_eq [OF session_lawfulD(1) [OF assms(1)] h(5), of after, folded h(6)]
  show ?thesis
  proof (cases "after < ?start")
    case False
    then have "wanted after log = filter (\<lambda>e. after < ev_id e) (j_events ?j)"
      using wanted_suffix [OF c h(4)] by simp
    then show ?thesis
      using False start by (simp add: events_since_locked_def since)
  next
    case True
    have "wanted after log \<noteq> []" if "?b \<le> after"
      using wanted_nonempty [OF c] True that h(3) by simp
    moreover have "\<not> after < ?b \<longleftrightarrow> ?b \<le> after" by auto
    ultimately show ?thesis
      using True by (simp add: events_since_locked_def since h(1) durable)
  qed
qed

section \<open>Runs of commits\<close>

text \<open>A sequence of commit attempts; a failed attempt leaves the session as it was.\<close>

fun append_run ::
    "session_codec \<Rightarrow> (append_io \<times> u64 \<times> event_kind) list \<Rightarrow> session \<Rightarrow> session option" where
  "append_run x [] s = Some s"
| "append_run x ((io, now, kind) # rest) s =
     (case append_locked x io now kind s of
        None \<Rightarrow> None
      | Some (s, _) \<Rightarrow> append_run x rest s)"

lemma append_run_log:
  assumes "session_lawful x" "session_log x s d log" "\<forall>(io, now, kind) \<in> set attempts. storable_kind kind"
    and "j_next_id (se_journal s) + length attempts \<le> u64_max"
  shows "\<exists>s' d' new. append_run x attempts s = Some s' \<and> session_log x s' d' (log @ new)
    \<and> dk_snapshot_boundary d' = dk_snapshot_boundary d \<and> se_event_tx s' = se_event_tx s @ new
    \<and> j_next_id (se_journal s') \<le> j_next_id (se_journal s) + length attempts"
  using assms(2-)
proof (induction attempts arbitrary: s d log)
  case Nil
  then show ?case by (intro exI [of _ s] exI [of _ d] exI [of _ "[]"]) simp
next
  case (Cons a attempts)
  obtain io now kind where a: "a = (io, now, kind)" by (cases a)
  have kind: "storable_kind kind" and rest: "\<forall>(io, now, kind) \<in> set attempts. storable_kind kind"
    and lt: "j_next_id (se_journal s) < u64_max"
    using Cons.prems(2,3) by (auto simp: a)
  obtain s1 d1 r es where s1: "append_locked x io now kind s = Some (s1, r)"
      "dk_snapshot_boundary d1 = dk_snapshot_boundary d" "session_log x s1 d1 (log @ es)"
      "se_event_tx s1 = se_event_tx s @ es" "length es \<le> 1"
    using append_locked_log [OF assms(1) Cons.prems(1) kind lt, of io now]
    by (metis append_Nil2 le_numeral_extra(3,4) length_Cons list.size(3) One_nat_def zero_le_one)
  have next1: "j_next_id (se_journal s1) \<le> Suc (j_next_id (se_journal s))"
    using s1(2,3,5) Cons.prems(1) by (auto simp: session_log_def)
  then have "j_next_id (se_journal s1) + length attempts \<le> u64_max" using Cons.prems(3) by simp
  from Cons.IH [OF s1(3) rest this]
  obtain s' d' new where "append_run x attempts s1 = Some s'" "session_log x s' d' ((log @ es) @ new)"
      "dk_snapshot_boundary d' = dk_snapshot_boundary d1" "se_event_tx s' = se_event_tx s1 @ new"
      "j_next_id (se_journal s') \<le> j_next_id (se_journal s1) + length attempts" by blast
  then show ?case
    using s1(1,2,4) next1 by (intro exI [of _ s'] exI [of _ d'] exI [of _ "es @ new"]) (simp add: a)
qed

lemma wanted_new:
  assumes "consecutive n (log @ new)" "after \<le> n - length new"
  shows "wanted after (log @ new) = wanted after log @ new"
proof -
  have len: "length log + length new \<le> n" using assms(1) by (simp add: consecutive_def)
  have "after < ev_id (new ! i)" if "i < length new" for i
  proof -
    have "ev_id ((log @ new) ! (length log + i)) = Suc (n - length (log @ new)) + (length log + i)"
      using consecutive_nth [OF assms(1), of "length log + i"] that by simp
    then show ?thesis using assms(2) len by simp
  qed
  then have "filter (\<lambda>e. after < ev_id e) new = new"
    unfolding filter_id_conv by (metis in_set_conv_nth)
  then show ?thesis by (simp add: wanted_def)
qed

section \<open>Acknowledgements\<close>

definition consumers_bounded :: "session \<Rightarrow> bool" where
  "consumers_bounded s \<longleftrightarrow> (\<forall>cid c. fmlookup (se_event_consumers s) cid = Some c \<longrightarrow>
     ec_acknowledged_event_id c \<le> j_next_id (se_journal s))"

lemma store_consumers_cases:
  assumes "store_consumers x io_ok cs s = (s', r)"
  obtains (failed) e where "r = Inl e" "s' = s"
    | (stored) f where "r = Inr ()" "s' = s\<lparr>se_consumers_file := f, se_event_consumers := cs\<rparr>"
        "se_disk s \<noteq> None \<Longrightarrow> persist_event_consumers (lc_crc (sx_log x)) (sx_consumers x) io_ok cs
           (se_consumers_file s) = (f, Inr ())"
proof (cases "se_disk s")
  case None
  then show ?thesis
    using assms stored [of "se_consumers_file s"] by (auto simp: store_consumers_def)
next
  case (Some d)
  obtain f q where p: "persist_event_consumers (lc_crc (sx_log x)) (sx_consumers x) io_ok cs
      (se_consumers_file s) = (f, q)" by force
  show ?thesis
  proof (cases q)
    case (Inl e)
    then have "f = se_consumers_file s" using persist_failed p by blast
    then show ?thesis using assms failed [of e] Some p Inl by (auto simp: store_consumers_def)
  next
    case (Inr u)
    then show ?thesis using assms stored [of f] Some p by (auto simp: store_consumers_def)
  qed
qed

end
