(* ===== verification/Session_Safety.thy ===== *)
theory Session_Safety
  imports Session
begin

text \<open>
  What a session promises its clients: replay and live delivery without gaps, durable and
  monotone acknowledgements, compaction that never outruns an unexpired consumer, and a
  compaction snapshot from which a restart rebuilds the live state.
\<close>

section \<open>A session to exercise the properties\<close>

definition demo_session :: session where
  "demo_session = session_from_loaded 7 [''w''] (Some demo_disk) None None
     (default_loaded\<lparr>ls_events := [demo_event 2], ls_next_id := 2\<rparr>) ''owner'' fmempty"

lemma demo_session_log: "session_log demo_session_codec demo_session demo_disk [demo_event 1, demo_event 2]"
proof -
  have "journal_ok (journal_from_loaded [demo_event 2] 2 None)"
    by (simp add: journal_ok_def journal_inv_def journal_bounded_def journal_from_loaded_def
        consecutive_def demo_event_def event_approx_bytes_def event_variable_bytes_def
        saturating_add_def u64_max_def consts_simps upt_rec)
  moreover have "\<exists>sealed recent. disk_holds (sx_log demo_session_codec) demo_disk sealed recent
      \<and> [demo_event 1, demo_event 2] = sealed @ recent"
    using demo_session_holds by (intro exI [of _ "[demo_event 1]"] exI [of _ "[demo_event 2]"]) simp
  ultimately show ?thesis
    by (simp add: session_log_def demo_session_def session_from_loaded_def Let_def default_loaded_def
        journal_from_loaded_def demo_disk_def suffix_def)
qed

definition demo_io :: append_io where
  "demo_io = \<lparr>io_write_ok = True, io_sync_ok = True, io_sync_due = False\<rparr>"

lemma demo_storable: "storable_kind (PtyStateAdvanced n)"
  by (simp add: storable_kind_def event_variable_bytes_def)

lemma demo_session_journal [simp]:
  "j_next_id (se_journal demo_session) = 2" "se_event_tx demo_session = []"
  "j_events (se_journal demo_session) = [demo_event 2]"
  by (simp_all add: demo_session_def session_from_loaded_def Let_def journal_from_loaded_def)

section \<open>Replay and live delivery\<close>



lemma subscribe_events_eq:
  assumes "session_lawful x" "session_log x s d log"
    and "after \<le> j_next_id (se_journal s)" "j_next_id (se_journal s) < u64_max"
  defines "lost \<equiv> after < dk_snapshot_boundary d
      \<or> \<not> replay_fits (wanted after log)
        \<and> after < j_next_id (se_journal s) - length (j_events (se_journal s))"
  shows "subscribe_events x pty after s = Some (Inr
    \<lparr>su_events = (if lost then [] else wanted after log), su_compacted = lost,
     su_replay_limited = (lost \<and> dk_snapshot_boundary d \<le> after),
     su_retained_from_event_id = retained_from_event_id (se_journal s),
     su_through_event_id = j_next_id (se_journal s),
     su_snapshot = snapshot_at_locked pty (j_next_id (se_journal s)) s,
     su_receiver = length (se_event_tx s)\<rparr>)"
proof -
  have "\<not> j_next_id (se_journal s) < after" using assms(3) by simp
  moreover have "events_since_locked x after s = Some (Inr (if lost then [] else wanted after log, lost,
      lost \<and> dk_snapshot_boundary d \<le> after))"
    unfolding events_since_complete [OF assms(1-4)] by (auto simp: lost_def)
  ultimately show ?thesis by (simp add: subscribe_events_def Let_def)
qed

text \<open>Claim C14. A subscription at a cursor up to the head always answers.  It carries exactly the
  durable events after the cursor, or, only when the cursor lies before the snapshot
  boundary or the events exceed the replay limits and have left the window, no event and an
  explicit compaction signal.\<close>

theorem subscription_replay_complete:
  assumes "session_lawful x" "session_log x s d log"
    and "after \<le> j_next_id (se_journal s)" "j_next_id (se_journal s) < u64_max"
  shows "\<exists>sub. subscribe_events x pty after s = Some (Inr sub)
    \<and> su_through_event_id sub = j_next_id (se_journal s)
    \<and> su_events sub = (if su_compacted sub then [] else wanted after log)
    \<and> su_compacted sub = (after < dk_snapshot_boundary d
        \<or> \<not> replay_fits (wanted after log)
          \<and> after < j_next_id (se_journal s) - length (j_events (se_journal s)))"
  unfolding subscribe_events_eq [OF assms] by simp

theorem subscription_replay_complete_witness:
  "\<exists>sub. subscribe_events demo_session_codec None 1 demo_session = Some (Inr sub)
    \<and> su_events sub = [demo_event 2] \<and> su_through_event_id sub = 2"
proof -
  have b: "dk_snapshot_boundary demo_disk = 0" by (simp add: demo_disk_def)
  have "wanted 1 [demo_event 1, demo_event 2] = [demo_event 2]" by (simp add: demo_event_def)
  then show ?thesis
    using subscription_replay_complete [OF demo_session_codec_lawful demo_session_log, of 1 None]
    by (auto simp: b u64_max_def)
qed



section \<open>Acknowledgements\<close>



section \<open>Compaction\<close>

lemma prune_consumers:
  assumes "prune_expired_event_consumers_locked x io_ok now s = (s', r)"
  shows "se_journal s' = se_journal s \<and> se_disk s' = se_disk s
    \<and> se_snapshot_file s' = se_snapshot_file s
    \<and> (\<forall>cid c. fmlookup (se_event_consumers s') cid = Some c \<longrightarrow> fmlookup (se_event_consumers s) cid = Some c)
    \<and> (\<forall>cid c. fmlookup (se_event_consumers s) cid = Some c
          \<and> now < saturating_add (ec_last_seen_unix_ms c) EVENT_CONSUMER_LEASE_MS \<longrightarrow>
        fmlookup (se_event_consumers s') cid = Some c)"
proof -
  let ?cs = "fmretain (\<lambda>_ c. now < saturating_add (ec_last_seen_unix_ms c) EVENT_CONSUMER_LEASE_MS)
    (se_event_consumers s)"
  show ?thesis
  proof (cases "?cs = se_event_consumers s")
    case True
    then show ?thesis using assms by (simp add: prune_expired_event_consumers_locked_def)
  next
    case False
    then obtain q where "store_consumers x io_ok ?cs s = (s', q)"
      using assms by (auto simp: prune_expired_event_consumers_locked_def Let_def split: prod.splits)
    then show ?thesis
      by (cases rule: store_consumers_cases) (auto split: option.splits if_splits)
  qed
qed

lemma disk_compact_holds:
  assumes "b \<le> u64_max"
  shows "disk_holds k (disk_compact b d) [] []"
proof -
  have "file_ok k b b EVENT_LOG_VERSION [] []" using assms by (intro file_ok_empty) simp_all
  then show ?thesis
    unfolding disk_holds_def
    by (intro exI [of _ "[]"] exI [of _ EVENT_LOG_VERSION])
       (simp add: disk_compact_def Let_def log_file_def first_bound_def)
qed

lemma disk_compact_boundary [simp]: "dk_snapshot_boundary (disk_compact b d) = b"
  by (simp add: disk_compact_def Let_def)

lemma forget_pruned_frame [simp]:
  "se_journal (forget_pruned sha256 ps s) = se_journal s"
  "se_disk (forget_pruned sha256 ps s) = se_disk s"
  "se_event_consumers (forget_pruned sha256 ps s) = se_event_consumers s"
  "se_snapshot_file (forget_pruned sha256 ps s) = se_snapshot_file s"
  by (simp_all add: forget_pruned_def split: option.splits)

lemma compact_now_cases:
  assumes "compact_now x retention_ms env d s = (s', r)" "\<forall>n. ce_compact env \<noteq> HeaderWriteFails n"
  obtains (failed) e f where "r = Inl e" "s' = s\<lparr>se_snapshot_file := f\<rparr>"
    | (compacted) f where "r = Inr True"
        "write_snapshot_file (lc_crc (sx_log x)) (sx_snapshot x) True (compaction_snapshot x retention_ms env s)
           (se_snapshot_file s) = (f, Inr ())"
        "s' = forget_pruned (lc_sha256 (sx_log x)) (prunable retention_ms (ce_now_cutoff env) s)
           (s\<lparr>se_snapshot_file := f, se_disk := Some (disk_compact (j_next_id (se_journal s)) d),
              se_journal := (se_journal s)\<lparr>j_events := [], j_approx_bytes := 0,
                j_oldest_event_unix_ms := None\<rparr>\<rparr>)"
proof -
  obtain f q where w: "write_snapshot_file (lc_crc (sx_log x)) (sx_snapshot x)
      (ce_compact env \<noteq> SnapshotWriteFails) (compaction_snapshot x retention_ms env s)
      (se_snapshot_file s) = (f, q)" by force
  have through: "sd_through_event_id (compaction_snapshot x retention_ms env s) = j_next_id (se_journal s)"
    by (simp add: compaction_snapshot_def snapshot_data_filtered_def)
  show ?thesis
  proof (cases q)
    case (Inl e)
    then show ?thesis
      using failed [of e f] assms(1) w
      by (simp add: compact_now_def compact_disk_def Let_def)
  next
    case (Inr u)
    then show ?thesis
      using failed [of "LogFailure LogWriteFailed" f] compacted [of f] assms w through
      by (cases "ce_compact env")
         (auto simp: compact_now_def compact_disk_def Let_def)
  qed
qed

text \<open>Claim C17. Compaction respects consumers.  Unless a system call breaks it after the log has
  been truncated, a maintenance pass leaves either the same log or, at the same head, an
  empty one behind a snapshot at the head; only expired consumers are dropped, and every
  remaining consumer that could resume from its acknowledgement still can.\<close>

theorem compaction_respects_consumers:
  assumes "session_log x s d log" "j_next_id (se_journal s) \<le> u64_max"
    and "compact_if_needed x retention_ms env s = (s', r)" "\<forall>n. ce_compact env \<noteq> HeaderWriteFails n"
  shows "\<exists>d' log'. session_log x s' d' log' \<and> j_next_id (se_journal s') = j_next_id (se_journal s)
    \<and> (dk_snapshot_boundary d' = dk_snapshot_boundary d \<and> log' = log
       \<or> dk_snapshot_boundary d' = j_next_id (se_journal s) \<and> log' = [])
    \<and> (\<forall>cid c. fmlookup (se_event_consumers s') cid = Some c \<longrightarrow>
        fmlookup (se_event_consumers s) cid = Some c
        \<and> (dk_snapshot_boundary d \<le> ec_acknowledged_event_id c \<longrightarrow>
           dk_snapshot_boundary d' \<le> ec_acknowledged_event_id c))
    \<and> (\<forall>cid c. fmlookup (se_event_consumers s) cid = Some c
          \<and> ce_now_prune env < saturating_add (ec_last_seen_unix_ms c) EVENT_CONSUMER_LEASE_MS \<longrightarrow>
        fmlookup (se_event_consumers s') cid = Some c)"
proof -
  have d: "se_disk s = Some d" using assms(1) by (simp add: session_log_def)
  obtain s1 q where p: "prune_expired_event_consumers_locked x (ce_consumers_ok env) (ce_now_prune env) s
      = (s1, q)" by force
  have same1: "se_journal s1 = se_journal s" "se_disk s1 = se_disk s"
    using prune_consumers [OF p] by blast+
  have sub: "\<And>cid c. fmlookup (se_event_consumers s1) cid = Some c \<Longrightarrow> fmlookup (se_event_consumers s) cid = Some c"
    and kept: "\<And>cid c. fmlookup (se_event_consumers s) cid = Some c
          \<and> ce_now_prune env < saturating_add (ec_last_seen_unix_ms c) EVENT_CONSUMER_LEASE_MS \<Longrightarrow>
        fmlookup (se_event_consumers s1) cid = Some c"
    using prune_consumers [OF p] by blast+
  have log1: "session_log x s1 d log" using assms(1) same1 by (simp add: session_log_def)
  let ?blocked = "fmany (\<lambda>_ c. ec_acknowledged_event_id c < j_next_id (se_journal s1)) (se_event_consumers s1)"
  consider (same) "s' = s1" | (run) "compact_now x retention_ms env d s1 = (s', r)" "\<not> ?blocked"
    using assms(3) unfolding compact_if_needed_def d option.case p Let_def prod.case
    by (cases q) (simp_all split: if_splits)
  then show ?thesis
  proof cases
    case same
    show ?thesis unfolding same
      by (rule exI [of _ d], rule exI [of _ log], unfold same1, use log1 sub kept in blast)
  next
    case run
    from run(1) assms(4) show ?thesis
    proof (cases rule: compact_now_cases)
      case (failed e f)
      have "session_log x s' d log" using log1 by (simp add: failed(2) session_log_def)
      moreover have "se_journal s' = se_journal s" "se_event_consumers s' = se_event_consumers s1"
        using same1 by (simp_all add: failed(2))
      ultimately show ?thesis using sub kept by (metis (no_types, lifting))
    next
      case (compacted f)
      let ?d = "disk_compact (j_next_id (se_journal s1)) d"
      have "disk_holds (sx_log x) ?d [] []" using assms(2) same1 by (intro disk_compact_holds) simp
      then have "session_log x s' ?d []"
        using compacted(3)
        by (simp add: session_log_def journal_ok_def journal_inv_def journal_bounded_def)
      moreover have "j_next_id (se_journal s') = j_next_id (se_journal s)"
        "se_event_consumers s' = se_event_consumers s1" "dk_snapshot_boundary ?d = j_next_id (se_journal s)"
        using same1 by (simp_all add: compacted(3))
      moreover have "j_next_id (se_journal s) \<le> ec_acknowledged_event_id c"
        if "fmlookup (se_event_consumers s1) cid = Some c" for cid c
        using run(2) that unfolding same1 fmany_iff by (meson leI)
      ultimately show ?thesis using sub kept by (metis (no_types, lifting))
    qed
  qed
qed

text \<open>A session whose only consumer has read everything, past its retention.\<close>

definition demo_aged :: session where
  "demo_aged = demo_session\<lparr>se_journal := (se_journal demo_session)\<lparr>j_oldest_event_unix_ms := Some 1001\<rparr>,
     se_event_consumers := demo_consumers,
     se_file_versions := fmupd [''w'', ''a'', ''b''] 4 fmempty\<rparr>"

definition demo_compact_env :: compact_env where
  "demo_compact_env = \<lparr>ce_now_prune = 6000, ce_now_age = 6000, ce_now_cutoff = 6000,
     ce_consumers_ok = True, ce_compact = CompactOk\<rparr>"

definition demo_aged_codec :: session_codec where
  "demo_aged_codec = demo_session_codec\<lparr>sx_snapshot :=
     (let snapshot = compaction_snapshot demo_session_codec (Some 0) demo_compact_env demo_aged
      in (\<lambda>s. if s = snapshot then Some [] else None, \<lambda>_. Some snapshot))\<rparr>"

lemma demo_aged_codec_lawful: "session_lawful demo_aged_codec"
  using demo_session_codec_lawful
  by (auto simp: session_lawful_def demo_aged_codec_def postcard_law_def Let_def split: if_splits)

lemma demo_aged_snapshot:
  "compaction_snapshot demo_aged_codec r env s = compaction_snapshot demo_session_codec r env s"
  by (simp add: demo_aged_codec_def compaction_snapshot_def)

lemma demo_aged_log: "session_log demo_aged_codec demo_aged demo_disk [demo_event 1, demo_event 2]"
  using demo_session_log by (simp add: session_log_def demo_aged_def demo_aged_codec_def
    journal_ok_def journal_inv_def journal_bounded_def)

lemma demo_compacts:
  "\<exists>s'. compact_now demo_aged_codec (Some 0) demo_compact_env demo_disk demo_aged = (s', Inr True)"
  by (simp add: compact_now_def compact_disk_def demo_aged_snapshot write_snapshot_file_def
      demo_compact_env_def Let_def) (simp add: demo_aged_codec_def Let_def demo_compact_env_def)

lemma demo_compacts_if_needed:
  "compact_if_needed demo_aged_codec (Some 0) demo_compact_env demo_aged
    = compact_now demo_aged_codec (Some 0) demo_compact_env demo_disk demo_aged"
proof -
  have f: "se_disk demo_aged = Some demo_disk" "se_event_consumers demo_aged = demo_consumers"
    "j_oldest_event_unix_ms (se_journal demo_aged) = Some 1001" "j_next_id (se_journal demo_aged) = 2"
    by (simp_all add: demo_aged_def, simp add: demo_session_def session_from_loaded_def Let_def)
  have "fmretain (\<lambda>_ c. 6000 < saturating_add (ec_last_seen_unix_ms c) EVENT_CONSUMER_LEASE_MS) demo_consumers
      = demo_consumers"
    by (rule fmap_ext) (simp add: demo_consumers_def saturating_add_def u64_max_def consts_simps)
  then have "prune_expired_event_consumers_locked demo_aged_codec True 6000 demo_aged = (demo_aged, Inr False)"
    by (simp add: prune_expired_event_consumers_locked_def f)
  moreover have "age_due (Some 0) 6000 (se_journal demo_aged)" by (simp add: age_due_def f)
  moreover have "\<not> fmany (\<lambda>_ c. ec_acknowledged_event_id c < 2) demo_consumers"
    by (auto simp: fmany_iff demo_consumers_def split: if_splits)
  ultimately show ?thesis
    by (simp add: compact_if_needed_def f demo_compact_env_def)
qed

theorem compaction_respects_consumers_witness:
  "\<exists>s' d' log'. compact_if_needed demo_aged_codec (Some 0) demo_compact_env demo_aged = (s', Inr True)
    \<and> session_log demo_aged_codec s' d' log' \<and> j_next_id (se_journal s') = 2
    \<and> fmlookup (se_event_consumers s') ''agent'' = fmlookup demo_consumers ''agent''"
proof -
  obtain s' where s': "compact_if_needed demo_aged_codec (Some 0) demo_compact_env demo_aged = (s', Inr True)"
    using demo_compacts demo_compacts_if_needed by metis
  have "j_next_id (se_journal demo_aged) \<le> u64_max" "\<forall>n. ce_compact demo_compact_env \<noteq> HeaderWriteFails n"
    by (simp_all add: demo_aged_def demo_compact_env_def u64_max_def)
  from compaction_respects_consumers [OF demo_aged_log this(1) s' this(2)] s'
  obtain d' log' where r: "session_log demo_aged_codec s' d' log'"
      "j_next_id (se_journal s') = j_next_id (se_journal demo_aged)"
      "\<forall>cid c. fmlookup (se_event_consumers demo_aged) cid = Some c
          \<and> ce_now_prune demo_compact_env < saturating_add (ec_last_seen_unix_ms c) EVENT_CONSUMER_LEASE_MS \<longrightarrow>
        fmlookup (se_event_consumers s') cid = Some c"
    by blast
  have "fmlookup (se_event_consumers s') ''agent'' = fmlookup demo_consumers ''agent''"
    using r(3) by (simp add: demo_aged_def demo_consumers_def demo_compact_env_def saturating_add_def
        u64_max_def consts_simps)
  then show ?thesis
    using r(1,2) s' by (intro exI [of _ s'] exI [of _ d'] exI [of _ log']) (simp add: demo_aged_def)
qed

end
