(* ===== verification/Session_Restart.thy ===== *)
theory Session_Restart
  imports Session_Safety
begin

text \<open>
  Compaction and restart together: the snapshot a compaction publishes carries the whole
  live state of the session, file versions included, back into a session started from it.
\<close>

section \<open>What a restart reads back from a compaction\<close>

lemma sorted_list_of_fmap_distinct: "distinct (map fst (sorted_list_of_fmap m))"
  by (simp add: sorted_list_of_fmap_def comp_def sorted_list_of_fset.rep_eq)

lemma sorted_list_of_fmap_iff: "(k, v) \<in> set (sorted_list_of_fmap m) \<longleftrightarrow> fmlookup m k = Some v"
  by (metis map_of_eq_Some_iff sorted_list_of_fmap_distinct map_of_sorted_list)

lemma raise_version_lookup:
  "fmlookup (raise_version j v m) k =
    (if k = j then Some (case fmlookup m k of None \<Rightarrow> v | Some w \<Rightarrow> max w v) else fmlookup m k)"
  by (simp add: raise_version_def)

lemma fold_raise_version:
  assumes "distinct (map fst xs)"
  shows "fmlookup (fold (\<lambda>(k, version). raise_version k version) xs m) k =
    (case map_of xs k of
       None \<Rightarrow> fmlookup m k
     | Some v \<Rightarrow> Some (case fmlookup m k of None \<Rightarrow> v | Some w \<Rightarrow> max w v))"
  using assms
proof (induction xs arbitrary: m)
  case (Cons x xs)
  obtain j v where x: "x = (j, v)" by force
  then have "j \<notin> fst ` set xs" "distinct (map fst xs)" using Cons.prems by auto
  then have "map_of xs j = None" by (simp add: map_of_eq_None_iff)
  then show ?case
    using Cons.IH [OF \<open>distinct (map fst xs)\<close>, of "raise_version j v m"]
    unfolding x fold.simps map_of.simps prod.case comp_apply fst_conv snd_conv
    by (simp add: raise_version_lookup cong: option.case_cong)
qed simp

lemma merge_file_versions_lookup:
  "fmlookup (merge_file_versions versions workspace) k =
    (case fmlookup versions k of
       None \<Rightarrow> fmlookup workspace k
     | Some v \<Rightarrow> Some (case fmlookup workspace k of None \<Rightarrow> v | Some w \<Rightarrow> max w v))"
  unfolding merge_file_versions_def
  by (simp add: fold_raise_version [OF sorted_list_of_fmap_distinct] map_of_sorted_list)

lemma fold_loaded_versions:
  assumes "\<forall>a v b w. (a, v) \<in> set xs \<and> (b, w) \<in> set xs \<and> key a = key b \<and> key a \<noteq> None \<longrightarrow> v = w"
  shows "fmlookup (fold (\<lambda>(relative, version) m. case key relative of
             None \<Rightarrow> m | Some k \<Rightarrow> fmupd k version m) xs m) k = Some v
    \<longleftrightarrow> (\<exists>a. key a = Some k \<and> (a, v) \<in> set xs)
      \<or> (\<forall>a w. key a = Some k \<longrightarrow> (a, w) \<notin> set xs) \<and> fmlookup m k = Some v"
  using assms
proof (induction xs arbitrary: m)
  case (Cons x xs)
  obtain a w where x: "x = (a, w)" by force
  have "\<forall>a v b w. (a, v) \<in> set xs \<and> (b, w) \<in> set xs \<and> key a = key b \<and> key a \<noteq> None \<longrightarrow> v = w"
    using Cons.prems by (meson list.set_intros(2))
  note IH = Cons.IH [OF this]
  show ?case
  proof (cases "key a")
    case None
    then show ?thesis unfolding x using IH [of m] by auto
  next
    case (Some j)
    have "v = w" if "key b = Some j" "(b, v) \<in> set xs" for b v
      using Cons.prems that Some unfolding x by (metis list.set_intros option.distinct(1))
    then show ?thesis unfolding x using IH [of "fmupd j w m"] Some by (auto; metis)
  qed
qed simp

text \<open>A key that \<open>resolve_path\<close> produces under the root: ordinary names, none reserved.\<close>

definition workspace_names :: "path_key \<Rightarrow> bool" where
  "workspace_names names \<longleftrightarrow> names \<noteq> [] \<and> (\<forall>w \<in> set names. valid_name w \<and> w \<noteq> ''.asp'')"

definition workspace_keys :: "path_key \<Rightarrow> (path_key, u64) fmap \<Rightarrow> bool" where
  "workspace_keys root m \<longleftrightarrow>
     (\<forall>names v. fmlookup m (root @ names) = Some v \<longrightarrow> workspace_names names)"

lemma workspace_names_key:
  assumes "workspace_names names"
  shows "loaded_version_key root (join_slash names) = Some (root @ names)"
proof -
  have valid: "\<forall>w \<in> set names. valid_name w" "names \<noteq> []" using assms by (auto simp: workspace_names_def)
  have "\<not> list_ex (\<lambda>c. escapes c \<or> reserved c) (map Normal names)"
    using assms by (auto simp: list_ex_iff escapes_def reserved_def workspace_names_def)
  then show ?thesis
    using join_components [OF valid] by (simp add: loaded_version_key_def path_names_join [OF valid(1)])
qed

lemma relative_file_versions_lookup:
  assumes "workspace_keys root m"
  shows "fmlookup (relative_file_versions root m) relative = Some v \<longleftrightarrow>
    (\<exists>names. workspace_names names \<and> relative = join_slash names \<and> fmlookup m (root @ names) = Some v)"
    (is "?l \<longleftrightarrow> ?r")
proof -
  let ?xs = "map (\<lambda>(k, version). (join_slash (drop (length root) k), version))
       (filter (\<lambda>(k, version). prefix root k) (sorted_list_of_fmap m))"
  have mem: "(relative, v) \<in> set ?xs \<longleftrightarrow> (\<exists>names. relative = join_slash names
      \<and> fmlookup m (root @ names) = Some v)" for relative v
    by (force simp: sorted_list_of_fmap_iff prefix_def image_iff)
  have inj: "names = names'" if "workspace_names names" "workspace_names names'"
      "join_slash names = join_slash names'" for names names'
    using that by (metis path_names_join workspace_names_def)
  have "map_of ?xs relative = Some v \<longleftrightarrow> (relative, v) \<in> set ?xs"
  proof
    assume "(relative, v) \<in> set ?xs"
    then have "map_of ?xs relative \<noteq> None" by (simp add: map_of_eq_None_iff) force
    then obtain w where w: "map_of ?xs relative = Some w" by blast
    then have "(relative, w) \<in> set ?xs" by (rule map_of_SomeD)
    then show "map_of ?xs relative = Some v"
      using \<open>(relative, v) \<in> set ?xs\<close> w assms inj unfolding mem workspace_keys_def by (metis option.inject)
  qed (rule map_of_SomeD)
  then show ?thesis
    using assms unfolding mem relative_file_versions_def fmlookup_of_list workspace_keys_def by blast
qed

lemma file_versions_roundtrip:
  assumes "workspace_keys root m"
  shows "fmlookup (loaded_file_versions root (relative_file_versions root m)) (root @ names)
    = fmlookup m (root @ names)"
proof -
  let ?xs = "sorted_list_of_fmap (relative_file_versions root m)"
  have mem: "(a, v) \<in> set ?xs \<longleftrightarrow> (\<exists>names. workspace_names names \<and> a = join_slash names
      \<and> fmlookup m (root @ names) = Some v)" for a v
    by (simp only: sorted_list_of_fmap_iff relative_file_versions_lookup [OF assms])
  have "\<forall>a v b w. (a, v) \<in> set ?xs \<and> (b, w) \<in> set ?xs
      \<and> loaded_version_key root a = loaded_version_key root b \<and> loaded_version_key root a \<noteq> None \<longrightarrow> v = w"
    by (auto simp: mem workspace_names_key)
  from fold_loaded_versions [OF this, of fmempty "root @ names"]
  have "fmlookup (loaded_file_versions root (relative_file_versions root m)) (root @ names) = Some v
      \<longleftrightarrow> fmlookup m (root @ names) = Some v" for v
    unfolding loaded_file_versions_def mem
    using assms unfolding workspace_keys_def
    by (auto simp: workspace_names_key) (metis workspace_names_key)
  then show ?thesis by (metis option.exhaust)
qed

lemma hash_command_idem [simp]:
  "hash_command sha256 (hash_command sha256 q) = hash_command sha256 q"
  "hash_command sha256 (forget_command sha256 q) = forget_command sha256 q"
  "pq_process_id (hash_command sha256 q) = pq_process_id q"
  by (simp_all add: hash_command_def forget_command_def)

lemma pruned_processes:
  "fmfilter (\<lambda>pid. \<not> pruned ps pid) (se_processes s) = se_processes (forget_pruned sha256 ps s)"
  by (cases ps) (auto simp: pruned_def forget_pruned_def intro!: fmap_ext)

lemma pruned_requests:
  "fmmap (hash_command sha256) (fmmap (\<lambda>request.
      if pruned ps (pq_process_id request) then forget_command sha256 request
      else hash_command sha256 request) (se_process_requests s))
    = fmmap (hash_command sha256) (se_process_requests (forget_pruned sha256 ps s))"
  by (cases ps) (auto simp: pruned_def forget_pruned_def fmap.map_comp comp_def intro!: fmap.map_cong)

lemma forget_pruned_live [simp]:
  "se_file_requests (forget_pruned sha256 ps s) = se_file_requests s"
  "se_signal_requests (forget_pruned sha256 ps s) = se_signal_requests s"
  "se_artifact_requests (forget_pruned sha256 ps s) = se_artifact_requests s"
  "se_artifacts (forget_pruned sha256 ps s) = se_artifacts s"
  "se_pty_started (forget_pruned sha256 ps s) = se_pty_started s"
  "se_pty_generation (forget_pruned sha256 ps s) = se_pty_generation s"
  "se_file_versions (forget_pruned sha256 ps s) = se_file_versions s"
  by (simp_all add: forget_pruned_def split: option.splits)

lemma forget_pruned_processes:
  "se_processes (forget_pruned sha256 ps s) = (case ps of
     None \<Rightarrow> se_processes s | Some ps \<Rightarrow> fmfilter (\<lambda>pid. pid |\<notin>| ps) (se_processes s))"
  "se_process_requests (forget_pruned sha256 ps s) = (case ps of
     None \<Rightarrow> se_process_requests s
   | Some ps \<Rightarrow> fmmap (\<lambda>request. if pq_process_id request |\<in>| ps then forget_command sha256 request
       else request) (se_process_requests s))"
  by (simp_all add: forget_pruned_def split: option.splits)

lemma forget_pruned_disk [simp]:
  "se_processes (forget_pruned sha256 ps (s\<lparr>se_snapshot_file := f, se_disk := d, se_journal := j\<rparr>))
    = se_processes (forget_pruned sha256 ps s)"
  "se_process_requests (forget_pruned sha256 ps (s\<lparr>se_snapshot_file := f, se_disk := d, se_journal := j\<rparr>))
    = se_process_requests (forget_pruned sha256 ps s)"
proof -
  let ?s = "s\<lparr>se_snapshot_file := f, se_disk := d, se_journal := j\<rparr>"
  have same: "se_processes ?s = se_processes s" "se_process_requests ?s = se_process_requests s"
    by simp_all
  show "se_processes (forget_pruned sha256 ps ?s) = se_processes (forget_pruned sha256 ps s)"
    "se_process_requests (forget_pruned sha256 ps ?s) = se_process_requests (forget_pruned sha256 ps s)"
    unfolding forget_pruned_processes same by (rule refl)+
qed

text \<open>Claim C25. A restart from the snapshot of a compaction rebuilds what the running session
  holds after it: the head, the processes, every idempotency record (a command is kept as its
  hash), the artifacts, the PTY and the version of every file of the workspace; finished
  processes past their retention are gone from both.\<close>

theorem compaction_restart_roundtrip:
  assumes "session_lawful x" "compact_now x retention_ms env d s = (s', Inr True)"
    and "\<forall>payload. fst (sx_snapshot x) (compaction_snapshot x retention_ms env s) = Some payload
      \<longrightarrow> length payload \<le> MAX_FRAME_BYTES"
    and "workspace_keys (se_root s) (se_file_versions s)"
  shows "\<exists>snapshot. read_snapshot_file (lc_crc (sx_log x)) (sx_snapshot x) (se_snapshot_file s')
      = Inr (Some snapshot)
    \<and> (let r = session_from_loaded (se_id s) (se_root s) disk file sidecar
                 (loaded_from_snapshot (lc_sha256 (sx_log x)) snapshot) (se_owner s) fmempty
       in j_next_id (se_journal r) = j_next_id (se_journal s')
        \<and> j_events (se_journal r) = [] \<and> j_events (se_journal s') = []
        \<and> se_processes r = se_processes s'
        \<and> se_process_requests r = fmmap (hash_command (lc_sha256 (sx_log x))) (se_process_requests s')
        \<and> se_file_requests r = se_file_requests s' \<and> se_signal_requests r = se_signal_requests s'
        \<and> se_artifact_requests r = se_artifact_requests s' \<and> se_artifacts r = se_artifacts s'
        \<and> se_pty_started r = se_pty_started s' \<and> se_pty_generation r = se_pty_generation s'
        \<and> (\<forall>names. fmlookup (se_file_versions r) (se_root s @ names)
              = fmlookup (se_file_versions s') (se_root s @ names)))"
proof -
  let ?sha = "lc_sha256 (sx_log x)" and ?snap = "compaction_snapshot x retention_ms env s"
  have ok: "\<forall>n. ce_compact env \<noteq> HeaderWriteFails n"
    using assms(2) by (auto simp: compact_now_def compact_disk_def Let_def split: prod.splits sum.splits)
  obtain f where w: "write_snapshot_file (lc_crc (sx_log x)) (sx_snapshot x) True ?snap (se_snapshot_file s)
        = (f, Inr ())"
      and s': "s' = forget_pruned ?sha (prunable retention_ms (ce_now_cutoff env) s)
           (s\<lparr>se_snapshot_file := f, se_disk := Some (disk_compact (j_next_id (se_journal s)) d),
              se_journal := (se_journal s)\<lparr>j_events := [], j_approx_bytes := 0,
                j_oldest_event_unix_ms := None\<rparr>\<rparr>)"
    using assms(2) ok by (cases rule: compact_now_cases) auto
  have "read_snapshot_file (lc_crc (sx_log x)) (sx_snapshot x) (se_snapshot_file s') = Inr (Some ?snap)"
    using snapshot_written [OF assms(1) w] assms(3) by (auto simp: s' not_less)
  then show ?thesis
    unfolding s'
    by (intro exI [of _ ?snap] conjI)
       (simp_all add: Let_def session_from_loaded_def loaded_from_snapshot_def compaction_snapshot_def
         snapshot_data_filtered_def default_loaded_def journal_from_loaded_def pruned_processes
         pruned_requests merge_file_versions_lookup file_versions_roundtrip [OF assms(4)]
         flip: hash_command_def split: option.splits)
qed

lemma compact_now_file_versions:
  "compact_now x retention_ms env d s = (s', r) \<Longrightarrow> se_file_versions s' = se_file_versions s"
  by (auto simp: compact_now_def compact_disk_def Let_def
      split: prod.splits sum.splits compact_io.splits)

lemma demo_aged_fields:
  "se_id demo_aged = 7" "se_root demo_aged = [''w'']" "se_owner demo_aged = ''owner''"
  "se_file_versions demo_aged = fmupd [''w'', ''a'', ''b''] 4 fmempty" "sx_log demo_aged_codec = demo_log_codec"
  by (simp_all add: demo_aged_def demo_session_def session_from_loaded_def Let_def demo_aged_codec_def
      demo_session_codec_def)

theorem compaction_restart_roundtrip_witness:
  "\<exists>snapshot. read_snapshot_file (lc_crc demo_log_codec) (sx_snapshot demo_aged_codec)
      (se_snapshot_file (fst (compact_now demo_aged_codec (Some 0) demo_compact_env demo_disk demo_aged)))
      = Inr (Some snapshot)
    \<and> fmlookup (se_file_versions (session_from_loaded 7 [''w''] None None None
        (loaded_from_snapshot (lc_sha256 demo_log_codec) snapshot) ''owner'' fmempty)) [''w'', ''a'', ''b''] = Some 4"
proof -
  let ?s = "fst (compact_now demo_aged_codec (Some 0) demo_compact_env demo_disk demo_aged)"
  have run: "compact_now demo_aged_codec (Some 0) demo_compact_env demo_disk demo_aged = (?s, Inr True)"
    using demo_compacts by (metis fst_conv)
  have kept: "fmlookup (se_file_versions ?s) [''w'', ''a'', ''b''] = Some 4"
    using compact_now_file_versions [OF run] by (simp add: demo_aged_fields)
  have "\<forall>payload. fst (sx_snapshot demo_aged_codec) (compaction_snapshot demo_aged_codec (Some 0)
      demo_compact_env demo_aged) = Some payload \<longrightarrow> length payload \<le> MAX_FRAME_BYTES"
    unfolding demo_aged_snapshot by (simp add: demo_aged_codec_def Let_def)
  moreover have "workspace_keys (se_root demo_aged) (se_file_versions demo_aged)"
    by (auto simp: demo_aged_fields workspace_keys_def workspace_names_def valid_name_def split: if_splits)
  ultimately show ?thesis
    using compaction_restart_roundtrip [OF demo_aged_codec_lawful run, of None None None] kept
    unfolding demo_aged_fields Let_def by (metis append_Cons append_Nil)
qed

section \<open>A compaction that fails between truncation and header\<close>

lemma be_bytes_small_head:
  assumes "n < 16777216"
  shows "take 1 (be_bytes 4 n) = [0]"
proof -
  have "be_bytes 4 n = be_bytes (Suc 3) n" by (rule arg_cong2 [where f = be_bytes]) simp_all
  then show ?thesis using assms by (simp only: be_bytes.simps(2)) simp
qed

lemma frame_is_no_header:
  assumes "lc_ser k e = Some payload" "payload \<noteq> []" "length payload < 16777216"
  shows "load_header True (log_frame k True payload @ rest) = Inl UnsupportedLogFormat"
proof -
  have "9 \<le> length (log_frame k True payload)"
    using assms(2) by (cases payload) (simp_all add: log_frame_def)
  moreover have "take 1 (log_frame k True payload @ rest) = [0]"
    using be_bytes_small_head [OF assms(3)] by (simp add: log_frame_def)
  then have "take 1 (take 7 (log_frame k True payload @ rest)) \<noteq> take 1 EVENT_LOG_MAGIC"
    unfolding take_take by (simp add: EVENT_LOG_MAGIC_def del: take_append)
  then have "take 7 (log_frame k True payload @ rest) \<noteq> EVENT_LOG_MAGIC" by metis
  ultimately show ?thesis
    by (auto simp: load_header_def Let_def)
qed

text \<open>Claim C26. A compaction whose header write fails after the truncation reports the error
  and leaves the session running on a log without a header: the next event is appended,
  synced and acknowledged, and no later restart can open the session.\<close>

theorem compaction_header_failure_blocks_restart:
  assumes "ce_compact env = HeaderWriteFails 0" "ef_checksummed (dk_active d)"
    and "write_snapshot_file (lc_crc (sx_log x)) (sx_snapshot x) True (compaction_snapshot x retention_ms env s)
           (se_snapshot_file s) = (f, Inr ())"
    and "lc_ser (sx_log x) e = Some payload" "payload \<noteq> []" "length payload < 16777216"
    and "io_write_ok io" "io_sync_ok io" "dk_total_bytes d + 8 + length payload \<le> EVENT_LOG_MAX_BYTES"
  shows "\<exists>s' d' d''. compact_now x retention_ms env d s = (s', Inl (LogFailure LogWriteFailed))
    \<and> se_disk s' = Some d' \<and> disk_append (sx_log x) io e d' = (d'', Inr ())
    \<and> (\<forall>sid consumers rest r. session_open x sid \<lparr>sf_snapshot = se_snapshot_file s',
          sf_segments = dk_segments d'', sf_active = ef_bytes (dk_active d'') @ rest,
          sf_consumers = consumers\<rparr> \<noteq> Some (Inr r))"
proof -
  let ?d = "d\<lparr>dk_active := (dk_active d)\<lparr>ef_bytes := []\<rparr>\<rparr>"
  let ?s = "s\<lparr>se_snapshot_file := f, se_disk := Some ?d\<rparr>"
  have run: "compact_now x retention_ms env d s = (?s, Inl (LogFailure LogWriteFailed))"
    using assms(1,3) by (simp add: compact_now_def compact_disk_def Let_def)
  obtain d'' where ap: "disk_append (sx_log x) io e ?d = (d'', Inr ())"
      "ef_bytes (dk_active d'') = log_frame (sx_log x) True payload"
    using assms(2,4,6-9)
    by (simp add: disk_append_def write_active_def Let_def saturating_add_def u64_max_def u32_max_def
        consts_simps)
  have "session_open x sid \<lparr>sf_snapshot = f, sf_segments = dk_segments d'',
      sf_active = ef_bytes (dk_active d'') @ rest, sf_consumers = consumers\<rparr> \<noteq> Some (Inr r)"
    for sid consumers rest r
    unfolding ap(2)
    by (auto simp: session_open_def disk_open_def load_event_log_def Let_def
        frame_is_no_header [OF assms(4-6)] split: sum.splits if_splits option.splits prod.splits)
  then show ?thesis
    by (intro exI [where x = ?s] exI [where x = ?d and P = "\<lambda>d'. \<exists>d''. _ d' d''"] exI [of _ d''])
       (auto simp: run ap(1))
qed

theorem compaction_header_failure_blocks_restart_witness:
  "\<exists>s' d' d''. compact_now demo_aged_codec (Some 0) (demo_compact_env\<lparr>ce_compact := HeaderWriteFails 0\<rparr>)
        demo_disk demo_aged = (s', Inl (LogFailure LogWriteFailed))
    \<and> se_disk s' = Some d' \<and> disk_append demo_log_codec demo_io (demo_event 3) d' = (d'', Inr ())
    \<and> (\<forall>r. session_open demo_aged_codec (Some 7) \<lparr>sf_snapshot = se_snapshot_file s',
          sf_segments = dk_segments d'', sf_active = ef_bytes (dk_active d''),
          sf_consumers = None\<rparr> \<noteq> Some (Inr r))"
proof -
  let ?env = "demo_compact_env\<lparr>ce_compact := HeaderWriteFails 0\<rparr>"
  have "compaction_snapshot demo_aged_codec (Some 0) ?env demo_aged
      = compaction_snapshot demo_session_codec (Some 0) demo_compact_env demo_aged"
    unfolding demo_aged_snapshot by (simp add: compaction_snapshot_def)
  then obtain f where "write_snapshot_file (lc_crc (sx_log demo_aged_codec)) (sx_snapshot demo_aged_codec) True
      (compaction_snapshot demo_aged_codec (Some 0) ?env demo_aged) (se_snapshot_file demo_aged) = (f, Inr ())"
    by (simp add: write_snapshot_file_def demo_aged_codec_def Let_def)
  moreover have "lc_ser (sx_log demo_aged_codec) (demo_event 3) = Some [3]"
    by (simp add: demo_aged_fields demo_log_codec_def demo_event_def)
  ultimately show ?thesis
    using compaction_header_failure_blocks_restart [of ?env demo_disk demo_aged_codec "Some 0" demo_aged f
        "demo_event 3" "[3]" demo_io]
    by (simp add: demo_disk_def demo_io_def consts_simps demo_aged_fields) (metis append_Nil2)
qed

end
