(* ===== verification/File_Patch.thy ===== *)
theory File_Patch
  imports Wire
begin

text \<open>
  Hash-guarded file patches from end to end.  The client (\<open>crates/asp-client/src/main.rs\<close>)
  derives a contiguous patch or a list of ranges from a cached base and the new content;
  the server (\<open>crates/asp-server/src/main.rs\<close>) validates the request and materializes the new
  content.  Offsets and lengths are \<open>usize\<close>, which has the width of \<open>u64\<close>.
\<close>

section \<open>Deriving a patch (client)\<close>

definition common_prefix :: "bytes \<Rightarrow> bytes \<Rightarrow> usize" where
  "common_prefix a b = length (takeWhile (\<lambda>(left, right). left = right) (zip a b))"

definition common_suffix :: "bytes \<Rightarrow> bytes \<Rightarrow> usize" where
  "common_suffix a b = length (takeWhile (\<lambda>(left, right). left = right) (zip (rev a) (rev b)))"

definition FILE_PATCH_FIXED_OVERHEAD_BYTES :: usize where [consts_simps]:
  "FILE_PATCH_FIXED_OVERHEAD_BYTES = 128"

definition FILE_PATCH_RANGES_FIXED_OVERHEAD_BYTES :: usize where [consts_simps]:
  "FILE_PATCH_RANGES_FIXED_OVERHEAD_BYTES = 160"

definition FILE_PATCH_RANGE_OVERHEAD_BYTES :: usize where [consts_simps]:
  "FILE_PATCH_RANGE_OVERHEAD_BYTES = 24"

definition FILE_PATCH_RANGE_COALESCE_GAP_BYTES :: usize where [consts_simps]:
  "FILE_PATCH_RANGE_COALESCE_GAP_BYTES = 32"

definition FILE_PATCH_LINE_MAX_LINES :: usize where [consts_simps]:
  "FILE_PATCH_LINE_MAX_LINES = 2048"

definition FILE_PATCH_LINE_MAX_LCS_CELLS :: usize where [consts_simps]:
  "FILE_PATCH_LINE_MAX_LCS_CELLS = 4000000"

definition FILE_PATCH_MAX_DERIVED_RANGES :: usize where [consts_simps]:
  "FILE_PATCH_MAX_DERIVED_RANGES = 4096"

definition should_use_file_patch :: "usize \<Rightarrow> usize \<Rightarrow> bool" where
  "should_use_file_patch replacement_len full_file_len \<longleftrightarrow>
     saturating_add replacement_len FILE_PATCH_FIXED_OVERHEAD_BYTES < full_file_len"

definition file_patch_ranges_replacement_len :: "file_patch_range list \<Rightarrow> usize" where
  "file_patch_ranges_replacement_len ranges =
     fold (\<lambda>r total. saturating_add total (length (fr_replacement r))) ranges 0"

definition estimated_file_patch_ranges_wire_bytes :: "file_patch_range list \<Rightarrow> usize" where
  "estimated_file_patch_ranges_wire_bytes ranges =
     saturating_add (saturating_add FILE_PATCH_RANGES_FIXED_OVERHEAD_BYTES
       (saturating_mul (length ranges) FILE_PATCH_RANGE_OVERHEAD_BYTES))
       (file_patch_ranges_replacement_len ranges)"

definition should_use_file_patch_ranges :: "file_patch_range list \<Rightarrow> usize \<Rightarrow> bool" where
  "should_use_file_patch_ranges ranges full_file_len \<longleftrightarrow>
     1 < length ranges \<and> estimated_file_patch_ranges_wire_bytes ranges < full_file_len
     \<and> file_patch_ranges_replacement_len ranges < full_file_len"

text \<open>The changed runs of two middles of equal length.\<close>

function run_end :: "bytes \<Rightarrow> bytes \<Rightarrow> usize \<Rightarrow> usize" where
  "run_end old new index =
     (if index < length old \<and> old ! index \<noteq> new ! index then run_end old new (index + 1) else index)"
  by auto
termination by (relation "measure (\<lambda>(old, new, index). length old - index)") auto

declare run_end.simps [simp del]

lemma run_end_ge: "index \<le> run_end old new index"
proof (induction old new index rule: run_end.induct)
  case (1 old new index)
  then show ?case by (subst run_end.simps) auto
qed

function changed_runs :: "bytes \<Rightarrow> bytes \<Rightarrow> usize \<Rightarrow> (usize \<times> usize) list" where
  "changed_runs old new index =
     (if index < length old then
        if old ! index = new ! index then changed_runs old new (index + 1)
        else let stop = run_end old new (index + 1) in (index, stop) # changed_runs old new stop
      else [])"
  by auto
termination
proof (relation "measure (\<lambda>(old, new, index). length old - index)", goal_cases)
  case (3 old new index x)
  then show ?case using run_end_ge [of "index + 1" old new] by auto
qed auto

declare changed_runs.simps [simp del]

definition coalesce_run :: "usize \<times> usize \<Rightarrow> (usize \<times> usize) list \<Rightarrow> (usize \<times> usize) list" where
  "coalesce_run = (\<lambda>(start, stop) coalesced.
     if coalesced \<noteq> [] \<and> saturating_sub start (snd (last coalesced)) \<le> FILE_PATCH_RANGE_COALESCE_GAP_BYTES
     then butlast coalesced @ [(fst (last coalesced), stop)]
     else coalesced @ [(start, stop)])"

fun split_patch_lines_from :: "usize \<Rightarrow> usize \<Rightarrow> bytes \<Rightarrow> (usize \<times> usize) list" where
  "split_patch_lines_from start index [] = (if start < index then [(start, index)] else [])"
| "split_patch_lines_from start index (b # bs) =
     (if b = 0x0A then (start, index + 1) # split_patch_lines_from (index + 1) (index + 1) bs
      else split_patch_lines_from start (index + 1) bs)"

definition split_patch_lines :: "bytes \<Rightarrow> (usize \<times> usize) list" where
  "split_patch_lines data = split_patch_lines_from 0 0 data"

definition patch_line_offset :: "(usize \<times> usize) list \<Rightarrow> usize \<Rightarrow> usize \<Rightarrow> usize" where
  "patch_line_offset lines index data_len = (if index < length lines then fst (lines ! index) else data_len)"

definition line_bytes :: "bytes \<Rightarrow> (usize \<times> usize) list \<Rightarrow> usize \<Rightarrow> bytes" where
  "line_bytes data lines index = slice (fst (lines ! index)) (snd (lines ! index)) data"

text \<open>The table of longest common subsequences, filled from the end in one flat vector.
  \<open>eq i j\<close> says whether line \<open>i\<close> of the old file equals line \<open>j\<close> of the new one.\<close>

definition lcs_cell :: "(usize \<Rightarrow> usize \<Rightarrow> bool) \<Rightarrow> usize \<Rightarrow> u32 list \<Rightarrow> usize \<Rightarrow> usize \<Rightarrow> u32" where
  "lcs_cell eq width lcs old_index new_index =
     (if eq old_index new_index then 1 + lcs ! ((old_index + 1) * width + new_index + 1)
      else max (lcs ! ((old_index + 1) * width + new_index)) (lcs ! (old_index * width + new_index + 1)))"

definition lcs_row :: "(usize \<Rightarrow> usize \<Rightarrow> bool) \<Rightarrow> usize \<Rightarrow> usize \<Rightarrow> usize \<Rightarrow> u32 list \<Rightarrow> u32 list" where
  "lcs_row eq width m old_index lcs =
     foldr (\<lambda>new_index lcs. lcs[old_index * width + new_index := lcs_cell eq width lcs old_index new_index])
       [0..<m] lcs"

definition lcs_table :: "(usize \<Rightarrow> usize \<Rightarrow> bool) \<Rightarrow> usize \<Rightarrow> usize \<Rightarrow> u32 list" where
  "lcs_table eq n m =
     (let width = m + 1 in foldr (lcs_row eq width m) [0..<n] (replicate ((n + 1) * width) 0))"

text \<open>The walk along the table.  Each pushed edit is a range of old lines and the range of new
  lines that replaces it.\<close>

definition pushed :: "usize \<Rightarrow> usize \<Rightarrow> usize \<Rightarrow> usize \<Rightarrow> (usize \<times> usize \<times> usize \<times> usize) list" where
  "pushed old_anchor old_index new_anchor new_index =
     (if old_index \<noteq> old_anchor \<or> new_index \<noteq> new_anchor
      then [(old_anchor, old_index, new_anchor, new_index)] else [])"

function align ::
    "(usize \<Rightarrow> usize \<Rightarrow> bool) \<Rightarrow> u32 list \<Rightarrow> usize \<Rightarrow> usize \<Rightarrow> usize \<Rightarrow> usize \<Rightarrow> usize \<Rightarrow> usize
       \<Rightarrow> (usize \<times> usize \<times> usize \<times> usize) list" where
  "align eq lcs n m old_index new_index old_anchor new_anchor =
     (if old_index < n \<and> new_index < m then
        if eq old_index new_index then
          pushed old_anchor old_index new_anchor new_index
            @ align eq lcs n m (old_index + 1) (new_index + 1) (old_index + 1) (new_index + 1)
        else if lcs ! (old_index * (m + 1) + new_index + 1) \<le> lcs ! ((old_index + 1) * (m + 1) + new_index)
        then align eq lcs n m (old_index + 1) new_index old_anchor new_anchor
        else align eq lcs n m old_index (new_index + 1) old_anchor new_anchor
      else pushed old_anchor old_index new_anchor new_index)"
  by auto
termination
  by (relation "measure (\<lambda>(eq, lcs, n, m, i, j, _, _). (n - i) + (m - j))") auto

declare align.simps [simp del]

definition edit_offsets ::
    "(usize \<times> usize) list \<Rightarrow> usize \<Rightarrow> (usize \<times> usize) list \<Rightarrow> usize \<Rightarrow> usize \<times> usize \<times> usize \<times> usize
       \<Rightarrow> usize \<times> usize \<times> usize \<times> usize" where
  "edit_offsets old_lines old_len new_lines new_len = (\<lambda>(oa, oi, na, ni).
     (patch_line_offset old_lines oa old_len, patch_line_offset old_lines oi old_len,
      patch_line_offset new_lines na new_len, patch_line_offset new_lines ni new_len))"

definition coalesce_edit ::
    "usize \<times> usize \<times> usize \<times> usize \<Rightarrow> (usize \<times> usize \<times> usize \<times> usize) list
       \<Rightarrow> (usize \<times> usize \<times> usize \<times> usize) list" where
  "coalesce_edit = (\<lambda>(a, b, c, d) coalesced.
     if a = b \<and> c = d then coalesced
     else if coalesced \<noteq> []
       \<and> saturating_sub a (fst (snd (last coalesced))) \<le> FILE_PATCH_RANGE_COALESCE_GAP_BYTES
     then butlast coalesced @ [(fst (last coalesced), b, fst (snd (snd (last coalesced))), d)]
     else coalesced @ [(a, b, c, d)])"

definition edit_range :: "bytes \<Rightarrow> usize \<times> usize \<times> usize \<times> usize \<Rightarrow> file_patch_range" where
  "edit_range new = (\<lambda>(old_start, old_end, new_start, new_end).
     \<lparr>fr_offset = old_start, fr_remove_len = old_end - old_start,
      fr_replacement = slice new_start new_end new\<rparr>)"

definition checked_mul :: "usize \<Rightarrow> usize \<Rightarrow> usize option" where
  "checked_mul a b = (if a * b \<le> u64_max then Some (a * b) else None)"

definition line_edits :: "bytes \<Rightarrow> bytes \<Rightarrow> (usize \<times> usize \<times> usize \<times> usize) list" where
  "line_edits old new =
     (let old_lines = split_patch_lines old; new_lines = split_patch_lines new;
          n = length old_lines; m = length new_lines;
          eq = (\<lambda>i j. line_bytes old old_lines i = line_bytes new new_lines j)
      in map (edit_offsets old_lines (length old) new_lines (length new))
           (align eq (lcs_table eq n m) n m 0 0 0 0))"

definition derive_line_patch_ranges :: "bytes \<Rightarrow> bytes \<Rightarrow> file_patch_range list option" where
  "derive_line_patch_ranges old new =
     (let n = length (split_patch_lines old); m = length (split_patch_lines new) in
      if FILE_PATCH_LINE_MAX_LINES < n \<or> FILE_PATCH_LINE_MAX_LINES < m then None
      else
      Option.bind (checked_add m 1) (\<lambda>width.
      Option.bind (checked_add n 1) (\<lambda>rows.
      Option.bind (checked_mul rows width) (\<lambda>cells.
        if FILE_PATCH_LINE_MAX_LCS_CELLS < cells then None
        else
        let edits = line_edits old new in
        if FILE_PATCH_MAX_DERIVED_RANGES < length edits then None
        else Some (map (edit_range new) (fold coalesce_edit edits []))))))"

definition derive_file_patch_ranges :: "bytes \<Rightarrow> bytes \<Rightarrow> file_patch_range list" where
  "derive_file_patch_ranges old new =
     (let prefix = common_prefix old new;
          suffix = common_suffix (drop prefix old) (drop prefix new);
          old_end = saturating_sub (length old) suffix;
          new_end = saturating_sub (length new) suffix;
          old_middle = slice prefix old_end old;
          new_middle = slice prefix new_end new
      in if length old_middle \<noteq> length new_middle then
           (case derive_line_patch_ranges old new of
              Some ranges \<Rightarrow> ranges
            | None \<Rightarrow> [\<lparr>fr_offset = prefix, fr_remove_len = length old_middle, fr_replacement = new_middle\<rparr>])
         else map (\<lambda>(start, stop). \<lparr>fr_offset = prefix + start, fr_remove_len = stop - start,
                     fr_replacement = slice start stop new_middle\<rparr>)
                (fold coalesce_run (changed_runs old_middle new_middle 0) []))"

section \<open>Choosing a patch from the workspace cache (client)\<close>

datatype cached_file_patch =
    CachedUnchanged string \<comment> \<open>sha256\<close>
  | CachedPatch u64 u64 bytes \<comment> \<open>prefix length, suffix length, replacement\<close>
  | CachedRanges "file_patch_range list"

definition strip_dot_slash :: "string \<Rightarrow> string" where
  "strip_dot_slash path = (if take 2 path = ''./'' then drop 2 path else path)"

definition trim_end_slashes :: "string \<Rightarrow> string" where
  "trim_end_slashes path = rev (dropWhile (\<lambda>c. c = CHR ''/'') (rev path))"

definition cached_path :: "string \<Rightarrow> string \<Rightarrow> string" where
  "cached_path workspace path =
     strip_dot_slash (if workspace = ''.'' \<or> workspace = [] then path
       else trim_end_slashes workspace @ ''/'' @ path)"

definition patch_from_base :: "bytes \<Rightarrow> string \<Rightarrow> bytes \<Rightarrow> bool \<Rightarrow> cached_file_patch option" where
  "patch_from_base data sha replacement_file allow_ranges =
     (if data = replacement_file then Some (CachedUnchanged sha)
      else
      let ranges = derive_file_patch_ranges data replacement_file in
      if allow_ranges \<and> should_use_file_patch_ranges ranges (length replacement_file)
      then Some (CachedRanges ranges)
      else
      let prefix = common_prefix data replacement_file;
          suffix = common_suffix (drop prefix data) (drop prefix replacement_file);
          replacement = slice prefix (length replacement_file - suffix) replacement_file
      in if should_use_file_patch (length replacement) (length replacement_file)
         then Some (CachedPatch prefix suffix replacement)
         else None)"

fun first_patch ::
    "string \<Rightarrow> string \<Rightarrow> bytes \<Rightarrow> bool \<Rightarrow> (string \<times> workspace_file) list \<Rightarrow> cached_file_patch option" where
  "first_patch requested_path expected_sha256 replacement_file allow_ranges [] = None"
| "first_patch requested_path expected_sha256 replacement_file allow_ranges ((workspace, f) # fs) =
     (if cached_path workspace (wf_path f) \<noteq> strip_dot_slash requested_path \<or> wf_sha256 f \<noteq> expected_sha256
      then first_patch requested_path expected_sha256 replacement_file allow_ranges fs
      else case patch_from_base (wf_data f) (wf_sha256 f) replacement_file allow_ranges of
             Some p \<Rightarrow> Some p
           | None \<Rightarrow> first_patch requested_path expected_sha256 replacement_file allow_ranges fs)"

text \<open>The cache is the list of its workspaces, each with its files, in the map's order.\<close>

definition cached_file_patch_with_ranges ::
    "(string \<times> workspace_file list) list \<Rightarrow> string \<Rightarrow> string \<Rightarrow> bytes \<Rightarrow> bool \<Rightarrow> cached_file_patch option" where
  "cached_file_patch_with_ranges entries requested_path expected_sha256 replacement_file allow_ranges =
     first_patch requested_path expected_sha256 replacement_file allow_ranges
       (concat (map (\<lambda>(workspace, files). map (Pair workspace) files) entries))"

section \<open>Materializing a patch (server)\<close>

definition FILE_MAX_BYTES :: usize where [consts_simps]:
  "FILE_MAX_BYTES = 16777216"

definition MAX_FILE_PATCH_RANGES :: usize where [consts_simps]:
  "MAX_FILE_PATCH_RANGES = 4096"

datatype patch_error =
    PatchRangesEmpty
  | TooManyPatchRanges
  | PatchRangesOverlap
  | PatchEndOverflow
  | PatchExceedsBase
  | PatchRemovalOverflow
  | PatchReplacementOverflow
  | PatchOutputOverflow
  | PatchPreservedOverflow
  | PatchPrefixSuffixOverlap
  | PatchedFileTooLarge

fun check_patch_ranges ::
    "usize \<Rightarrow> usize \<Rightarrow> usize \<Rightarrow> usize \<Rightarrow> file_patch_range list \<Rightarrow> patch_error + (usize \<times> usize)" where
  "check_patch_ranges old_len cursor removed_total replacement_total [] = Inr (removed_total, replacement_total)"
| "check_patch_ranges old_len cursor removed_total replacement_total (r # ranges) =
     (if fr_offset r < cursor then Inl PatchRangesOverlap
      else and_then (ok_or PatchEndOverflow (checked_add (fr_offset r) (fr_remove_len r))) (\<lambda>stop.
      if old_len < stop then Inl PatchExceedsBase
      else and_then (ok_or PatchRemovalOverflow (checked_add removed_total (fr_remove_len r))) (\<lambda>removed_total.
      and_then (ok_or PatchReplacementOverflow (checked_add replacement_total (length (fr_replacement r))))
        (\<lambda>replacement_total. check_patch_ranges old_len stop removed_total replacement_total ranges))))"

fun apply_patch_ranges :: "bytes \<Rightarrow> usize \<Rightarrow> file_patch_range list \<Rightarrow> bytes" where
  "apply_patch_ranges old cursor [] = drop cursor old"
| "apply_patch_ranges old cursor (r # ranges) =
     slice cursor (fr_offset r) old @ fr_replacement r
       @ apply_patch_ranges old (fr_offset r + fr_remove_len r) ranges"

definition materialize_file_patch_ranges :: "bytes \<Rightarrow> file_patch_range list \<Rightarrow> patch_error + bytes" where
  "materialize_file_patch_ranges old ranges =
     (if ranges = [] then Inl PatchRangesEmpty
      else if MAX_FILE_PATCH_RANGES < length ranges then Inl TooManyPatchRanges
      else and_then (check_patch_ranges (length old) 0 0 0 ranges) (\<lambda>(removed_total, replacement_total).
      and_then (ok_or PatchOutputOverflow (Option.bind (checked_sub (length old) removed_total)
          (\<lambda>len. checked_add len replacement_total))) (\<lambda>new_len.
      if FILE_MAX_BYTES < new_len then Inl PatchedFileTooLarge
      else Inr (apply_patch_ranges old 0 ranges))))"

definition materialize_file_patch :: "bytes \<Rightarrow> u64 \<Rightarrow> u64 \<Rightarrow> bytes \<Rightarrow> patch_error + bytes" where
  "materialize_file_patch old prefix suffix replacement =
     and_then (ok_or PatchPreservedOverflow (checked_add prefix suffix)) (\<lambda>preserved.
     if length old < preserved then Inl PatchPrefixSuffixOverlap
     else and_then (ok_or PatchReplacementOverflow (checked_add preserved (length replacement))) (\<lambda>new_len.
     if FILE_MAX_BYTES < new_len then Inl PatchedFileTooLarge
     else Inr (take prefix old @ replacement @ drop (length old - suffix) old)))"

end
