(* ===== verification/Patch_Roundtrip.thy ===== *)
theory Patch_Roundtrip
  imports File_Patch
begin

text \<open>
  What a derived patch does on the server: the contiguous form and the runs of equal-length
  edits reproduce the new file; the line-oriented ranges reproduce it up to the point where
  the walk along the table of longest common subsequences stops.
\<close>

lemma slice_empty [simp]: "slice a a xs = []"
  by (simp add: slice_def)

lemma length_slice_within: "j \<le> length xs \<Longrightarrow> length (slice i j xs) = j - i"
  by (simp add: diff_le_mono)

section \<open>Common prefix and suffix\<close>

lemma common_prefix_Cons [simp]:
  "common_prefix [] b = 0" "common_prefix a [] = 0"
  "common_prefix (x # a) (y # b) = (if x = y then Suc (common_prefix a b) else 0)"
  by (simp_all add: common_prefix_def)

lemma common_prefix_le: "common_prefix a b \<le> length a" "common_prefix a b \<le> length b"
  by (induction a b rule: list_induct2') auto

lemma common_prefix_take: "take (common_prefix a b) a = take (common_prefix a b) b"
  by (induction a b rule: list_induct2') auto

lemma common_suffix_rev: "common_suffix a b = common_prefix (rev a) (rev b)"
  by (simp add: common_suffix_def common_prefix_def)

lemma common_suffix_le: "common_suffix a b \<le> length a" "common_suffix a b \<le> length b"
  using common_prefix_le [of "rev a" "rev b"] by (simp_all add: common_suffix_rev)

lemma common_suffix_drop:
  "drop (length a - common_suffix a b) a = drop (length b - common_suffix a b) b"
  using common_prefix_take [of "rev a" "rev b"]
  by (simp add: common_suffix_rev take_rev)

text \<open>The two ends of a patch: what a common prefix and a suffix after it leave in the middle.\<close>

lemma patch_ends:
  assumes "p = common_prefix old new" "s = common_suffix (drop p old) (drop p new)"
  shows "p \<le> length old - s" "p \<le> length new - s" "s \<le> length old" "s \<le> length new"
    and "take p old = take p new" "drop (length old - s) old = drop (length new - s) new"
proof -
  have le: "p \<le> length old" "p \<le> length new" "s \<le> length old - p" "s \<le> length new - p"
    using common_prefix_le [of old new] common_suffix_le [of "drop p old" "drop p new"]
    by (simp_all add: assms)
  then show "p \<le> length old - s" "p \<le> length new - s" "s \<le> length old" "s \<le> length new" by linarith+
  show "take p old = take p new" unfolding assms(1) by (rule common_prefix_take)
  have "drop (length old - p - s) (drop p old) = drop (length new - p - s) (drop p new)"
    using common_suffix_drop [of "drop p old" "drop p new"] by (simp add: assms(2))
  moreover have "length old - p - s + p = length old - s" "length new - p - s + p = length new - s"
    using le by linarith+
  ultimately show "drop (length old - s) old = drop (length new - s) new" by simp
qed

lemma contiguous_patch_eq:
  assumes "length old \<le> FILE_MAX_BYTES" "length new \<le> FILE_MAX_BYTES"
  shows "let prefix = common_prefix old new;
             suffix = common_suffix (drop prefix old) (drop prefix new)
         in materialize_file_patch old prefix suffix (slice prefix (length new - suffix) new) = Inr new"
proof -
  define p where "p = common_prefix old new"
  define s where "s = common_suffix (drop p old) (drop p new)"
  note e = patch_ends [OF p_def s_def]
  have le: "p + s \<le> length old" "p + s \<le> length new" using e(1-4) by linarith+
  then have "p + s + (length new - s - p) \<le> FILE_MAX_BYTES"
    using assms(1,2) by linarith
  moreover have "take p new @ slice p (length new - s) new @ drop (length new - s) new = new"
    using slice_append_drop [OF e(2), of new] by simp
  moreover have "length (slice p (length new - s) new) = length new - s - p"
    by (rule length_slice_within) simp
  ultimately show ?thesis
    using e assms(1,2) le unfolding Let_def p_def [symmetric] s_def [symmetric]
    by (simp add: materialize_file_patch_def checked_add_def u64_max_def consts_simps del: length_slice)
qed

text \<open>The contiguous patch of any two files reproduces the new one on the server.\<close>

theorem contiguous_patch_roundtrip:
  assumes "length old \<le> FILE_MAX_BYTES" "length new \<le> FILE_MAX_BYTES"
  shows "let prefix = common_prefix old new;
             suffix = common_suffix (drop prefix old) (drop prefix new)
         in materialize_file_patch old prefix suffix (slice prefix (length new - suffix) new) = Inr new"
  by (rule contiguous_patch_eq [OF assms])

section \<open>Edit scripts\<close>

text \<open>A list of edits that leads from position \<open>a\<close> of the old and \<open>c\<close> of the new file to the
  positions \<open>ae\<close> and \<open>ce\<close>: between the edits the two files agree.\<close>

fun edits_from ::
    "bytes \<Rightarrow> bytes \<Rightarrow> nat \<Rightarrow> nat \<Rightarrow> (nat \<times> nat \<times> nat \<times> nat) list \<Rightarrow> nat \<Rightarrow> nat \<Rightarrow> bool" where
  "edits_from old new a c [] ae ce \<longleftrightarrow>
     a \<le> ae \<and> c \<le> ce \<and> ae \<le> length old \<and> ce \<le> length new \<and> slice a ae old = slice c ce new"
| "edits_from old new a c ((s, e, s', e') # es) ae ce \<longleftrightarrow>
     a \<le> s \<and> c \<le> s' \<and> s \<le> e \<and> s' \<le> e' \<and> slice a s old = slice c s' new \<and> edits_from old new e e' es ae ce"

lemma edits_from_extend:
  assumes "edits_from old new s t es ae ce" "a \<le> s" "c \<le> t" "slice a s old = slice c t new"
  shows "edits_from old new a c es ae ce"
proof (cases es)
  case Nil
  then show ?thesis
    using assms slice_append_slice [of a s ae old] slice_append_slice [of c t ce new] by auto
next
  case (Cons x es')
  obtain p q p' q' where x: "x = (p, q, p', q')" by (cases x)
  show ?thesis
    using assms slice_append_slice [of a s p old] slice_append_slice [of c t p' new]
    by (auto simp: Cons x)
qed

lemma edits_from_extend_end:
  assumes "edits_from old new a c es s t" "s \<le> ae" "t \<le> ce" "ae \<le> length old" "ce \<le> length new"
    and "slice s ae old = slice t ce new"
  shows "edits_from old new a c es ae ce"
  using assms(1)
proof (induction es arbitrary: a c)
  case Nil
  then show ?case
    using assms(2-6) slice_append_slice [of a s ae old] slice_append_slice [of c t ce new] by auto
next
  case (Cons x es)
  then show ?case by (cases x) auto
qed

lemma edits_from_end_le: "edits_from old new a c es ae ce \<Longrightarrow> a \<le> ae \<and> c \<le> ce \<and> ae \<le> length old \<and> ce \<le> length new"
  by (induction old new a c es ae ce rule: edits_from.induct) auto

lemma edits_from_skip:
  "edits_from old new a c (xs @ (s, s, t, t) # es) ae ce \<Longrightarrow> edits_from old new a c (xs @ es) ae ce"
proof (induction xs arbitrary: a c)
  case Nil
  then show ?case by (auto intro: edits_from_extend)
next
  case (Cons x xs)
  then show ?case by (cases x) auto
qed

lemma edits_from_merge:
  "edits_from old new a c (xs @ (p, q, r, u) # (s, e, s', e') # es) ae ce
    \<Longrightarrow> edits_from old new a c (xs @ (p, e, r, e') # es) ae ce"
proof (induction xs arbitrary: a c)
  case (Cons x xs)
  then show ?case by (cases x) auto
qed auto

lemma coalesce_edit_step:
  assumes "edits_from old new a c (acc @ e # es) ae ce"
  shows "edits_from old new a c (coalesce_edit e acc @ es) ae ce"
proof -
  obtain s t s' t' where e: "e = (s, t, s', t')" by (cases e)
  show ?thesis
  proof (cases "s = t \<and> s' = t'")
    case True
    then show ?thesis using assms edits_from_skip by (simp add: e coalesce_edit_def)
  next
    case False
    show ?thesis
    proof (cases acc rule: rev_cases)
      case (snoc xs y)
      obtain p q r u where "y = (p, q, r, u)" by (cases y)
      then show ?thesis
        using assms False edits_from_merge [of old new a c xs p q r u s t s' t' es ae ce]
        by (auto simp: e snoc coalesce_edit_def)
    qed (use assms False in \<open>auto simp: e coalesce_edit_def\<close>)
  qed
qed

lemma coalesce_edits:
  "edits_from old new a c (acc @ es) ae ce \<Longrightarrow> edits_from old new a c (fold coalesce_edit es acc) ae ce"
proof (induction es arbitrary: acc)
  case (Cons e es)
  then show ?case using coalesce_edit_step [of old new a c acc e es ae ce] by simp
qed simp

text \<open>Applying the ranges of an edit script.\<close>

lemma edit_range_simp: "edit_range new (s, e, s', e')
    = \<lparr>fr_offset = s, fr_remove_len = e - s, fr_replacement = slice s' e' new\<rparr>"
  by (simp add: edit_range_def)

lemma apply_edits:
  "edits_from old new a c es ae ce
    \<Longrightarrow> apply_patch_ranges old a (map (edit_range new) es) = slice c ce new @ drop ae old"
proof (induction es arbitrary: a c)
  case Nil
  then show ?case using slice_append_drop [of a ae old] by simp
next
  case (Cons x es)
  obtain s e s' e' where x: "x = (s, e, s', e')" by (cases x)
  have "e' \<le> ce" using Cons.prems edits_from_end_le by (auto simp: x)
  then show ?case
    using Cons.prems Cons.IH [of e e'] slice_append_slice [of c s' ce new] slice_append_slice [of s' e' ce new]
    by (auto simp: x edit_range_def)
qed

lemma check_edits:
  assumes "edits_from old new a c es ae ce" "ae \<le> length old"
    and "rm + (ae - a) \<le> u64_max" "rp + (ce - c) \<le> u64_max" "length old \<le> u64_max"
  shows "\<exists>R P. check_patch_ranges (length old) a rm rp (map (edit_range new) es) = Inr (rm + R, rp + P)
    \<and> R \<le> ae - a \<and> (ae - a) + P = (ce - c) + R"
  using assms
proof (induction es arbitrary: a c rm rp)
  case Nil
  then have "length (slice a ae old) = length (slice c ce new)" by simp
  then have "ae - a = ce - c" using Nil by (simp add: length_slice_within del: length_slice)
  then show ?case by simp
next
  case (Cons x es)
  obtain s e s' e' where x: "x = (s, e, s', e')" by (cases x)
  have rest: "edits_from old new e e' es ae ce" using Cons.prems by (simp add: x)
  have le: "a \<le> s" "c \<le> s'" "s \<le> e" "s' \<le> e'" "e \<le> ae" "e' \<le> ce" "ce \<le> length new"
    using Cons.prems(1) edits_from_end_le [OF rest] by (auto simp: x)
  have "length (slice a s old) = length (slice c s' new)" using Cons.prems(1) by (simp add: x)
  then have gap: "s - a = s' - c" using Cons.prems(2) le by (simp add: length_slice_within del: length_slice)
  have len: "length (slice s' e' new) = e' - s'" using le by simp
  have b: "rm + (e - s) + (ae - e) \<le> u64_max" "rp + (e' - s') + (ce - e') \<le> u64_max"
    using Cons.prems(3,4) le by linarith+
  obtain R P where IH: "check_patch_ranges (length old) e (rm + (e - s)) (rp + (e' - s')) (map (edit_range new) es)
      = Inr (rm + (e - s) + R, rp + (e' - s') + P)" "R \<le> ae - e" "(ae - e) + P = (ce - e') + R"
    using Cons.IH [OF rest Cons.prems(2) b Cons.prems(5)] by blast
  have add: "rm + (e - s) \<le> u64_max" "rp + (e' - s') \<le> u64_max" using b by linarith+
  have "check_patch_ranges (length old) a rm rp (map (edit_range new) (x # es))
      = Inr (rm + (e - s + R), rp + (e' - s' + P))"
    using IH(1) le len Cons.prems(2,5) add
    by (simp add: x edit_range_simp checked_add_def add.assoc del: length_slice)
  moreover have "e - s + R \<le> ae - a" "(ae - a) + (e' - s' + P) = (ce - c) + (e - s + R)"
    using IH(2,3) le gap by linarith+
  ultimately show ?case by blast
qed

lemma materialize_edits:
  assumes "edits_from old new 0 0 es ae ce" "es \<noteq> []" "length es \<le> MAX_FILE_PATCH_RANGES"
    and "length old \<le> FILE_MAX_BYTES" "ce + (length old - ae) \<le> FILE_MAX_BYTES"
  shows "materialize_file_patch_ranges old (map (edit_range new) es) = Inr (take ce new @ drop ae old)"
proof -
  have le: "length old \<le> u64_max" "ce + (length old - ae) \<le> u64_max" "ae \<le> length old"
    using assms(4,5) edits_from_end_le [OF assms(1)] by (simp_all add: consts_simps u64_max_def)
  moreover have "0 + (ae - 0) \<le> u64_max" "0 + (ce - 0) \<le> u64_max" using le by linarith+
  ultimately obtain R P where c: "check_patch_ranges (length old) 0 0 0 (map (edit_range new) es) = Inr (R, P)"
      "R \<le> ae" "ae + P = ce + R"
    using check_edits [OF assms(1), of 0 0] by fastforce
  then have "length old - R + P = ce + (length old - ae)" using le by linarith
  then have add: "checked_add (length old - R) P = Some (ce + (length old - ae))" using le by simp
  have "checked_sub (length old) R = Some (length old - R)" using c(2) le by simp
  with add have "ok_or PatchOutputOverflow (Option.bind (checked_sub (length old) R) (\<lambda>len. checked_add len P))
      = Inr (ce + (length old - ae))" by (simp only: Option.bind.simps ok_or.simps)
  then show ?thesis
    unfolding materialize_file_patch_ranges_def c(1) and_then.simps prod.case
    using assms(2-5) apply_edits [OF assms(1)] by simp
qed

section \<open>The table of longest common subsequences\<close>

text \<open>The recursion the table tabulates.\<close>

function lcs_len :: "(nat \<Rightarrow> nat \<Rightarrow> bool) \<Rightarrow> nat \<Rightarrow> nat \<Rightarrow> nat \<Rightarrow> nat \<Rightarrow> nat" where
  "lcs_len eq n m i j =
     (if i < n \<and> j < m then
        if eq i j then 1 + lcs_len eq n m (i + 1) (j + 1)
        else max (lcs_len eq n m (i + 1) j) (lcs_len eq n m i (j + 1))
      else 0)"
  by auto
termination by (relation "measure (\<lambda>(eq, n, m, i, j). (n - i) + (m - j))") auto

declare lcs_len.simps [simp del]

lemma cell_index_inj:
  "j < w \<Longrightarrow> j' < w \<Longrightarrow> i * w + j = i' * w + j' \<longleftrightarrow> i = i' \<and> j = (j'::nat)"
  by (metis add.commute div_mult_self1 div_less less_not_refl mod_less mod_mult_self1 add_cancel_right_left
      not_gr_zero not_less_zero)

lemma cell_index_bound: "i \<le> n \<Longrightarrow> j \<le> m \<Longrightarrow> i * (m + 1) + j < (n + 1) * (m + 1)"
  for i j n m :: nat
proof -
  assume "i \<le> n" "j \<le> m"
  have "i * (m + 1) \<le> n * (m + 1)" using \<open>i \<le> n\<close> by (rule mult_le_mono1)
  then show ?thesis using \<open>j \<le> m\<close> by simp
qed

lemma lcs_row_filled:
  assumes "length t = (n + 1) * (m + 1)" "i < n" "k \<le> m"
    and below: "\<And>j. j \<le> m \<Longrightarrow> t ! ((i + 1) * (m + 1) + j) = lcs_len eq n m (i + 1) j"
    and edge: "t ! (i * (m + 1) + m) = 0"
  defines "t' \<equiv> foldr (\<lambda>j t. t[i * (m + 1) + j := lcs_cell eq (m + 1) t i j]) [k..<m] t"
  shows "length t' = length t \<and> (\<forall>i' j. i' \<le> n \<and> j \<le> m \<longrightarrow> t' ! (i' * (m + 1) + j)
    = (if i' = i \<and> k \<le> j then lcs_len eq n m i j else t ! (i' * (m + 1) + j)))"
  using assms(3) unfolding t'_def
proof (induction k rule: inc_induct)
  case base
  then show ?case using edge assms(2) by (auto simp: lcs_len.simps)
next
  case (step k)
  let ?f = "\<lambda>j t. t[i * (m + 1) + j := lcs_cell eq (m + 1) t i j]"
  let ?t = "foldr ?f [Suc k..<m] t"
  have IH: "length ?t = length t" "\<And>i' j. i' \<le> n \<Longrightarrow> j \<le> m \<Longrightarrow> ?t ! (i' * (m + 1) + j)
      = (if i' = i \<and> Suc k \<le> j then lcs_len eq n m i j else t ! (i' * (m + 1) + j))"
    using step.IH by blast+
  have fold: "foldr ?f [k..<m] t = ?f k ?t" using step.hyps by (simp add: upt_conv_Cons)
  have cell: "lcs_cell eq (m + 1) ?t i k = lcs_len eq n m i k"
  proof -
    have "?t ! ((i + 1) * (m + 1) + (k + 1)) = lcs_len eq n m (i + 1) (k + 1)"
      "?t ! ((i + 1) * (m + 1) + k) = lcs_len eq n m (i + 1) k"
      "?t ! (i * (m + 1) + (k + 1)) = lcs_len eq n m i (k + 1)"
      using IH(2) [of "i + 1" "k + 1"] IH(2) [of "i + 1" k] IH(2) [of i "k + 1"] below [of "k + 1"] below [of k]
        step.hyps assms(2) by simp_all
    then show ?thesis
      using step.hyps assms(2) lcs_len.simps [of eq n m i k] by (simp add: lcs_cell_def add.assoc)
  qed
  show ?case
  proof (intro conjI allI impI)
    fix i' j assume "i' \<le> n \<and> j \<le> m"
    then show "foldr ?f [k..<m] t ! (i' * (m + 1) + j)
        = (if i' = i \<and> k \<le> j then lcs_len eq n m i j else t ! (i' * (m + 1) + j))"
      using IH(1) IH(2) [of i' j] cell_index_inj [of k "m + 1" j i i'] step.hyps assms(1,2)
        cell_index_bound [of i n k m]
      unfolding fold cell by (auto simp: nth_list_update)
  qed (use IH(1) fold in simp)
qed

lemma lcs_rows_filled:
  fixes eq :: "nat \<Rightarrow> nat \<Rightarrow> bool" and n m k :: nat
  assumes "k \<le> n"
  defines "t \<equiv> foldr (lcs_row eq (m + 1) m) [k..<n] (replicate ((n + 1) * (m + 1)) 0)"
  shows "length t = (n + 1) * (m + 1) \<and> (\<forall>i j. i \<le> n \<and> j \<le> m \<longrightarrow>
    t ! (i * (m + 1) + j) = (if k \<le> i then lcs_len eq n m i j else 0))"
  using assms(1) unfolding t_def
proof (induction k rule: inc_induct)
  case base
  have "replicate ((n + 1) * (m + 1)) 0 ! (i * (m + 1) + j) = (0::nat)" if "i \<le> n" "j \<le> m" for i j
    using cell_index_bound [OF that] by (rule nth_replicate)
  then show ?case by (auto simp: lcs_len.simps)
next
  case (step k)
  define t where "t = foldr (lcs_row eq (m + 1) m) [Suc k..<n] (replicate ((n + 1) * (m + 1)) 0)"
  have IH: "length t = (n + 1) * (m + 1)" "\<And>i j. i \<le> n \<Longrightarrow> j \<le> m \<Longrightarrow>
      t ! (i * (m + 1) + j) = (if Suc k \<le> i then lcs_len eq n m i j else 0)"
    using step.IH unfolding t_def [symmetric] by blast+
  have "t ! ((k + 1) * (m + 1) + j) = lcs_len eq n m (k + 1) j" if "j \<le> m" for j
    using IH(2) [of "k + 1" j] step.hyps that by simp
  moreover have "t ! (k * (m + 1) + m) = 0" using IH(2) [of k m] step.hyps by simp
  ultimately have "length (lcs_row eq (m + 1) m k t) = length t \<and> (\<forall>i j. i \<le> n \<and> j \<le> m \<longrightarrow>
      lcs_row eq (m + 1) m k t ! (i * (m + 1) + j)
      = (if i = k \<and> 0 \<le> j then lcs_len eq n m k j else t ! (i * (m + 1) + j)))"
    unfolding lcs_row_def by (intro lcs_row_filled [OF IH(1) step.hyps(2)]) simp_all
  moreover have "foldr (lcs_row eq (m + 1) m) [k..<n] (replicate ((n + 1) * (m + 1)) 0)
      = lcs_row eq (m + 1) m k t"
    using step.hyps by (simp add: upt_conv_Cons t_def)
  ultimately show ?case using IH by (auto simp: Suc_le_eq le_less)
qed

lemma lcs_table_eq:
  "i \<le> n \<Longrightarrow> j \<le> m \<Longrightarrow> lcs_table eq n m ! (i * (m + 1) + j) = lcs_len eq n m i j"
  unfolding lcs_table_def Let_def using lcs_rows_filled [of 0 n eq m] by simp

text \<open>Claim C31. The flat vector, filled from its last cell, tabulates the recursive definition of the
  longest common subsequence.\<close>

theorem lcs_table_correct:
  "lcs_len eq n m i j = (if i < n \<and> j < m then lcs_table eq n m ! (i * (m + 1) + j) else 0)"
  using lcs_table_eq by (simp add: lcs_len.simps)

section \<open>Lines\<close>

fun tiles :: "nat \<Rightarrow> nat \<Rightarrow> (nat \<times> nat) list \<Rightarrow> bool" where
  "tiles s e [] \<longleftrightarrow> s = e"
| "tiles s e ((a, b) # ls) \<longleftrightarrow> a = s \<and> s \<le> b \<and> tiles b e ls"

lemma tiles_le: "tiles s e ls \<Longrightarrow> s \<le> e"
  by (induction s e ls rule: tiles.induct) auto

lemma split_lines_tiles:
  "start \<le> index \<Longrightarrow> tiles start (index + length bs) (split_patch_lines_from start index bs)"
  by (induction start index bs rule: split_patch_lines_from.induct) auto

lemma tiles_offset:
  assumes "tiles s e ls"
  shows "patch_line_offset ls 0 e = s"
    "i < length ls \<Longrightarrow> fst (ls ! i) = patch_line_offset ls i e"
    "i < length ls \<Longrightarrow> snd (ls ! i) = patch_line_offset ls (i + 1) e"
    "patch_line_offset ls i e \<le> patch_line_offset ls (i + 1) e"
    "length ls \<le> i \<Longrightarrow> patch_line_offset ls i e = e"
proof -
  show "patch_line_offset ls 0 e = s"
    using assms by (cases ls) (auto simp: patch_line_offset_def)
  have snd: "snd (ls ! i) = patch_line_offset ls (i + 1) e \<and> fst (ls ! i) \<le> snd (ls ! i)"
    if "tiles s e ls" "i < length ls" for s ls i
    using that
  proof (induction ls arbitrary: s i)
    case (Cons l ls)
    obtain a b where l: "l = (a, b)" by force
    show ?case
    proof (cases i)
      case 0
      then show ?thesis using Cons.prems by (cases ls) (auto simp: l patch_line_offset_def)
    next
      case (Suc j)
      then show ?thesis using Cons.IH [of b j] Cons.prems by (auto simp: l patch_line_offset_def)
    qed
  qed simp
  show "fst (ls ! i) = patch_line_offset ls i e" if "i < length ls"
    using that by (simp add: patch_line_offset_def)
  show "snd (ls ! i) = patch_line_offset ls (i + 1) e" if "i < length ls"
    using snd [OF assms that] by simp
  show "patch_line_offset ls i e \<le> patch_line_offset ls (i + 1) e"
    using snd [OF assms, of i] by (auto simp: patch_line_offset_def split: if_splits)
  show "patch_line_offset ls i e = e" if "length ls \<le> i"
    using that by (simp add: patch_line_offset_def)
qed

text \<open>Where the walk along the table stops.\<close>

function align_stop :: "(nat \<Rightarrow> nat \<Rightarrow> bool) \<Rightarrow> nat list \<Rightarrow> nat \<Rightarrow> nat \<Rightarrow> nat \<Rightarrow> nat \<Rightarrow> nat \<times> nat" where
  "align_stop eq lcs n m i j =
     (if i < n \<and> j < m then
        if eq i j then align_stop eq lcs n m (i + 1) (j + 1)
        else if lcs ! (i * (m + 1) + j + 1) \<le> lcs ! ((i + 1) * (m + 1) + j)
        then align_stop eq lcs n m (i + 1) j
        else align_stop eq lcs n m i (j + 1)
      else (i, j))"
  by auto
termination by (relation "measure (\<lambda>(eq, lcs, n, m, i, j). (n - i) + (m - j))") auto

declare align_stop.simps [simp del]

lemma align_stop_end:
  "i \<le> n \<Longrightarrow> j \<le> m \<Longrightarrow> align_stop eq lcs n m i j = (i', j') \<Longrightarrow> i' \<le> n \<and> j' \<le> m \<and> (i' = n \<or> j' = m)"
proof (induction eq lcs n m i j rule: align_stop.induct)
  case (1 eq lcs n m i j)
  show ?case
    using 1 align_stop.simps [of eq lcs n m i j] by (auto split: if_splits)
qed

lemma align_edits:
  fixes f g :: "nat \<Rightarrow> nat"
  assumes eq: "\<And>i j. i < n \<Longrightarrow> j < m \<Longrightarrow> eq i j \<longleftrightarrow> slice (f i) (f (i + 1)) old = slice (g j) (g (j + 1)) new"
    and mono: "mono f" "mono g" and ends: "\<And>i. f i \<le> length old" "\<And>j. g j \<le> length new"
    and "oa \<le> oi" "na \<le> ni" "align_stop eq lcs n m oi ni = (oe, ne)"
  shows "edits_from old new (f oa) (g na)
    (map (\<lambda>(oa, oi, na, ni). (f oa, f oi, g na, g ni)) (align eq lcs n m oi ni oa na)) (f oe) (g ne)"
  using assms(6-8) eq
proof (induction eq lcs n m oi ni oa na rule: align.induct)
  case (1 eq lcs n m oi ni oa na)
  have f: "f oa \<le> f oi" "g na \<le> g ni" "f oi \<le> f (oi + 1)" "g ni \<le> g (ni + 1)"
    using mono 1 by (simp_all add: monoD)
  have pushed: "edits_from old new (f oa) (g na)
      (map (\<lambda>(oa, oi, na, ni). (f oa, f oi, g na, g ni)) (pushed oa oi na ni) @ es) ae ce"
    if "edits_from old new (f oi) (g ni) es ae ce" for es ae ce
    using that f by (auto simp: pushed_def)
  show ?case
  proof (cases "oi < n \<and> ni < m")
    case False
    then have "align eq lcs n m oi ni oa na = pushed oa oi na ni" "oe = oi" "ne = ni"
      using "1.prems" align.simps [of eq lcs n m oi ni oa na] align_stop.simps [of eq lcs n m oi ni] by auto
    then show ?thesis
      using pushed [of "[]" "f oi" "g ni"] ends by (simp add: slice_def)
  next
    case True
    show ?thesis
    proof (cases "eq oi ni")
      case match: True
      have "edits_from old new (f (oi + 1)) (g (ni + 1)) (map (\<lambda>(oa, oi, na, ni). (f oa, f oi, g na, g ni))
          (align eq lcs n m (oi + 1) (ni + 1) (oi + 1) (ni + 1))) (f oe) (g ne)"
        using "1.IH"(1) True match "1.prems" align_stop.simps [of eq lcs n m oi ni] by auto
      then have "edits_from old new (f oi) (g ni) (map (\<lambda>(oa, oi, na, ni). (f oa, f oi, g na, g ni))
          (align eq lcs n m (oi + 1) (ni + 1) (oi + 1) (ni + 1))) (f oe) (g ne)"
        using f True match "1.prems"(4) by (auto intro: edits_from_extend)
      then show ?thesis
        using pushed align.simps [of eq lcs n m oi ni oa na] True match by simp
    next
      case miss: False
      then show ?thesis
        using "1.IH"(2,3) True "1.prems" align.simps [of eq lcs n m oi ni oa na]
          align_stop.simps [of eq lcs n m oi ni] by (auto split: if_splits)
    qed
  qed
qed

section \<open>Line-oriented ranges\<close>

definition line_start :: "bytes \<Rightarrow> nat \<Rightarrow> nat" where
  "line_start data i = patch_line_offset (split_patch_lines data) i (length data)"

definition same_line :: "bytes \<Rightarrow> bytes \<Rightarrow> nat \<Rightarrow> nat \<Rightarrow> bool" where
  "same_line old new i j \<longleftrightarrow>
     line_bytes old (split_patch_lines old) i = line_bytes new (split_patch_lines new) j"

abbreviation line_count :: "bytes \<Rightarrow> nat" where
  "line_count data \<equiv> length (split_patch_lines data)"

definition line_stop :: "bytes \<Rightarrow> bytes \<Rightarrow> nat \<times> nat" where
  "line_stop old new =
     align_stop (same_line old new) (lcs_table (same_line old new) (line_count old) (line_count new))
       (line_count old) (line_count new) 0 0"

lemma lines_tile: "tiles 0 (length data) (split_patch_lines data)"
  using split_lines_tiles [of 0 0 data] by (simp add: split_patch_lines_def)

lemma line_start_simps [simp]:
  "line_start data 0 = 0" "line_count data \<le> i \<Longrightarrow> line_start data i = length data"
  using tiles_offset(5) [OF lines_tile [of data], of i] tiles_offset(1) [OF lines_tile, of data]
  by (simp_all add: line_start_def)

lemma line_start_mono: "mono (line_start data)"
  using tiles_offset(4) [OF lines_tile, of data]
  by (auto simp: line_start_def intro!: mono_iff_le_Suc [THEN iffD2])

lemma line_start_le: "line_start data i \<le> length data"
  using monoD [OF line_start_mono, of i "max i (line_count data)" data] by simp

lemma line_bytes_slice:
  "i < line_count data \<Longrightarrow>
    line_bytes data (split_patch_lines data) i = slice (line_start data i) (line_start data (i + 1)) data"
  using tiles_offset(2,3) [OF lines_tile, of i data] by (simp add: line_bytes_def line_start_def)

lemma line_edits_eq:
  "line_edits old new = map (edit_offsets (split_patch_lines old) (length old) (split_patch_lines new) (length new))
     (align (same_line old new) (lcs_table (same_line old new) (line_count old) (line_count new))
        (line_count old) (line_count new) 0 0 0 0)"
  unfolding line_edits_def Let_def same_line_def [abs_def] by (rule refl)

lemma line_edits_from:
  assumes "line_stop old new = (oe, ne)"
  shows "edits_from old new 0 0 (line_edits old new) (line_start old oe) (line_start new ne)"
proof -
  have "line_edits old new = map (\<lambda>(oa, oi, na, ni).
      (line_start old oa, line_start old oi, line_start new na, line_start new ni))
      (align (same_line old new) (lcs_table (same_line old new) (line_count old) (line_count new))
        (line_count old) (line_count new) 0 0 0 0)"
    unfolding line_edits_eq line_start_def edit_offsets_def by (rule refl)
  moreover have "same_line old new i j \<longleftrightarrow> slice (line_start old i) (line_start old (i + 1)) old
      = slice (line_start new j) (line_start new (j + 1)) new"
    if "i < line_count old" "j < line_count new" for i j
    using that by (simp add: same_line_def line_bytes_slice)
  then have "edits_from old new (line_start old 0) (line_start new 0) (map (\<lambda>(oa, oi, na, ni).
      (line_start old oa, line_start old oi, line_start new na, line_start new ni))
      (align (same_line old new) (lcs_table (same_line old new) (line_count old) (line_count new))
        (line_count old) (line_count new) 0 0 0 0)) (line_start old oe) (line_start new ne)"
    using assms unfolding line_stop_def
    by (intro align_edits line_start_mono line_start_le) simp_all
  ultimately show ?thesis by (simp only: line_start_simps)
qed

text \<open>The walk ends at the end of both files when they share their last line and repeat it nowhere
  in the other file.\<close>

definition shared_last_line :: "bytes \<Rightarrow> bytes \<Rightarrow> bool" where
  "shared_last_line old new \<longleftrightarrow>
     (let n = line_count old; m = line_count new in
      0 < n \<and> 0 < m \<and> same_line old new (n - 1) (m - 1)
      \<and> (\<forall>j<m. same_line old new (n - 1) j \<longrightarrow> j = m - 1)
      \<and> (\<forall>i<n. same_line old new i (m - 1) \<longrightarrow> i = n - 1))"

lemma lcs_len_pos:
  assumes "eq (n - 1) (m - 1)" "i < n" "j < m"
  shows "0 < lcs_len eq n m i j"
  using assms
proof (induction eq n m i j rule: lcs_len.induct)
  case (1 eq n m i j)
  show ?case
  proof (cases "eq i j")
    case True
    then show ?thesis using 1 lcs_len.simps [of eq n m i j] by simp
  next
    case False
    have "i + 1 < n \<or> j + 1 < m"
    proof (rule ccontr)
      assume "\<not> (i + 1 < n \<or> j + 1 < m)"
      then have "i = n - 1" "j = m - 1" using "1.prems" by linarith+
      then show False using "1.prems" False by simp
    qed
    then show ?thesis
      using 1 False lcs_len.simps [of eq n m i j] by (auto simp: less_max_iff_disj)
  qed
qed

lemma align_stop_shared:
  assumes "eq (n - 1) (m - 1)" "\<And>j. j < m \<Longrightarrow> eq (n - 1) j \<Longrightarrow> j = m - 1"
    and "\<And>i. i < n \<Longrightarrow> eq i (m - 1) \<Longrightarrow> i = n - 1" and "i < n \<and> j < m \<or> i = n \<and> j = m"
  shows "align_stop eq (lcs_table eq n m) n m i j = (n, m)"
  using assms(4)
proof (induction "(n - i) + (m - j)" arbitrary: i j rule: less_induct)
  case less
  note unfold = align_stop.simps [of eq "lcs_table eq n m" n m i j]
  show ?case
  proof (cases "i < n \<and> j < m")
    case True
    have step: "align_stop eq (lcs_table eq n m) n m i' j' = (n, m)"
      if "i' \<in> {i, i + 1}" "j' \<in> {j, j + 1}" "(i', j') \<noteq> (i, j)"
        "i' < n \<and> j' < m \<or> i' = n \<and> j' = m" for i' j'
      using that True by (intro less.hyps) auto
    show ?thesis
    proof (cases "eq i j")
      case match: True
      have "i = n - 1 \<longleftrightarrow> j = m - 1" using match assms(2) [of j] assms(3) [of i] True by auto
      then have "i + 1 < n \<and> j + 1 < m \<or> i + 1 = n \<and> j + 1 = m" using True by linarith
      then show ?thesis using step [of "i + 1" "j + 1"] unfold True match by simp
    next
      case miss: False
      have l: "lcs_table eq n m ! (i * (m + 1) + j + 1) = lcs_len eq n m i (j + 1)"
        "lcs_table eq n m ! ((i + 1) * (m + 1) + j) = lcs_len eq n m (i + 1) j"
        using lcs_table_eq [of i n "j + 1" m eq] lcs_table_eq [of "i + 1" n j m eq] True by (simp_all add: add.assoc)
      have "i \<noteq> n - 1 \<or> j \<noteq> m - 1" using miss assms(1) by auto
      then consider "i + 1 = n" "j + 1 < m" | "i + 1 < n" "j + 1 = m" | "i + 1 < n" "j + 1 < m"
        using True by linarith
      then show ?thesis
      proof cases
        case 1
        then have "lcs_len eq n m (i + 1) j = 0" "0 < lcs_len eq n m i (j + 1)"
          using lcs_len_pos [of eq n m i "j + 1"] assms(1) by (simp_all add: lcs_len.simps [of eq n m n])
        then show ?thesis using step [of i "j + 1"] unfold True miss l 1 by simp
      next
        case 2
        then have "lcs_len eq n m i (j + 1) = 0" by (simp add: lcs_len.simps)
        then show ?thesis using step [of "i + 1" j] unfold True miss l 2 by simp
      next
        case 3
        then show ?thesis using step [of "i + 1" j] step [of i "j + 1"] unfold True miss by simp
      qed
    qed
  qed (use less.prems unfold in auto)
qed

lemma line_stop_shared:
  "shared_last_line old new \<Longrightarrow> line_stop old new = (line_count old, line_count new)"
  unfolding shared_last_line_def line_stop_def Let_def by (intro align_stop_shared) auto

section \<open>Runs of an equal-length edit\<close>

lemma slice_Suc: "i \<le> j \<Longrightarrow> j < length xs \<Longrightarrow> slice i (Suc j) xs = slice i j xs @ [xs ! j]"
  by (simp add: slice_def Suc_diff_le take_Suc_conv_app_nth)

lemma run_end_le: "index \<le> length old \<Longrightarrow> run_end old new index \<le> length old"
proof (induction old new index rule: run_end.induct)
  case (1 old new index)
  then show ?case by (subst run_end.simps) auto
qed

abbreviation same_edit :: "nat \<Rightarrow> nat \<times> nat \<Rightarrow> nat \<times> nat \<times> nat \<times> nat" where
  "same_edit p \<equiv> \<lambda>(s, e). (p + s, p + e, p + s, p + e)"

lemma changed_runs_edits:
  assumes "length old = length new" "i \<le> index" "index \<le> length old" "slice i index old = slice i index new"
  shows "edits_from old new i i (map (same_edit 0) (changed_runs old new index)) (length old) (length new)
    \<and> (\<forall>(s, e) \<in> set (changed_runs old new index). s < e)"
  using assms
proof (induction old new index arbitrary: i rule: changed_runs.induct)
  case (1 old new index)
  note unfold = changed_runs.simps [of old new index]
  show ?case
  proof (cases "index < length old")
    case True
    show ?thesis
    proof (cases "old ! index = new ! index")
      case eq: True
      then have "slice i (index + 1) old = slice i (index + 1) new"
        using 1 True by (simp add: slice_Suc)
      then show ?thesis using "1.IH"(1) [OF True eq, of i] 1 True eq unfold by simp
    next
      case False
      let ?stop = "run_end old new (index + 1)"
      have "index + 1 \<le> ?stop" "?stop \<le> length old"
        using run_end_ge run_end_le [of "index + 1" old new] True by auto
      then show ?thesis
        using "1.IH"(2) [OF True False refl, of ?stop] 1 True False unfold by (simp add: Let_def)
    qed
  qed (use 1 unfold in simp)
qed

lemma coalesce_runs_edits:
  "\<forall>(s, e) \<in> set runs. s < e \<Longrightarrow>
    map (same_edit p) (fold coalesce_run runs acc) = fold coalesce_edit (map (same_edit p) runs) (map (same_edit p) acc)"
proof (induction runs arbitrary: acc)
  case (Cons r runs)
  obtain s e where r: "r = (s, e)" "s < e" using Cons.prems by (cases r) auto
  have "map (same_edit p) (coalesce_run r acc) = coalesce_edit (same_edit p r) (map (same_edit p) acc)"
    using r by (cases acc rule: rev_cases) (auto simp: coalesce_run_def coalesce_edit_def split: prod.splits)
  then show ?case using Cons by simp
qed simp

lemma slice_slice:
  "p + s \<le> q \<Longrightarrow> slice a s (slice p q xs) = slice (p + a) (p + s) xs"
  by (simp add: slice_def drop_take min_def add.commute)

lemma edits_from_lift:
  assumes "edits_from (slice p oe old) (slice p ne new) a c es ae ce"
    and "p \<le> oe" "p \<le> ne" "oe \<le> length old" "ne \<le> length new"
  shows "edits_from old new (p + a) (p + c) (map (\<lambda>(s, e, s', e'). (p + s, p + e, p + s', p + e')) es) (p + ae) (p + ce)"
  using assms(1)
proof (induction es arbitrary: a c)
  case Nil
  then have "ae \<le> oe - p" "ce \<le> ne - p"
    using assms(4,5) by (simp_all add: length_slice_within del: length_slice)
  then have "p + ae \<le> oe" "p + ce \<le> ne" using assms(2,3) by linarith+
  then show ?case
    using Nil assms(4,5) slice_slice [of p ae oe a old] slice_slice [of p ce ne c new] by simp
next
  case (Cons x es)
  obtain s e s' e' where x: "x = (s, e, s', e')" by (cases x)
  have "e \<le> oe - p" "e' \<le> ne - p"
    using Cons.prems edits_from_end_le [of "slice p oe old" "slice p ne new" e e' es ae ce] assms(4,5)
    by (auto simp: x length_slice_within simp del: length_slice)
  then have "p + s \<le> oe" "p + s' \<le> ne" using Cons.prems assms(2,3) by (auto simp: x)
  then show ?case
    using Cons slice_slice [of p s oe a old] slice_slice [of p s' ne c new] by (simp add: x)
qed

lemma edits_within:
  "edits_from old new a c es ae ce \<Longrightarrow> (s, e, s', e') \<in> set es \<Longrightarrow> e \<le> ae \<and> e' \<le> ce"
proof (induction es arbitrary: a c)
  case (Cons x es)
  then show ?case using edits_from_end_le by (cases x) fastforce
qed simp

section \<open>Patches from end to end\<close>

lemma equal_length_ranges:
  assumes "length old = length new"
  obtains es where "derive_file_patch_ranges old new = map (edit_range new) es"
    "edits_from old new 0 0 es (length old) (length new)"
proof -
  define p where "p = common_prefix old new"
  define s where "s = common_suffix (drop p old) (drop p new)"
  note e = patch_ends [OF p_def s_def]
  let ?om = "slice p (length old - s) old" and ?nm = "slice p (length new - s) new"
  let ?runs = "changed_runs ?om ?nm 0"
  let ?es = "map (same_edit p) (fold coalesce_run ?runs [])"
  have len: "length ?om = length old - s - p" "length ?nm = length new - s - p"
    by (intro length_slice_within; simp)+
  have runs: "edits_from ?om ?nm 0 0 (map (same_edit 0) ?runs) (length ?om) (length ?nm)"
      "\<forall>(s, e) \<in> set ?runs. s < e"
    using changed_runs_edits [of ?om ?nm 0 0] len assms by (simp_all del: length_slice)
  have shift: "map (\<lambda>(s, e, s', e'). (p + s, p + e, p + s', p + e')) (map (same_edit 0) xs) = map (same_edit p) xs"
    for xs by auto
  have stop: "p + length ?om = length old - s" "p + length ?nm = length new - s"
    using len e(1,2) by linarith+
  have "edits_from old new (p + 0) (p + 0) (map (same_edit p) ?runs) (p + length ?om) (p + length ?nm)"
    using edits_from_lift [OF runs(1) e(1,2)] by (simp only: shift)
  then have "edits_from old new p p ([] @ map (same_edit p) ?runs) (length old - s) (length new - s)"
    unfolding stop by simp
  from coalesce_edits [OF this] coalesce_runs_edits [OF runs(2), of p "[]"]
  have mid: "edits_from old new p p ?es (length old - s) (length new - s)" by simp
  have "slice (length old - s) (length old) old = slice (length new - s) (length new) new"
    "slice 0 p old = slice 0 p new" using e(5,6) by simp_all
  then have es: "edits_from old new 0 0 ?es (length old) (length new)"
    by (intro edits_from_extend [OF edits_from_extend_end [OF mid]]) simp_all
  have "edit_range new (same_edit p r) = (case r of (start, stop) \<Rightarrow> \<lparr>fr_offset = p + start,
      fr_remove_len = stop - start, fr_replacement = slice start stop ?nm\<rparr>)"
    if r: "r \<in> set (fold coalesce_run ?runs [])" for r
  proof -
    obtain a b where ab: "r = (a, b)" by force
    then have "(p + a, p + b, p + a, p + b) \<in> set ?es" using r by force
    then have "p + b \<le> length new - s" using edits_within [OF mid] by blast
    then show ?thesis using slice_slice [of p b "length new - s" a new] by (simp add: ab edit_range_simp)
  qed
  then have "derive_file_patch_ranges old new = map (edit_range new) ?es"
    using len assms
    by (simp add: derive_file_patch_ranges_def Let_def p_def [symmetric] s_def [symmetric] del: length_slice)
  then show ?thesis using that es by blast
qed

lemma line_ranges:
  assumes "derive_line_patch_ranges old new = Some ranges" "line_stop old new = (oe, ne)"
  obtains es where "ranges = map (edit_range new) es"
    "edits_from old new 0 0 es (line_start old oe) (line_start new ne)"
proof
  show "ranges = map (edit_range new) (fold coalesce_edit (line_edits old new) [])"
    using assms(1) by (auto simp: derive_line_patch_ranges_def Let_def bind_eq_Some_conv split: if_splits)
  show "edits_from old new 0 0 (fold coalesce_edit (line_edits old new) []) (line_start old oe) (line_start new ne)"
    using coalesce_edits [of old new 0 0 "[]"] line_edits_from [OF assms(2)] by simp
qed

lemma unequal_length_ranges:
  assumes "length old \<noteq> length new"
  shows "derive_file_patch_ranges old new = (case derive_line_patch_ranges old new of
      Some ranges \<Rightarrow> ranges
    | None \<Rightarrow> let p = common_prefix old new; s = common_suffix (drop p old) (drop p new)
        in map (edit_range new) [(p, length old - s, p, length new - s)])"
proof -
  define p where "p = common_prefix old new"
  define s where "s = common_suffix (drop p old) (drop p new)"
  note e = patch_ends [OF p_def s_def]
  have len: "length (slice p (length old - s) old) = length old - s - p"
    "length (slice p (length new - s) new) = length new - s - p"
    by (intro length_slice_within; simp)+
  have "length old - s - p \<noteq> length new - s - p" using e(1-4) assms by linarith
  then show ?thesis
    using len unfolding derive_file_patch_ranges_def Let_def p_def [symmetric] s_def [symmetric]
    by (simp add: edit_range_simp split: option.splits del: length_slice)
qed

lemma declined_range_edits:
  "let p = common_prefix old new; s = common_suffix (drop p old) (drop p new)
   in edits_from old new 0 0 [(p, length old - s, p, length new - s)] (length old) (length new)"
  using patch_ends [OF refl refl, of old new] by (simp add: Let_def)

lemma derived_ranges_eq:
  assumes "length old = length new \<or> derive_line_patch_ranges old new = None \<or> shared_last_line old new"
    and "length old \<le> FILE_MAX_BYTES" "length new \<le> FILE_MAX_BYTES"
    and "derive_file_patch_ranges old new \<noteq> []" "length (derive_file_patch_ranges old new) \<le> MAX_FILE_PATCH_RANGES"
  shows "materialize_file_patch_ranges old (derive_file_patch_ranges old new) = Inr new"
proof -
  obtain es where "derive_file_patch_ranges old new = map (edit_range new) es"
      "edits_from old new 0 0 es (length old) (length new)"
  proof (cases "length old = length new")
    case True
    then show ?thesis using that equal_length_ranges by blast
  next
    case False
    show ?thesis
    proof (cases "derive_line_patch_ranges old new")
      case None
      then show ?thesis
        using False that [OF _ declined_range_edits [unfolded Let_def]] by (simp add: unequal_length_ranges Let_def)
    next
      case (Some ranges)
      then have "line_stop old new = (line_count old, line_count new)"
        using assms(1) False line_stop_shared by simp
      from line_ranges [OF Some this] show ?thesis
        using that Some False by (metis (no_types, lifting) line_start_simps(2) option.case(2) order_refl
          unequal_length_ranges)
    qed
  qed
  then show ?thesis
    using assms(2-5) materialize_edits [of old new es "length old" "length new"] by simp
qed

text \<open>Claim C29. A range patch that the server accepts from the client reproduces the new file when both
  files have the same length, when the line matching is declined, or when the files share a
  last line that occurs only there.\<close>

theorem derived_ranges_roundtrip:
  assumes "length old = length new \<or> derive_line_patch_ranges old new = None \<or> shared_last_line old new"
    and "length old \<le> FILE_MAX_BYTES" "length new \<le> FILE_MAX_BYTES"
    and "derive_file_patch_ranges old new \<noteq> []" "length (derive_file_patch_ranges old new) \<le> MAX_FILE_PATCH_RANGES"
  shows "materialize_file_patch_ranges old (derive_file_patch_ranges old new) = Inr new"
  by (rule derived_ranges_eq [OF assms])

text \<open>Two files of five and six lines whose short lines are edited and whose last line is new.\<close>

definition demo_old :: bytes where
  "demo_old = [97, 10] @ replicate 110 120 @ [10, 98, 10] @ replicate 110 120 @ [10, 125, 10]"

definition demo_new :: bytes where
  "demo_new = [99, 10] @ replicate 110 120 @ [10, 100, 10] @ replicate 110 120 @ [10, 125, 10, 101, 10]"

definition demo_same :: "nat \<Rightarrow> nat \<Rightarrow> bool" where
  "demo_same i j \<longleftrightarrow> (i, j) \<in> {(1, 1), (1, 3), (3, 1), (3, 3), (4, 4)}"

lemma split_replicate:
  "b \<noteq> 10 \<Longrightarrow> split_patch_lines_from s i (replicate k b @ bs) = split_patch_lines_from s (i + k) bs"
  by (induction k arbitrary: i) simp_all

lemma demo_lines:
  "split_patch_lines demo_old = [(0, 2), (2, 113), (113, 115), (115, 226), (226, 228)]"
  "split_patch_lines demo_new = [(0, 2), (2, 113), (113, 115), (115, 226), (226, 228), (228, 230)]"
  by (simp_all add: split_patch_lines_def demo_old_def demo_new_def split_replicate)

lemma demo_line_bytes:
  "map (line_bytes demo_old (split_patch_lines demo_old)) [0, 1, 2, 3, 4] =
     [[97, 10], replicate 110 120 @ [10], [98, 10], replicate 110 120 @ [10], [125, 10]]"
  "map (line_bytes demo_new (split_patch_lines demo_new)) [0, 1, 2, 3, 4, 5] =
     [[99, 10], replicate 110 120 @ [10], [100, 10], replicate 110 120 @ [10], [125, 10], [101, 10]]"
  unfolding demo_lines by (simp_all add: line_bytes_def slice_def demo_old_def demo_new_def)

lemma demo_same_line: "i < 5 \<Longrightarrow> j < 6 \<Longrightarrow> same_line demo_old demo_new i j = demo_same i j"
proof -
  assume "i < 5" "j < 6"
  then have "i \<in> {0, 1, 2, 3, 4}" "j \<in> {0, 1, 2, 3, 4, 5}" by auto
  define L :: bytes where "L = replicate 110 120 @ [10]"
  have "length L \<noteq> length [a, b]" for a b :: byte by (simp add: L_def)
  then have L: "L \<noteq> [a, b]" "[a, b] \<noteq> L" for a b by metis+
  define f where "f = line_bytes demo_old (split_patch_lines demo_old)"
  define g where "g = line_bytes demo_new (split_patch_lines demo_new)"
  have b: "f 0 = [97, 10]" "f 1 = L" "f 2 = [98, 10]" "f 3 = L" "f 4 = [125, 10]"
    "g 0 = [99, 10]" "g 1 = L" "g 2 = [100, 10]" "g 3 = L" "g 4 = [125, 10]" "g 5 = [101, 10]"
    using demo_line_bytes unfolding f_def [symmetric] g_def [symmetric] L_def [symmetric] by simp_all
  have "f i = g j \<longleftrightarrow> demo_same i j"
    using \<open>i \<in> _\<close> \<open>j \<in> _\<close> by (elim insertE emptyE; hypsubst; simp only: b L demo_same_def; simp)
  then show ?thesis by (simp add: same_line_def f_def g_def)
qed

lemma lcs_len_cong:
  "(\<And>i j. i < n \<Longrightarrow> j < m \<Longrightarrow> eq i j = eq' i j) \<Longrightarrow> lcs_len eq n m i j = lcs_len eq' n m i j"
proof (induction eq n m i j rule: lcs_len.induct)
  case (1 eq n m i j)
  then show ?case using lcs_len.simps [of eq n m i j] lcs_len.simps [of eq' n m i j] by simp
qed

lemma align_cong:
  assumes "\<And>i j. i < n \<Longrightarrow> j < m \<Longrightarrow> eq i j = eq' i j"
  shows "align eq (lcs_table eq n m) n m i j a c = align eq' (lcs_table eq' n m) n m i j a c"
  using assms
proof (induction "(n - i) + (m - j)" arbitrary: i j a c rule: less_induct)
  case less
  have t: "i \<le> n \<Longrightarrow> j \<le> m \<Longrightarrow> lcs_table eq n m ! (i * (m + 1) + j) = lcs_table eq' n m ! (i * (m + 1) + j)" for i j
    using lcs_len_cong [of n m eq eq'] less.prems by (simp only: lcs_table_eq)
  note u = align.simps [of eq "lcs_table eq n m" n m i j a c] align.simps [of eq' "lcs_table eq' n m" n m i j a c]
  show ?case
  proof (cases "i < n \<and> j < m")
    case True
    have "lcs_table eq n m ! (i * (m + 1) + j + 1) = lcs_table eq' n m ! (i * (m + 1) + j + 1)"
      "lcs_table eq n m ! ((i + 1) * (m + 1) + j) = lcs_table eq' n m ! ((i + 1) * (m + 1) + j)"
      using t [of i "j + 1"] t [of "i + 1" j] True by (simp_all add: add.assoc)
    moreover have "align eq (lcs_table eq n m) n m i' j' a c = align eq' (lcs_table eq' n m) n m i' j' a c"
      if "i' \<in> {i, i + 1}" "j' \<in> {j, j + 1}" "(i', j') \<noteq> (i, j)" for i' j' a c
      using that True less.prems by (intro less.hyps) auto
    ultimately show ?thesis
      using True less.prems unfolding u by simp
  qed (use u in auto)
qed

lemma demo_table:
  "lcs_table demo_same 5 6 ! 1 = 3" "lcs_table demo_same 5 6 ! 7 = 3"
  "lcs_table demo_same 5 6 ! 8 = 3" "lcs_table demo_same 5 6 ! 14 = 2"
  "lcs_table demo_same 5 6 ! 17 = 2" "lcs_table demo_same 5 6 ! 23 = 2"
  "lcs_table demo_same 5 6 ! 24 = 2" "lcs_table demo_same 5 6 ! 30 = 1"
  using lcs_table_eq [of 0 5 1 6 demo_same] lcs_table_eq [of 1 5 0 6 demo_same]
    lcs_table_eq [of 1 5 1 6 demo_same] lcs_table_eq [of 2 5 0 6 demo_same]
    lcs_table_eq [of 2 5 3 6 demo_same] lcs_table_eq [of 3 5 2 6 demo_same]
    lcs_table_eq [of 3 5 3 6 demo_same] lcs_table_eq [of 4 5 2 6 demo_same]
  by (simp_all add: lcs_len.simps demo_same_def)

lemma demo_align: "align demo_same (lcs_table demo_same 5 6) 5 6 0 0 0 0 = [(0, 1, 0, 1), (2, 3, 2, 3)]"
  by (simp add: align.simps [of demo_same "lcs_table demo_same 5 6"] demo_same_def demo_table
      demo_table(1) [unfolded One_nat_def] pushed_def)

lemma demo_line_edits: "line_edits demo_old demo_new = [(0, 2, 0, 2), (113, 115, 113, 115)]"
proof -
  have a: "align (same_line demo_old demo_new) (lcs_table (same_line demo_old demo_new) 5 6) 5 6 0 0 0 0
      = [(0, 1, 0, 1), (2, 3, 2, 3)]"
    using align_cong [of 5 6 "same_line demo_old demo_new" demo_same] demo_same_line demo_align by simp
  have n: "line_count demo_old = 5" "line_count demo_new = 6" by (simp_all add: demo_lines)
  have "line_edits demo_old demo_new = map (edit_offsets (split_patch_lines demo_old) (length demo_old)
      (split_patch_lines demo_new) (length demo_new)) [(0, 1, 0, 1), (2, 3, 2, 3)]"
    unfolding line_edits_eq n a by (rule refl)
  then show ?thesis by (simp add: demo_lines edit_offsets_def patch_line_offset_def)
qed

lemma demo_line_ranges: "derive_line_patch_ranges demo_old demo_new =
   Some [\<lparr>fr_offset = 0, fr_remove_len = 2, fr_replacement = [99, 10]\<rparr>,
    \<lparr>fr_offset = 113, fr_remove_len = 2, fr_replacement = [100, 10]\<rparr>]"
  by (simp add: derive_line_patch_ranges_def demo_line_edits demo_lines checked_add_def checked_mul_def
      u64_max_def consts_simps coalesce_edit_def edit_range_simp slice_def) (simp add: demo_new_def)

lemma demo_lengths: "length demo_old = 228" "length demo_new = 230"
  by (simp_all add: demo_old_def demo_new_def)

lemma demo_ranges: "derive_file_patch_ranges demo_old demo_new =
   [\<lparr>fr_offset = 0, fr_remove_len = 2, fr_replacement = [99, 10]\<rparr>,
    \<lparr>fr_offset = 113, fr_remove_len = 2, fr_replacement = [100, 10]\<rparr>]"
  by (simp add: unequal_length_ranges demo_lengths demo_line_ranges)

text \<open>Claim C30. Line-oriented ranges can lose the end of the new file: here the client, which may use
  ranges, chooses a patch that edits two lines and omits the appended one, and the server
  accepts it and stores a file without that line.\<close>

theorem derived_ranges_lose_appended_line:
  "\<exists>ranges. patch_from_base demo_old sha demo_new True = Some (CachedRanges ranges)
    \<and> materialize_file_patch_ranges demo_old ranges = Inr (take 228 demo_new)
    \<and> take 228 demo_new \<noteq> demo_new"
proof -
  have ne: "demo_old \<noteq> demo_new" "take 228 demo_new \<noteq> demo_new"
    by (rule notI, drule arg_cong [where f = length], simp add: demo_lengths)+
  have use: "should_use_file_patch_ranges (derive_file_patch_ranges demo_old demo_new) (length demo_new)"
    by (simp add: demo_ranges should_use_file_patch_ranges_def estimated_file_patch_ranges_wire_bytes_def
        file_patch_ranges_replacement_len_def saturating_add_def saturating_mul_def u64_max_def consts_simps demo_lengths)
  have "materialize_file_patch_ranges demo_old (derive_file_patch_ranges demo_old demo_new)
      = Inr (take 228 demo_new)"
    by (simp add: demo_ranges materialize_file_patch_ranges_def checked_add_def checked_sub_def u64_max_def
        demo_lengths consts_simps) (simp add: demo_old_def demo_new_def slice_def)
  then show ?thesis using ne use by (simp add: patch_from_base_def)
qed

theorem derived_ranges_roundtrip_witness:
  "materialize_file_patch_ranges [7, 1, 2, 8] (derive_file_patch_ranges [7, 1, 2, 8] [7, 3, 4, 8]) = Inr [7, 3, 4, 8]"
proof -
  have "changed_runs [1, 2] [3, 4 :: byte] 0 = [(0, 2)]"
    by (simp add: changed_runs.simps run_end.simps)
  then have "derive_file_patch_ranges [7, 1, 2, 8] [7, 3, 4, 8] =
      [\<lparr>fr_offset = 1, fr_remove_len = 2, fr_replacement = [3, 4]\<rparr>]"
    by (simp add: derive_file_patch_ranges_def common_suffix_rev slice_def coalesce_run_def)
  then show ?thesis
    using derived_ranges_roundtrip [of "[7, 1, 2, 8]" "[7, 3, 4, 8]"] by (simp add: consts_simps)
qed

theorem contiguous_patch_roundtrip_witness:
  "materialize_file_patch demo_old 0 1 (take 229 demo_new) = Inr demo_new"
proof -
  have "common_prefix demo_old demo_new = 0" "common_suffix demo_old demo_new = 1"
    by (simp_all add: common_suffix_rev demo_old_def demo_new_def)
  then show ?thesis
    using contiguous_patch_roundtrip [of demo_old demo_new] demo_lengths
    by (simp add: consts_simps Let_def)
qed

end
