(* ===== verification/File_Transaction.thy ===== *)
theory File_Transaction
  imports Session File_Patch
begin

text \<open>
  Workspace file mutations (\<open>commit_file_transaction\<close>, \<open>rollback_file_transaction\<close>,
  \<open>store_file_global\<close>, the patch handlers and \<open>recover_pending_file_mutations\<close> in
  \<open>crates/asp-server/src/main.rs\<close>).  A mutation stages its body in a sibling of the target,
  writes a durable intent, moves the old file to a backup, installs the new one and appends
  the event; startup finishes or undoes every intent it finds.  Mutations are serialized by
  the workspace gate, so one mutation is one function on the workspace.  A directory sync
  follows every rename, so the states a crash can leave are those between the steps; where
  the process dies, and which system calls fail, are arguments.  The intents are the decoded
  files of the \<open>transactions\<close> directory by their stem.  Permission bits are not modelled.
\<close>

section \<open>File operations\<close>

text \<open>The place a path names: its parent with all links followed, and its last component.\<close>

definition locate :: "file_system \<Rightarrow> path_key \<Rightarrow> path_key option" where
  "locate fs p = (if p = [] then None
     else map_option (\<lambda>d. d @ [last p]) (canonicalize fs (butlast p)))"

definition remove_file :: "file_system \<Rightarrow> path_key \<Rightarrow> file_system option" where
  "remove_file fs p =
     (case locate fs p of
        None \<Rightarrow> None
      | Some k \<Rightarrow> (case fmlookup fs k of
           Some (FileNode _) \<Rightarrow> Some (fmdrop k fs)
         | Some (LinkNode _) \<Rightarrow> Some (fmdrop k fs)
         | _ \<Rightarrow> None))"

definition remove_if_exists :: "file_system \<Rightarrow> path_key \<Rightarrow> file_system" where
  "remove_if_exists fs p = (case remove_file fs p of None \<Rightarrow> fs | Some fs \<Rightarrow> fs)"

definition rename_file :: "file_system \<Rightarrow> path_key \<Rightarrow> path_key \<Rightarrow> file_system option" where
  "rename_file fs p q =
     (case (locate fs p, locate fs q) of
        (Some a, Some b) \<Rightarrow>
          (case fmlookup fs a of
             None \<Rightarrow> None
           | Some DirNode \<Rightarrow> None
           | Some node \<Rightarrow> if fmlookup fs b = Some DirNode then None
               else Some (fmupd b node (fmdrop a fs)))
      | _ \<Rightarrow> None)"

function create_dir_all :: "file_system \<Rightarrow> path_key \<Rightarrow> file_system option" where
  "create_dir_all fs p =
     (if path_exists fs p then
        (case canonicalize fs p of
           Some k \<Rightarrow> if k = [] \<or> fmlookup fs k = Some DirNode then Some fs else None
         | None \<Rightarrow> None)
      else if p = [] then None
      else case create_dir_all fs (butlast p) of
             None \<Rightarrow> None
           | Some fs \<Rightarrow>
               (case locate fs p of
                  None \<Rightarrow> None
                | Some k \<Rightarrow> if fmlookup fs k = None then Some (fmupd k DirNode fs) else None))"
  by pat_completeness auto
termination by (relation "measure (\<lambda>(fs, p). length p)") auto

declare create_dir_all.simps [simp del]

text \<open>\<open>digest_file_sync\<close>: the digest of a regular file; a final link is not followed.\<close>

definition digest_file :: "(bytes \<Rightarrow> string) \<Rightarrow> file_system \<Rightarrow> path_key \<Rightarrow> string option" where
  "digest_file sha256 fs p =
     (case symlink_metadata fs p of Some (FileNode data) \<Rightarrow> Some (sha256 data) | _ \<Rightarrow> None)"

text \<open>\<open>Path::with_extension\<close> on the last component.\<close>

definition file_stem :: "string \<Rightarrow> string" where
  "file_stem w =
     (let after = takeWhile (\<lambda>c. c \<noteq> CHR ''.'') (rev w);
          stem = rev (drop (length after + 1) (rev w))
      in if length after = length w \<or> stem = [] then w else stem)"

definition with_extension :: "path_key \<Rightarrow> string \<Rightarrow> path_key" where
  "with_extension p ext = butlast p @ [file_stem (last p) @ ''.'' @ ext]"

section \<open>Requests and preconditions\<close>

definition STREAM_FILE_MAX_BYTES :: u64 where [consts_simps]:
  "STREAM_FILE_MAX_BYTES = 1073741824"

datatype file_error =
    InvalidSha256
  | VersionConflict
  | PreconditionRequired
  | IdempotencyConflict
  | FileTooLarge
  | StorageHeadroom
  | BadPath path_error
  | BadPatch patch_error
  | NoCapacity session_error
  | TemporaryMissing
  | TargetNotRegular
  | FileVersionOverflow
  | FileVersionChanged
  | EventNotAppended session_error
  | FileIo
  | RollbackRefused
  | InvalidPending
  | PendingConflict
  | CommittedTargetLost
  | StalePending
  | UnexpectedTarget
  | CorruptBackup
  | LostTargetAndBackup
  | NothingRecoverable

definition valid_sha256 :: "string \<Rightarrow> bool" where
  "valid_sha256 v \<longleftrightarrow> length v = 64 \<and> list_all (\<lambda>c. is_ascii_hexdigit (byte_of c)) v"

definition validate_file_precondition :: "string option \<Rightarrow> string option \<Rightarrow> bool \<Rightarrow> file_error + unit" where
  "validate_file_precondition current_sha256 expected_sha256 allow_blind =
     (case expected_sha256 of
        Some expected \<Rightarrow>
          if \<not> valid_sha256 expected then Inl InvalidSha256
          else if current_sha256 \<noteq> Some expected then Inl VersionConflict
          else Inr ()
      | None \<Rightarrow>
          if current_sha256 \<noteq> None \<and> \<not> allow_blind then Inl PreconditionRequired else Inr ())"

definition cached_file_response :: "session \<Rightarrow> uuid \<Rightarrow> string \<Rightarrow> file_error + response option" where
  "cached_file_response s request_id request_hash =
     (case fmlookup (se_file_requests s) request_id of
        None \<Rightarrow> Inr None
      | Some previous \<Rightarrow>
          if fq_request_hash previous \<noteq> request_hash then Inl IdempotencyConflict
          else Inr (Some (RespFileStored (fq_path previous) (fq_version previous) (fq_sha256 previous))))"

section \<open>The workspace of a session\<close>

record pending_file_mutation =
  pm_request_id :: uuid
  pm_request_hash :: string
  pm_path :: string
  pm_version :: u64
  pm_sha256 :: string
  pm_temporary_path :: string
  pm_backup_path :: "string option"
  pm_previous_sha256 :: "string option"

record workspace =
  ws_fs :: file_system
  ws_intents :: "(uuid, pending_file_mutation) fmap"
  ws_session :: session

definition canonical_root :: "workspace \<Rightarrow> path_key" where
  "canonical_root w = (let root = se_root (ws_session w) in
     case canonicalize (ws_fs w) root of Some c \<Rightarrow> c | None \<Rightarrow> root)"

definition workspace_relative_path :: "session \<Rightarrow> path_key \<Rightarrow> file_error + string" where
  "workspace_relative_path s p =
     (if prefix (se_root s) p then Inr (join_slash (drop (length (se_root s)) p)) else Inl FileIo)"

text \<open>Where the process may die, and the outcome of the system calls of one mutation.\<close>

datatype tx_point =
    AfterIntent | AfterBackup | AfterInstall | AfterEvent | AfterBackupRemoved
  | UndoTargetRemoved | UndoBackupRestored | UndoTemporaryRemoved

record tx_env =
  te_backup_ext :: string
  te_now :: u64
  te_append :: append_io
  te_dirs_ok :: bool
  te_mode_ok :: bool
  te_intent_ok :: bool
  te_backup_ok :: bool
  te_backup_sync_ok :: bool
  te_install_ok :: bool
  te_install_sync_ok :: bool
  te_remove_backup_ok :: bool
  te_clear_ok :: bool
  te_undo_ok :: bool
  te_crash :: "tx_point option"

datatype tx_outcome = TxDone response | TxFailed file_error | TxDied

section \<open>Rolling back\<close>

definition clear_intent :: "uuid \<Rightarrow> workspace \<Rightarrow> workspace" where
  "clear_intent request_id w = w\<lparr>ws_intents := fmdrop request_id (ws_intents w)\<rparr>"

definition undo_target ::
    "(bytes \<Rightarrow> string) \<Rightarrow> path_key \<Rightarrow> string \<Rightarrow> workspace \<Rightarrow> file_error + workspace" where
  "undo_target sha256 resolved expected_digest w =
     (case symlink_metadata (ws_fs w) resolved of
        None \<Rightarrow> Inr w
      | Some (FileNode data) \<Rightarrow>
          if sha256 data \<noteq> expected_digest then Inl RollbackRefused
          else (case remove_file (ws_fs w) resolved of
                  None \<Rightarrow> Inl FileIo | Some fs \<Rightarrow> Inr (w\<lparr>ws_fs := fs\<rparr>))
      | Some _ \<Rightarrow> Inl RollbackRefused)"

definition undo_backup :: "path_key \<Rightarrow> path_key option \<Rightarrow> workspace \<Rightarrow> file_error + workspace" where
  "undo_backup resolved backup w =
     (case backup of
        None \<Rightarrow> Inr w
      | Some b \<Rightarrow>
          if symlink_metadata (ws_fs w) b = None then Inr w
          else (case rename_file (ws_fs w) b resolved of
                  None \<Rightarrow> Inl FileIo | Some fs \<Rightarrow> Inr (w\<lparr>ws_fs := fs\<rparr>)))"

definition undo_temporary :: "path_key \<Rightarrow> workspace \<Rightarrow> file_error + workspace" where
  "undo_temporary temporary w =
     (if symlink_metadata (ws_fs w) temporary = None then Inr w
      else (case remove_file (ws_fs w) temporary of
              None \<Rightarrow> Inl FileIo | Some fs \<Rightarrow> Inr (w\<lparr>ws_fs := fs\<rparr>)))"

text \<open>\<open>te_undo_ok\<close> says whether the final directory sync of the rollback succeeds.  The result
  is \<^const>\<open>TxDied\<close> when the process dies on the way, otherwise the error of the mutation.\<close>

definition rollback_file_transaction ::
    "(bytes \<Rightarrow> string) \<Rightarrow> tx_env \<Rightarrow> uuid \<Rightarrow> bool \<Rightarrow> path_key \<Rightarrow> path_key \<Rightarrow> path_key option \<Rightarrow> string
       \<Rightarrow> file_error \<Rightarrow> workspace \<Rightarrow> workspace \<times> tx_outcome" where
  "rollback_file_transaction sha256 env request_id intent resolved temporary backup expected_digest err w =
     (case undo_target sha256 resolved expected_digest w of
        Inl _ \<Rightarrow> (w, TxFailed err)
      | Inr w \<Rightarrow>
      if te_crash env = Some UndoTargetRemoved then (w, TxDied)
      else case undo_backup resolved backup w of
        Inl _ \<Rightarrow> (w, TxFailed err)
      | Inr w \<Rightarrow>
      if te_crash env = Some UndoBackupRestored then (w, TxDied)
      else case undo_temporary temporary w of
        Inl _ \<Rightarrow> (w, TxFailed err)
      | Inr w \<Rightarrow>
      if te_crash env = Some UndoTemporaryRemoved then (w, TxDied)
      else if \<not> te_undo_ok env then (w, TxFailed err)
      else (if intent then clear_intent request_id w else w, TxFailed err))"

section \<open>Committing a mutation\<close>

text \<open>The digest of the target, when one is required.  Blind overwrites do not need it.\<close>

definition target_digest ::
    "(bytes \<Rightarrow> string) \<Rightarrow> workspace \<Rightarrow> path_key \<Rightarrow> string option \<Rightarrow> bool \<Rightarrow> file_error + string option" where
  "target_digest sha256 w resolved expected_sha256 allow_blind =
     (case symlink_metadata (ws_fs w) resolved of
        None \<Rightarrow> Inr None
      | Some (FileNode data) \<Rightarrow>
          if expected_sha256 = None then (if allow_blind then Inr None else Inl PreconditionRequired)
          else if STREAM_FILE_MAX_BYTES < length data then Inl FileTooLarge
          else Inr (Some (sha256 data))
      | Some _ \<Rightarrow> Inl TargetNotRegular)"

text \<open>Everything up to the durable intent.  The result is the version, the backup path and
  whether an intent was written.\<close>

definition prepare_transaction ::
    "tx_env \<Rightarrow> uuid \<Rightarrow> string \<Rightarrow> string \<Rightarrow> path_key \<Rightarrow> path_key \<Rightarrow> string \<Rightarrow> string option \<Rightarrow> workspace
       \<Rightarrow> workspace \<times> (file_error + (u64 \<times> path_key option \<times> bool))" where
  "prepare_transaction env request_id request_hash path resolved temporary digest previous_sha256 w =
     (let s = ws_session w;
          current = (case fmlookup (se_file_versions s) resolved of None \<Rightarrow> 0 | Some v \<Rightarrow> v);
          backup = map_option (\<lambda>_. with_extension resolved (te_backup_ext env)) previous_sha256
      in if \<not> te_mode_ok env then (w, Inl FileIo)
      else case checked_add current 1 of
        None \<Rightarrow> (w, Inl FileVersionOverflow)
      | Some version \<Rightarrow>
      if se_disk s = None then (w, Inr (version, backup, False))
      else case (workspace_relative_path s temporary,
                 case backup of None \<Rightarrow> Inr None | Some b \<Rightarrow> and_then (workspace_relative_path s b) (\<lambda>r. Inr (Some r))) of
        (Inr t, Inr b) \<Rightarrow>
          if \<not> te_intent_ok env then (w, Inl FileIo)
          else (w\<lparr>ws_intents := fmupd request_id
                   \<lparr>pm_request_id = request_id, pm_request_hash = request_hash, pm_path = path,
                    pm_version = version, pm_sha256 = digest, pm_temporary_path = t,
                    pm_backup_path = b, pm_previous_sha256 = previous_sha256\<rparr> (ws_intents w)\<rparr>,
                Inr (version, backup, True))
      | (Inl e, _) \<Rightarrow> (w, Inl e)
      | (_, Inl e) \<Rightarrow> (w, Inl e))"

text \<open>Appending the event and materializing the mutation in the session.\<close>

definition file_mutation :: "uuid \<Rightarrow> string \<Rightarrow> string \<Rightarrow> u64 \<Rightarrow> string \<Rightarrow> path_key \<Rightarrow> session \<Rightarrow> session" where
  "file_mutation request_id request_hash path version digest resolved s =
     s\<lparr>se_file_versions := fmupd resolved version (se_file_versions s),
       se_file_requests := fmupd request_id \<lparr>fq_request_hash = request_hash, fq_path = path,
         fq_version = version, fq_sha256 = digest\<rparr> (se_file_requests s)\<rparr>"

definition record_mutation ::
    "session_codec \<Rightarrow> append_io \<Rightarrow> u64 \<Rightarrow> uuid \<Rightarrow> string \<Rightarrow> string \<Rightarrow> u64 \<Rightarrow> string \<Rightarrow> path_key \<Rightarrow> session
       \<Rightarrow> (session \<times> (file_error + unit)) option" where
  "record_mutation x io now request_id request_hash path version digest resolved s =
     map_option (\<lambda>(s, r). case r of
          Inl e \<Rightarrow> (s, Inl (EventNotAppended e))
        | Inr _ \<Rightarrow> (file_mutation request_id request_hash path version digest resolved s, Inr ()))
       (append_locked x io now (FileMutation request_id request_hash path version digest) s)"

definition tx_cleanup :: "tx_env \<Rightarrow> uuid \<Rightarrow> bool \<Rightarrow> path_key option \<Rightarrow> response \<Rightarrow> workspace \<Rightarrow> workspace \<times> tx_outcome" where
  "tx_cleanup env request_id intent backup r w =
     (let w = (case backup of
                 Some b \<Rightarrow> if te_remove_backup_ok env then w\<lparr>ws_fs := remove_if_exists (ws_fs w) b\<rparr> else w
               | None \<Rightarrow> w)
      in if te_crash env = Some AfterBackupRemoved then (w, TxDied)
         else (if intent \<and> te_clear_ok env then clear_intent request_id w else w, TxDone r))"

definition install_transaction ::
    "session_codec \<Rightarrow> tx_env \<Rightarrow> uuid \<Rightarrow> string \<Rightarrow> string \<Rightarrow> path_key \<Rightarrow> path_key \<Rightarrow> string
       \<Rightarrow> u64 \<Rightarrow> path_key option \<Rightarrow> bool \<Rightarrow> workspace \<Rightarrow> (workspace \<times> tx_outcome) option" where
  "install_transaction x env request_id request_hash path resolved temporary digest version backup intent w =
     (let undo = rollback_file_transaction (lc_sha256 (sx_log x)) env request_id intent resolved temporary
                   backup digest
      in case rename_file (ws_fs w) temporary resolved of
        None \<Rightarrow> Some (undo FileIo w)
      | Some fs \<Rightarrow>
      if \<not> te_install_ok env then Some (undo FileIo w)
      else
      let w = w\<lparr>ws_fs := fs\<rparr> in
      if te_crash env = Some AfterInstall then Some (w, TxDied)
      else if \<not> te_install_sync_ok env then Some (undo FileIo w)
      else
      let s = ws_session w;
          current = (case fmlookup (se_file_versions s) resolved of None \<Rightarrow> 0 | Some v \<Rightarrow> v)
      in if saturating_add current 1 \<noteq> version then Some (undo FileVersionChanged w)
      else case record_mutation x (te_append env) (te_now env) request_id request_hash path version digest
                  resolved s of
        None \<Rightarrow> None
      | Some (s, Inl e) \<Rightarrow> Some (undo e (w\<lparr>ws_session := s\<rparr>))
      | Some (s, Inr _) \<Rightarrow>
          let w = w\<lparr>ws_session := s\<rparr> in
          if te_crash env = Some AfterEvent then Some (w, TxDied)
          else Some (tx_cleanup env request_id intent backup (RespFileStored path version digest) w))"

definition backup_and_install ::
    "session_codec \<Rightarrow> tx_env \<Rightarrow> uuid \<Rightarrow> string \<Rightarrow> string \<Rightarrow> path_key \<Rightarrow> path_key \<Rightarrow> string
       \<Rightarrow> u64 \<Rightarrow> path_key option \<Rightarrow> bool \<Rightarrow> workspace \<Rightarrow> (workspace \<times> tx_outcome) option" where
  "backup_and_install x env request_id request_hash path resolved temporary digest version backup intent w =
     (case backup of
        None \<Rightarrow> install_transaction x env request_id request_hash path resolved temporary digest version backup intent w
      | Some b \<Rightarrow>
          (case (if te_backup_ok env then rename_file (ws_fs w) resolved b else None) of
             None \<Rightarrow> Some ((if intent then clear_intent request_id w else w)
                        \<lparr>ws_fs := remove_if_exists (ws_fs w) temporary\<rparr>, TxFailed FileIo)
           | Some fs \<Rightarrow>
               let w = w\<lparr>ws_fs := fs\<rparr> in
               if te_crash env = Some AfterBackup then Some (w, TxDied)
               else if \<not> te_backup_sync_ok env then
                 Some (rollback_file_transaction (lc_sha256 (sx_log x)) env request_id intent resolved
                         temporary backup digest FileIo w)
               else install_transaction x env request_id request_hash path resolved temporary digest
                      version backup intent w))"

text \<open>A reservation that is not committed is released when it goes out of scope.\<close>

definition drop_tx_reservation :: "workspace \<times> tx_outcome \<Rightarrow> workspace \<times> tx_outcome" where
  "drop_tx_reservation = (\<lambda>(w, r). case r of
     TxFailed _ \<Rightarrow> (w\<lparr>ws_session := drop_reservation False (ws_session w)\<rparr>, r)
   | _ \<Rightarrow> (w, r))"

definition transact ::
    "session_codec \<Rightarrow> tx_env \<Rightarrow> uuid \<Rightarrow> string \<Rightarrow> string \<Rightarrow> path_key \<Rightarrow> path_key \<Rightarrow> string
       \<Rightarrow> string option \<Rightarrow> bool \<Rightarrow> workspace \<Rightarrow> (workspace \<times> tx_outcome) option" where
  "transact x env request_id request_hash path resolved temporary digest expected_sha256 allow_blind w =
     (case symlink_metadata (ws_fs w) temporary of
        Some (FileNode _) \<Rightarrow>
      (case (if te_dirs_ok env then create_dir_all (ws_fs w) (butlast resolved) else None) of
        None \<Rightarrow> Some (w, TxFailed FileIo)
      | Some fs \<Rightarrow>
      let w = w\<lparr>ws_fs := fs\<rparr> in
      case target_digest (lc_sha256 (sx_log x)) w resolved expected_sha256 allow_blind of
        Inl e \<Rightarrow> Some (w, TxFailed e)
      | Inr previous_sha256 \<Rightarrow>
      (case validate_file_precondition previous_sha256 expected_sha256 allow_blind of
        Inl e \<Rightarrow> Some (w, TxFailed e)
      | Inr _ \<Rightarrow>
      (case prepare_transaction env request_id request_hash path resolved temporary digest previous_sha256 w of
        (w, Inl e) \<Rightarrow>
          Some ((clear_intent request_id w)\<lparr>ws_fs := remove_if_exists (ws_fs w) temporary\<rparr>, TxFailed e)
      | (w, Inr (version, backup, intent)) \<Rightarrow>
          if te_crash env = Some AfterIntent then Some (w, TxDied)
          else backup_and_install x env request_id request_hash path resolved temporary digest version
                 backup intent w)))
      | _ \<Rightarrow> Some (w, TxFailed TemporaryMissing))"

definition commit_file_transaction ::
    "session_codec \<Rightarrow> tx_env \<Rightarrow> uuid \<Rightarrow> string \<Rightarrow> string \<Rightarrow> path_key \<Rightarrow> path_key \<Rightarrow> string
       \<Rightarrow> string option \<Rightarrow> bool \<Rightarrow> bool \<Rightarrow> workspace \<Rightarrow> (workspace \<times> tx_outcome) option" where
  "commit_file_transaction x env request_id request_hash path resolved temporary digest expected_sha256
      allow_blind reservation w =
     (let release = (\<lambda>w. if reservation then w\<lparr>ws_session := drop_reservation False (ws_session w)\<rparr> else w) in
      case cached_file_response (ws_session w) request_id request_hash of
        Inl e \<Rightarrow> Some (release w, TxFailed e)
      | Inr (Some cached) \<Rightarrow>
          Some (release w\<lparr>ws_fs := remove_if_exists (ws_fs w) temporary\<rparr>, TxDone cached)
      | Inr None \<Rightarrow>
      (case (if reservation then (ws_session w, Inr ()) else reserve_idempotency_record (ws_session w)) of
        (s, Inl e) \<Rightarrow> Some (w\<lparr>ws_session := s\<rparr>, TxFailed (NoCapacity e))
      | (s, Inr _) \<Rightarrow>
          map_option drop_tx_reservation
            (transact x env request_id request_hash path resolved temporary digest expected_sha256 allow_blind
               (w\<lparr>ws_session := s\<rparr>))))"

section \<open>Recovery at startup\<close>

definition invalid_pending :: "uuid \<Rightarrow> pending_file_mutation \<Rightarrow> bool" where
  "invalid_pending stem p \<longleftrightarrow> pm_request_id p \<noteq> stem \<or> \<not> valid_sha256 (pm_sha256 p) \<or> pm_path p = []
     \<or> pm_temporary_path p = [] \<or> pm_request_hash p = []
     \<or> (case pm_previous_sha256 p of None \<Rightarrow> False | Some v \<Rightarrow> \<not> valid_sha256 v)"

text \<open>Removing what a committed mutation left behind.\<close>

definition cleanup_pending_file_mutation ::
    "pending_file_mutation \<Rightarrow> workspace \<Rightarrow> file_error + workspace" where
  "cleanup_pending_file_mutation p w =
     (let root = se_root (ws_session w) in
      and_then (map_err BadPath (resolve_internal_path (ws_fs w) root (canonical_root w) (pm_temporary_path p)))
        (\<lambda>temporary.
      let w = w\<lparr>ws_fs := remove_if_exists (ws_fs w) temporary\<rparr> in
      and_then (case pm_backup_path p of
           None \<Rightarrow> Inr w
         | Some b \<Rightarrow>
             and_then (map_err BadPath (resolve_internal_path (ws_fs w) root (canonical_root w) b))
               (\<lambda>backup. Inr (w\<lparr>ws_fs := remove_if_exists (ws_fs w) backup\<rparr>)))
        (\<lambda>w. Inr (clear_intent (pm_request_id p) w))))"

definition is_regular :: "file_system \<Rightarrow> path_key \<Rightarrow> bool" where
  "is_regular fs p \<longleftrightarrow> (case symlink_metadata fs p of Some (FileNode _) \<Rightarrow> True | _ \<Rightarrow> False)"

text \<open>The event was appended before the crash: only the leftovers remain.\<close>

definition recover_committed ::
    "(bytes \<Rightarrow> string) \<Rightarrow> pending_file_mutation \<Rightarrow> file_request \<Rightarrow> path_key \<Rightarrow> workspace
       \<Rightarrow> file_error + workspace" where
  "recover_committed sha256 p previous target w =
     (if fq_request_hash previous \<noteq> pm_request_hash p \<or> fq_path previous \<noteq> pm_path p
         \<or> fq_sha256 previous \<noteq> pm_sha256 p then Inl PendingConflict
      else if digest_file sha256 (ws_fs w) target \<noteq> Some (pm_sha256 p) then Inl CommittedTargetLost
      else cleanup_pending_file_mutation p w)"

text \<open>The new file is installed and its event is missing: append it.\<close>

definition recover_installed ::
    "session_codec \<Rightarrow> append_io \<Rightarrow> u64 \<Rightarrow> pending_file_mutation \<Rightarrow> path_key \<Rightarrow> path_key \<Rightarrow> path_key option
       \<Rightarrow> workspace \<Rightarrow> (workspace \<times> (file_error + unit)) option" where
  "recover_installed x io now p target temporary backup w =
     (let s = ws_session w;
          current = (case fmlookup (se_file_versions s) target of None \<Rightarrow> 0 | Some v \<Rightarrow> v)
      in if pm_version p \<le> current then Some (w, Inl StalePending)
      else case record_mutation x io now (pm_request_id p) (pm_request_hash p) (pm_path p) (pm_version p)
                  (pm_sha256 p) target s of
        None \<Rightarrow> None
      | Some (s, Inl e) \<Rightarrow> Some (w\<lparr>ws_session := s\<rparr>, Inl e)
      | Some (s, Inr _) \<Rightarrow>
          let w = w\<lparr>ws_session := s\<lparr>se_idempotency_records := se_idempotency_records s + 1\<rparr>\<rparr>;
              w = (case backup of None \<Rightarrow> w | Some b \<Rightarrow> w\<lparr>ws_fs := remove_if_exists (ws_fs w) b\<rparr>);
              w = w\<lparr>ws_fs := remove_if_exists (ws_fs w) temporary\<rparr>
          in Some (clear_intent (pm_request_id p) w, Inr ()))"

text \<open>The new file is not installed: undo, when the state is one the mutation can have left.\<close>

definition recover_untouched ::
    "(bytes \<Rightarrow> string) \<Rightarrow> pending_file_mutation \<Rightarrow> path_key \<Rightarrow> path_key \<Rightarrow> path_key option
       \<Rightarrow> workspace \<Rightarrow> file_error + workspace" where
  "recover_untouched sha256 p target temporary backup w =
     (let backup_exists = (case backup of None \<Rightarrow> False | Some b \<Rightarrow> is_regular (ws_fs w) b) in
      if \<not> backup_exists \<and> pm_previous_sha256 p \<noteq> None
         \<and> digest_file sha256 (ws_fs w) target = pm_previous_sha256 p
      then Inr (clear_intent (pm_request_id p)
        (if is_regular (ws_fs w) temporary then w\<lparr>ws_fs := remove_if_exists (ws_fs w) temporary\<rparr> else w))
      else Inl UnexpectedTarget)"

definition recover_removed ::
    "(bytes \<Rightarrow> string) \<Rightarrow> pending_file_mutation \<Rightarrow> path_key \<Rightarrow> path_key \<Rightarrow> path_key option
       \<Rightarrow> workspace \<Rightarrow> file_error + workspace" where
  "recover_removed sha256 p target temporary backup w =
     (let temporary_exists = is_regular (ws_fs w) temporary in
      and_then (case backup of
          Some b \<Rightarrow>
            if is_regular (ws_fs w) b then
              if digest_file sha256 (ws_fs w) b \<noteq> pm_previous_sha256 p then Inl CorruptBackup
              else (case rename_file (ws_fs w) b target of
                      None \<Rightarrow> Inl FileIo | Some fs \<Rightarrow> Inr (w\<lparr>ws_fs := fs\<rparr>))
            else if \<not> temporary_exists then Inl LostTargetAndBackup else Inr w
        | None \<Rightarrow> if \<not> temporary_exists then Inl NothingRecoverable else Inr w)
      (\<lambda>w. Inr (clear_intent (pm_request_id p)
        (if temporary_exists then w\<lparr>ws_fs := remove_if_exists (ws_fs w) temporary\<rparr> else w))))"

definition on_workspace :: "workspace \<Rightarrow> file_error + workspace \<Rightarrow> workspace \<times> (file_error + unit)" where
  "on_workspace w r = (case r of Inl e \<Rightarrow> (w, Inl e) | Inr w \<Rightarrow> (w, Inr ()))"

definition recover_pending_file_mutation ::
    "session_codec \<Rightarrow> append_io \<Rightarrow> u64 \<Rightarrow> uuid \<Rightarrow> pending_file_mutation \<Rightarrow> workspace
       \<Rightarrow> (workspace \<times> (file_error + unit)) option" where
  "recover_pending_file_mutation x io now stem p w =
     (let sha256 = lc_sha256 (sx_log x); root = se_root (ws_session w);
          internal = (\<lambda>path. map_err BadPath (resolve_internal_path (ws_fs w) root (canonical_root w) path))
      in if invalid_pending stem p then Some (w, Inl InvalidPending)
      else case resolve_write_path (ws_fs w) root (canonical_root w) (pm_path p) of
        Inl e \<Rightarrow> Some (w, Inl (BadPath e))
      | Inr target \<Rightarrow>
      if symlink_metadata (ws_fs w) target \<noteq> None \<and> \<not> is_regular (ws_fs w) target
      then Some (w, Inl TargetNotRegular)
      else case fmlookup (se_file_requests (ws_session w)) (pm_request_id p) of
        Some previous \<Rightarrow> Some (on_workspace w (recover_committed sha256 p previous target w))
      | None \<Rightarrow>
      (case (internal (pm_temporary_path p),
             case pm_backup_path p of None \<Rightarrow> Inr None | Some b \<Rightarrow> and_then (internal b) (\<lambda>k. Inr (Some k))) of
        (Inr temporary, Inr backup) \<Rightarrow>
          if digest_file sha256 (ws_fs w) target = Some (pm_sha256 p) then
            recover_installed x io now p target temporary backup w
          else if symlink_metadata (ws_fs w) target \<noteq> None then
            Some (on_workspace w (recover_untouched sha256 p target temporary backup w))
          else Some (on_workspace w (recover_removed sha256 p target temporary backup w))
      | (Inl e, _) \<Rightarrow> Some (w, Inl e)
      | (_, Inl e) \<Rightarrow> Some (w, Inl e)))"

text \<open>The intents in the order of their file names; the first one that cannot be recovered stops
  the startup of the server.  Each intent has its own clock reading and log outcome.\<close>

fun recover_entries ::
    "session_codec \<Rightarrow> (uuid \<Rightarrow> append_io \<times> u64) \<Rightarrow> (uuid \<times> pending_file_mutation) list \<Rightarrow> workspace
       \<Rightarrow> (workspace \<times> (file_error + unit)) option" where
  "recover_entries x io [] w = Some (w, Inr ())"
| "recover_entries x io ((stem, p) # entries) w =
     (case recover_pending_file_mutation x (fst (io stem)) (snd (io stem)) stem p w of
        None \<Rightarrow> None
      | Some (w, Inl e) \<Rightarrow> Some (w, Inl e)
      | Some (w, Inr _) \<Rightarrow> recover_entries x io entries w)"

definition recover_pending_file_mutations ::
    "session_codec \<Rightarrow> (uuid \<Rightarrow> append_io \<times> u64) \<Rightarrow> workspace \<Rightarrow> (workspace \<times> (file_error + unit)) option" where
  "recover_pending_file_mutations x io w =
     (if se_disk (ws_session w) = None then Some (w, Inr ())
      else recover_entries x io (sorted_list_of_fmap (ws_intents w)) w)"

section \<open>Storing and patching a file\<close>

definition prepare_file_upload ::
    "(bytes \<Rightarrow> string) \<Rightarrow> bool \<Rightarrow> string \<Rightarrow> string \<Rightarrow> bytes \<Rightarrow> workspace
       \<Rightarrow> workspace \<times> (file_error + (path_key \<times> path_key \<times> string))" where
  "prepare_file_upload sha256 write_ok tmp_ext path data w =
     (if FILE_MAX_BYTES < length data then (w, Inl FileTooLarge)
      else case resolve_write_path (ws_fs w) (se_root (ws_session w)) (canonical_root w) path of
        Inl e \<Rightarrow> (w, Inl (BadPath e))
      | Inr resolved \<Rightarrow>
      (case create_dir_all (ws_fs w) (butlast resolved) of
        None \<Rightarrow> (w, Inl FileIo)
      | Some fs \<Rightarrow>
      let w = w\<lparr>ws_fs := fs\<rparr>; temporary = with_extension resolved tmp_ext in
      (case locate fs temporary of
        None \<Rightarrow> (w, Inl FileIo)
      | Some k \<Rightarrow>
          if fmlookup fs k \<noteq> None then (w, Inl FileIo)
          else if \<not> write_ok then (w\<lparr>ws_fs := fmupd k (FileNode []) fs\<rparr>, Inl FileIo)
          else (w\<lparr>ws_fs := fmupd k (FileNode data) fs\<rparr>, Inr (resolved, temporary, sha256 data)))))"

record store_env =
  ve_tmp_ext :: string
  ve_write_ok :: bool
  ve_headroom_before :: bool
  ve_headroom_after :: bool
  ve_tx :: tx_env

text \<open>The temporary file is removed by its guard unless the mutation succeeded.\<close>

definition store_file_global ::
    "session_codec \<Rightarrow> store_env \<Rightarrow> uuid \<Rightarrow> string \<Rightarrow> string \<Rightarrow> bytes \<Rightarrow> string option \<Rightarrow> bool \<Rightarrow> workspace
       \<Rightarrow> (workspace \<times> tx_outcome) option" where
  "store_file_global x env request_id request_hash path data expected_sha256 allow_blind w =
     (case cached_file_response (ws_session w) request_id request_hash of
        Inl e \<Rightarrow> Some (w, TxFailed e)
      | Inr (Some cached) \<Rightarrow> Some (w, TxDone cached)
      | Inr None \<Rightarrow>
      if \<not> ve_headroom_before env then Some (w, TxFailed StorageHeadroom)
      else case prepare_file_upload (lc_sha256 (sx_log x)) (ve_write_ok env) (ve_tmp_ext env) path data w of
        (w, Inl e) \<Rightarrow> Some (w, TxFailed e)
      | (w, Inr (resolved, temporary, digest)) \<Rightarrow>
      if \<not> ve_headroom_after env
      then Some (w\<lparr>ws_fs := remove_if_exists (ws_fs w) temporary\<rparr>, TxFailed StorageHeadroom)
      else map_option (\<lambda>(w, r). case r of
             TxFailed e \<Rightarrow> (w\<lparr>ws_fs := remove_if_exists (ws_fs w) temporary\<rparr>, r)
           | _ \<Rightarrow> (w, r))
        (commit_file_transaction x (ve_tx env) request_id request_hash path resolved temporary digest
           expected_sha256 allow_blind False w))"

definition read_bounded_file :: "file_system \<Rightarrow> path_key \<Rightarrow> file_error + bytes" where
  "read_bounded_file fs p =
     (case symlink_metadata fs p of
        Some (FileNode data) \<Rightarrow> if FILE_MAX_BYTES < length data then Inl FileTooLarge else Inr data
      | _ \<Rightarrow> Inl FileIo)"

text \<open>The part the two patch requests share: the base must have the expected digest, the new
  content is computed from it, and the store rechecks the digest.\<close>

definition patch_file ::
    "session_codec \<Rightarrow> store_env \<Rightarrow> uuid \<Rightarrow> string \<Rightarrow> string \<Rightarrow> string \<Rightarrow> (bytes \<Rightarrow> patch_error + bytes) \<Rightarrow> workspace
       \<Rightarrow> (workspace \<times> tx_outcome) option" where
  "patch_file x env request_id request_hash path expected_sha256 materialize w =
     (if \<not> valid_sha256 expected_sha256 then Some (w, TxFailed InvalidSha256)
      else case cached_file_response (ws_session w) request_id request_hash of
        Inl e \<Rightarrow> Some (w, TxFailed e)
      | Inr (Some cached) \<Rightarrow> Some (w, TxDone cached)
      | Inr None \<Rightarrow>
      (case and_then (map_err BadPath
              (resolve_existing_path (ws_fs w) (se_root (ws_session w)) (canonical_root w) path))
              (read_bounded_file (ws_fs w)) of
        Inl e \<Rightarrow> Some (w, TxFailed e)
      | Inr old \<Rightarrow>
      if lc_sha256 (sx_log x) old \<noteq> expected_sha256 then Some (w, TxFailed VersionConflict)
      else (case materialize old of
        Inl e \<Rightarrow> Some (w, TxFailed (BadPatch e))
      | Inr data \<Rightarrow>
          store_file_global x env request_id request_hash path data (Some expected_sha256) False w)))"

definition apply_file_patch_ranges ::
    "session_codec \<Rightarrow> store_env \<Rightarrow> uuid \<Rightarrow> string \<Rightarrow> string \<Rightarrow> string \<Rightarrow> file_patch_range list \<Rightarrow> workspace
       \<Rightarrow> (workspace \<times> tx_outcome) option" where
  "apply_file_patch_ranges x env request_id request_hash path expected_sha256 ranges w =
     patch_file x env request_id request_hash path expected_sha256
       (\<lambda>old. materialize_file_patch_ranges old ranges) w"

definition handle_file_patch ::
    "session_codec \<Rightarrow> store_env \<Rightarrow> uuid \<Rightarrow> string \<Rightarrow> string \<Rightarrow> string \<Rightarrow> u64 \<Rightarrow> u64 \<Rightarrow> bytes \<Rightarrow> workspace
       \<Rightarrow> (workspace \<times> tx_outcome) option" where
  "handle_file_patch x env request_id request_hash path expected_sha256 prefix_len suffix_len replacement w =
     patch_file x env request_id request_hash path expected_sha256
       (\<lambda>old. materialize_file_patch old prefix_len suffix_len replacement) w"

end
