(* ===== verification/Transaction_Safety.thy ===== *)
theory Transaction_Safety
  imports File_Transaction Session_Safety
begin

text \<open>
  What the intent record buys: a guarded or creating mutation that dies at any step is
  finished or undone by the next startup; one that fails leaves the workspace as it was.
  Blind overwrites and the rollback of a creation fall outside, as the last part shows.
\<close>

section \<open>Three siblings in a directory\<close>

lemma realpath_dirs:
  "dirs_only fs (cur @ ws) \<Longrightarrow> realpath fs links cur (map Normal ws) = Some (cur @ ws)"
proof (induction ws arbitrary: cur)
  case (Cons w ws)
  then have "fmlookup fs (cur @ [w]) = Some DirNode" by (auto simp: dirs_only_def)
  then show ?case using Cons.IH [of "cur @ [w]"] Cons.prems by simp
qed simp

lemma canonicalize_dirs: "dirs_only fs d \<Longrightarrow> canonicalize fs d = Some d"
  using realpath_dirs [of fs "[]" d] by (simp add: canonicalize_def)

lemma realpath_append:
  "dirs_only fs (cur @ ws) \<Longrightarrow> realpath fs links cur (map Normal ws @ todo) = realpath fs links (cur @ ws) todo"
proof (induction ws arbitrary: cur)
  case (Cons w ws)
  then have "fmlookup fs (cur @ [w]) = Some DirNode" by (auto simp: dirs_only_def)
  then show ?case using Cons.IH [of "cur @ [w]"] Cons.prems by simp
qed simp

lemma canonicalize_in:
  assumes "dirs_only fs d"
  shows "fmlookup fs (d @ [w]) = None \<Longrightarrow> canonicalize fs (d @ [w]) = None"
    "fmlookup fs (d @ [w]) = Some (FileNode data) \<Longrightarrow> canonicalize fs (d @ [w]) = Some (d @ [w])"
  using realpath_append [of fs "[]" d] assms by (simp_all add: canonicalize_def)

lemma dirs_only_prefix: "dirs_only fs d \<Longrightarrow> prefix p d \<Longrightarrow> dirs_only fs p"
  by (auto simp: dirs_only_def intro: prefix_order.trans)

lemma locate_in: "dirs_only fs d \<Longrightarrow> locate fs (d @ [w]) = Some (d @ [w])"
  by (simp add: locate_def canonicalize_dirs)

lemma symlink_metadata_in: "dirs_only fs d \<Longrightarrow> symlink_metadata fs (d @ [w]) = fmlookup fs (d @ [w])"
  by (simp add: symlink_metadata_def canonicalize_dirs)

definition put :: "path_key \<Rightarrow> fs_node option \<Rightarrow> file_system \<Rightarrow> file_system" where
  "put k n fs = (case n of None \<Rightarrow> fmdrop k fs | Some n \<Rightarrow> fmupd k n fs)"

lemma put_lookup [simp]: "fmlookup (put k n fs) k' = (if k' = k then n else fmlookup fs k')"
  by (cases n) (auto simp: put_def)

lemma put_put: "put k m (put k n fs) = put k m fs"
  by (rule fmap_ext) simp

lemma put_commute: "k \<noteq> k' \<Longrightarrow> put k m (put k' n fs) = put k' n (put k m fs)"
  by (rule fmap_ext) simp

lemma put_same: "fmlookup fs k = n \<Longrightarrow> put k n fs = fs"
  by (rule fmap_ext) simp

lemma upd_drop_put: "fmupd k n fs = put k (Some n) fs" "fmdrop k fs = put k None fs"
  by (simp_all add: put_def)

lemma dirs_only_put [simp]: "dirs_only (put (d @ [w]) n fs) d = dirs_only fs d"
proof -
  have "q \<noteq> d @ [w]" if "prefix q d" for q
    using that prefix_length_le by fastforce
  then show ?thesis by (auto simp: dirs_only_def)
qed

text \<open>The target, the temporary and the backup of a mutation in the directory \<open>d\<close>.\<close>

definition siblings ::
    "file_system \<Rightarrow> path_key \<Rightarrow> string \<Rightarrow> string \<Rightarrow> string \<Rightarrow> fs_node option \<Rightarrow> fs_node option \<Rightarrow> fs_node option
       \<Rightarrow> file_system" where
  "siblings fs d t u v a b c = put (d @ [t]) a (put (d @ [u]) b (put (d @ [v]) c fs))"

lemma siblings_dirs [simp]: "dirs_only (siblings fs d t u v a b c) d = dirs_only fs d"
  by (simp add: siblings_def)

lemma siblings_lookup:
  assumes "distinct [t, u, v]"
  shows "fmlookup (siblings fs d t u v a b c) (d @ [t]) = a"
    "fmlookup (siblings fs d t u v a b c) (d @ [u]) = b"
    "fmlookup (siblings fs d t u v a b c) (d @ [v]) = c"
  using assms by (auto simp: siblings_def)

lemma siblings_put:
  assumes "distinct [t, u, v]"
  shows "put (d @ [t]) x (siblings fs d t u v a b c) = siblings fs d t u v x b c"
    "put (d @ [u]) x (siblings fs d t u v a b c) = siblings fs d t u v a x c"
    "put (d @ [v]) x (siblings fs d t u v a b c) = siblings fs d t u v a b x"
  using assms by (auto simp: siblings_def intro!: fmap_ext)

lemma siblings_refl: "siblings fs d t u v (fmlookup fs (d @ [t])) (fmlookup fs (d @ [u])) (fmlookup fs (d @ [v])) = fs"
  by (rule fmap_ext) (simp add: siblings_def)

named_theorems sibling_simps \<open>file operations on the three siblings\<close>

lemma siblings_ops [sibling_simps]:
  assumes "dirs_only fs d" "distinct [t, u, v]"
  shows "symlink_metadata (siblings fs d t u v a b c) (d @ [t]) = a"
    "symlink_metadata (siblings fs d t u v a b c) (d @ [u]) = b"
    "symlink_metadata (siblings fs d t u v a b c) (d @ [v]) = c"
    "rename_file (siblings fs d t u v a (Some (FileNode n)) c) (d @ [u]) (d @ [t]) =
       (if a = Some DirNode then None else Some (siblings fs d t u v (Some (FileNode n)) None c))"
    "rename_file (siblings fs d t u v a None c) (d @ [u]) (d @ [t]) = None"
    "rename_file (siblings fs d t u v (Some (FileNode n)) b None) (d @ [t]) (d @ [v]) =
       Some (siblings fs d t u v None b (Some (FileNode n)))"
    "rename_file (siblings fs d t u v None b (Some (FileNode n))) (d @ [v]) (d @ [t]) =
       Some (siblings fs d t u v (Some (FileNode n)) b None)"
    "remove_file (siblings fs d t u v (Some (FileNode n)) b c) (d @ [t]) = Some (siblings fs d t u v None b c)"
    "remove_file (siblings fs d t u v a (Some (FileNode n)) c) (d @ [u]) = Some (siblings fs d t u v a None c)"
    "remove_file (siblings fs d t u v a b (Some (FileNode n))) (d @ [v]) = Some (siblings fs d t u v a b None)"
    "remove_file (siblings fs d t u v a None c) (d @ [u]) = None"
    "remove_file (siblings fs d t u v a b None) (d @ [v]) = None"
  using assms siblings_lookup [OF assms(2)] siblings_put [OF assms(2)]
  by (auto simp: symlink_metadata_in rename_file_def remove_file_def locate_in upd_drop_put)

section \<open>Resolving the recorded paths\<close>

definition plain :: "fs_node option \<Rightarrow> bool" where
  "plain n \<longleftrightarrow> (case n of None \<Rightarrow> True | Some (FileNode _) \<Rightarrow> True | _ \<Rightarrow> False)"

lemma plain_simps [simp]: "plain None" "plain (Some (FileNode data))"
  by (simp_all add: plain_def)

lemma check_ancestor_in:
  assumes "dirs_only fs d" "prefix root d" "plain (fmlookup fs (d @ [w]))"
  shows "check_ancestor fs root (d @ [w]) = Inr (d @ [w])"
proof (cases "fmlookup fs (d @ [w])")
  case None
  have "existing_ancestor fs d = Some d"
    using canonicalize_dirs [OF assms(1)] by (subst existing_ancestor.simps) (simp add: path_exists_def)
  then have "existing_ancestor fs (d @ [w]) = Some d"
    using canonicalize_in(1) [OF assms(1) None] by (subst existing_ancestor.simps) (simp add: path_exists_def)
  then show ?thesis using canonicalize_dirs [OF assms(1)] assms(2) by (simp add: check_ancestor_def)
next
  case (Some n)
  then obtain data where "fmlookup fs (d @ [w]) = Some (FileNode data)"
    using assms(3) by (cases n) (auto simp: plain_def)
  then have "canonicalize fs (d @ [w]) = Some (d @ [w])" using canonicalize_in(2) [OF assms(1)] by blast
  then show ?thesis
    using assms(2)
    by (subst check_ancestor_def, subst existing_ancestor.simps) (simp add: path_exists_def prefix_prefix)
qed

lemma resolve_internal_in:
  assumes "dirs_only fs d" "prefix root d" "plain (fmlookup fs (d @ [w]))"
    and "\<forall>n \<in> set (drop (length root) d @ [w]). valid_name n"
    and "\<not> bad_length_or_nul (join_slash (drop (length root) d @ [w]))"
  shows "resolve_internal_path fs root root (join_slash (drop (length root) d @ [w])) = Inr (d @ [w])"
proof -
  let ?names = "drop (length root) d @ [w]"
  have d: "root @ drop (length root) d = d" using assms(2) by (auto simp: prefix_def)
  have "\<not> list_ex escapes (map Normal ?names)" by (auto simp: list_ex_iff escapes_def)
  moreover have "reject_symlink fs (d @ [w]) = Inr ()"
    using assms(1,3) by (auto simp: reject_symlink_def symlink_metadata_in plain_def split: option.splits fs_node.splits)
  ultimately show ?thesis
    using join_components [OF assms(4)] path_names_join [OF assms(4)] check_ancestor_in [OF assms(1-3)] assms(5) d
    by (simp add: resolve_internal_path_def del: append_assoc) (simp flip: append_assoc)
qed

lemma canonical_root_in: "dirs_only (ws_fs w) d \<Longrightarrow> prefix (se_root (ws_session w)) d
    \<Longrightarrow> canonical_root w = se_root (ws_session w)"
  using canonicalize_dirs [OF dirs_only_prefix] by (simp add: canonical_root_def Let_def)

section \<open>What an append leaves alone\<close>

lemma publish_frame [simp]:
  "se_root (publish_file_version kind s) = se_root s" "se_disk (publish_file_version kind s) = se_disk s"
  "se_file_requests (publish_file_version kind s) = se_file_requests s"
  by (simp_all add: publish_file_version_def Let_def split: event_kind.splits option.splits)

lemma after_commit_keeps [simp]:
  "se_root (after_commit e s) = se_root s" "se_disk (after_commit e s) = se_disk s"
  "se_file_requests (after_commit e s) = se_file_requests s"
  by (simp_all add: after_commit_def Let_def release_process_slot_def split: event_kind.splits)

lemma append_locked_frame:
  assumes "append_locked x io now kind s = Some (s', r)"
  shows "se_root s' = se_root s \<and> se_file_requests s' = se_file_requests s
    \<and> (se_disk s' = None \<longleftrightarrow> se_disk s = None)
    \<and> (\<forall>e. r = Inl e \<longrightarrow> se_file_versions s' = se_file_versions s)"
proof -
  obtain j e where j: "journal_append now kind (se_journal s) = (j, e)" by force
  obtain dk q where p: "persist_event (sx_log x) io e (se_disk s) = (dk, q)" by force
  then have dk: "dk = None \<longleftrightarrow> se_disk s = None"
    by (auto simp: persist_event_def split: option.splits prod.splits)
  show ?thesis
    using assms dk unfolding append_locked_def Let_def j prod.case p by (cases q) auto
qed

text \<open>The session before and after: unchanged in what concerns the mutation, or holding its record.\<close>

definition live :: "session_codec \<Rightarrow> session \<Rightarrow> bool" where
  "live x s \<longleftrightarrow> j_next_id (se_journal s) < u64_max \<and> (\<exists>dk log. session_log x s dk log)"

definition recorded :: "uuid \<Rightarrow> file_request \<Rightarrow> session \<Rightarrow> session \<Rightarrow> bool \<Rightarrow> bool" where
  "recorded rid q s s' committed \<longleftrightarrow> se_root s' = se_root s \<and> (se_disk s' = None \<longleftrightarrow> se_disk s = None)
     \<and> se_file_requests s' = (if committed then fmupd rid q (se_file_requests s) else se_file_requests s)
     \<and> (\<not> committed \<longrightarrow> se_file_versions s' = se_file_versions s)"

lemma live_disk: "live x s \<Longrightarrow> se_disk s \<noteq> None"
  by (auto simp: live_def session_log_def)

lemma record_mutation_result:
  assumes "session_lawful x" "live x s" "storable_kind (FileMutation rid rhash path version digest)"
  obtains (failed) s' e where "record_mutation x io now rid rhash path version digest k s
      = Some (s', Inl (EventNotAppended e))" "live x s'" "\<And>q. recorded rid q s s' False"
    | (appended) s' where "record_mutation x io now rid rhash path version digest k s = Some (s', Inr ())"
      "recorded rid \<lparr>fq_request_hash = rhash, fq_path = path, fq_version = version, fq_sha256 = digest\<rparr> s s' True"
proof -
  obtain dk log where log: "session_log x s dk log" "j_next_id (se_journal s) < u64_max"
    using assms(2) by (auto simp: live_def)
  from append_locked_log [OF assms(1) log(1) assms(3) log(2), of io now]
  obtain s1 d1 r where a: "append_locked x io now (FileMutation rid rhash path version digest) s = Some (s1, r)"
      "dk_snapshot_boundary d1 = dk_snapshot_boundary dk"
      "(\<exists>err. r = Inl (LogFailure err)) \<and> session_log x s1 d1 log \<or> (\<exists>e. r = Inr e)"
    by blast
  note f = append_locked_frame [OF a(1)]
  from a(3) show ?thesis
  proof
    assume h: "(\<exists>err. r = Inl (LogFailure err)) \<and> session_log x s1 d1 log"
    then have "j_next_id (se_journal s1) = j_next_id (se_journal s)"
      using log(1) a(2) by (auto simp: session_log_def)
    then have "live x s1" using h log(2) by (auto simp: live_def)
    then show ?thesis
      using h f failed a(1) by (auto simp: record_mutation_def recorded_def)
  next
    assume "\<exists>e. r = Inr e"
    then show ?thesis
      using f a(1) by (intro appended [of "file_mutation rid rhash path version digest k s1"])
        (auto simp: record_mutation_def recorded_def file_mutation_def)
  qed
qed

section \<open>One mutation\<close>

text \<open>A mutation of \<open>mu_dir/mu_target\<close> from the content \<open>mu_old\<close> (none for a new file) to
  \<open>mu_new\<close>, in the workspace it starts from.\<close>

record mutation =
  mu_codec :: session_codec
  mu_id :: uuid
  mu_hash :: string
  mu_path :: string
  mu_dir :: path_key
  mu_target :: string
  mu_temp :: string
  mu_backup :: string
  mu_old :: "bytes option"
  mu_new :: bytes
  mu_fs :: file_system
  mu_session :: session

abbreviation mu_sha :: "mutation \<Rightarrow> bytes \<Rightarrow> string" where
  "mu_sha m \<equiv> lc_sha256 (sx_log (mu_codec m))"

abbreviation mu_digest :: "mutation \<Rightarrow> string" where
  "mu_digest m \<equiv> mu_sha m (mu_new m)"

abbreviation mu_resolved :: "mutation \<Rightarrow> path_key" where
  "mu_resolved m \<equiv> mu_dir m @ [mu_target m]"

definition mu_version :: "mutation \<Rightarrow> u64" where
  "mu_version m = (case fmlookup (se_file_versions (mu_session m)) (mu_resolved m) of None \<Rightarrow> 0 | Some v \<Rightarrow> v) + 1"

definition mu_relative :: "mutation \<Rightarrow> string \<Rightarrow> string" where
  "mu_relative m w = join_slash (drop (length (se_root (mu_session m))) (mu_dir m) @ [w])"

definition mu_pending :: "mutation \<Rightarrow> pending_file_mutation" where
  "mu_pending m = \<lparr>pm_request_id = mu_id m, pm_request_hash = mu_hash m, pm_path = mu_path m,
     pm_version = mu_version m, pm_sha256 = mu_digest m, pm_temporary_path = mu_relative m (mu_temp m),
     pm_backup_path = map_option (\<lambda>_. mu_relative m (mu_backup m)) (mu_old m),
     pm_previous_sha256 = map_option (mu_sha m) (mu_old m)\<rparr>"

definition mu_request :: "mutation \<Rightarrow> file_request" where
  "mu_request m = \<lparr>fq_request_hash = mu_hash m, fq_path = mu_path m, fq_version = mu_version m,
     fq_sha256 = mu_digest m\<rparr>"

definition mu_files :: "mutation \<Rightarrow> bytes option \<Rightarrow> bytes option \<Rightarrow> bytes option \<Rightarrow> file_system" where
  "mu_files m a b c = siblings (mu_fs m) (mu_dir m) (mu_target m) (mu_temp m) (mu_backup m)
     (map_option FileNode a) (map_option FileNode b) (map_option FileNode c)"

definition ready :: "mutation \<Rightarrow> bool" where
  "ready m \<longleftrightarrow> session_lawful (mu_codec m) \<and> live (mu_codec m) (mu_session m)
     \<and> storable_kind (FileMutation (mu_id m) (mu_hash m) (mu_path m) (mu_version m) (mu_digest m))
     \<and> (\<forall>data. valid_sha256 (mu_sha m data)) \<and> mu_version m \<le> u64_max
     \<and> mu_hash m \<noteq> [] \<and> fmlookup (se_file_requests (mu_session m)) (mu_id m) = None
     \<and> prefix (se_root (mu_session m)) (mu_dir m) \<and> dirs_only (mu_fs m) (mu_dir m)
     \<and> resolve_path (se_root (mu_session m)) (mu_path m) = Inr (mu_resolved m)
     \<and> distinct [mu_target m, mu_temp m, mu_backup m]
     \<and> (\<forall>n \<in> set (drop (length (se_root (mu_session m))) (mu_dir m) @ [mu_temp m, mu_backup m]). valid_name n)
     \<and> \<not> bad_length_or_nul (mu_relative m (mu_temp m)) \<and> \<not> bad_length_or_nul (mu_relative m (mu_backup m))
     \<and> mu_fs m = mu_files m (mu_old m) (Some (mu_new m)) None
     \<and> (case mu_old m of None \<Rightarrow> True | Some old \<Rightarrow> length old \<le> STREAM_FILE_MAX_BYTES)"

lemma readyD:
  assumes "ready m"
  shows "session_lawful (mu_codec m)" "live (mu_codec m) (mu_session m)"
    "storable_kind (FileMutation (mu_id m) (mu_hash m) (mu_path m) (mu_version m) (mu_digest m))"
    "\<And>data. valid_sha256 (mu_sha m data)" "mu_version m \<le> u64_max" "mu_hash m \<noteq> []"
    "fmlookup (se_file_requests (mu_session m)) (mu_id m) = None"
    "prefix (se_root (mu_session m)) (mu_dir m)" "dirs_only (mu_fs m) (mu_dir m)"
    "resolve_path (se_root (mu_session m)) (mu_path m) = Inr (mu_resolved m)"
    "distinct [mu_target m, mu_temp m, mu_backup m]"
    "\<forall>n \<in> set (drop (length (se_root (mu_session m))) (mu_dir m) @ [mu_temp m, mu_backup m]). valid_name n"
    "\<not> bad_length_or_nul (mu_relative m (mu_temp m))" "\<not> bad_length_or_nul (mu_relative m (mu_backup m))"
    "mu_fs m = mu_files m (mu_old m) (Some (mu_new m)) None"
    "mu_old m = Some old \<Longrightarrow> length old \<le> STREAM_FILE_MAX_BYTES"
  using assms unfolding ready_def by (blast, blast, blast, blast, blast, blast, blast, blast, blast, blast,
    blast, blast, blast, blast, blast, force)

text \<open>The workspace with these contents of target, temporary and backup, with or without the record
  of the mutation, with or without its intent.\<close>

definition holding ::
    "mutation \<Rightarrow> workspace \<Rightarrow> bytes option \<Rightarrow> bytes option \<Rightarrow> bytes option \<Rightarrow> bool \<Rightarrow> bool \<Rightarrow> bool" where
  "holding m w a b c committed intent \<longleftrightarrow> ws_fs w = mu_files m a b c
     \<and> ws_intents w = (if intent then fmupd (mu_id m) (mu_pending m) fmempty else fmempty)
     \<and> recorded (mu_id m) (mu_request m) (mu_session m) (ws_session w) committed
     \<and> (\<not> committed \<longrightarrow> live (mu_codec m) (ws_session w))"

definition leaves :: "mutation \<Rightarrow> (bytes option \<times> bytes option \<times> bytes option \<times> bool) set" where
  "leaves m = {(mu_old m, Some (mu_new m), None, False), (None, Some (mu_new m), mu_old m, False),
     (Some (mu_new m), None, mu_old m, False), (Some (mu_new m), None, mu_old m, True),
     (Some (mu_new m), None, None, True), (None, None, mu_old m, False), (mu_old m, None, None, False)}"

definition in_undo :: "tx_env \<Rightarrow> bool" where
  "in_undo env \<longleftrightarrow> (case te_crash env of
     Some UndoTargetRemoved \<Rightarrow> True | Some UndoBackupRestored \<Rightarrow> True | Some UndoTemporaryRemoved \<Rightarrow> True | _ \<Rightarrow> False)"

definition ended :: "mutation \<Rightarrow> tx_env \<Rightarrow> workspace \<times> tx_outcome \<Rightarrow> bool" where
  "ended m env = (\<lambda>(w, r). \<exists>a b c committed intent. (a, b, c, committed) \<in> leaves m
     \<and> holding m w a b c committed intent
     \<and> (case r of
          TxDied \<Rightarrow> intent \<and> ((a, b, c) = (None, None, None) \<longrightarrow> in_undo env) \<and> te_crash env \<noteq> None
        | TxDone q \<Rightarrow> committed \<and> a = Some (mu_new m)
            \<and> q = RespFileStored (mu_path m) (mu_version m) (mu_digest m)
        | TxFailed e \<Rightarrow> \<not> committed \<and> (te_undo_ok env \<longrightarrow> a = mu_old m \<and> c = None \<and> \<not> intent)))"

lemma mu_files_ops [sibling_simps]:
  assumes "ready m"
  shows "symlink_metadata (mu_files m a b c) (mu_resolved m) = map_option FileNode a"
    "symlink_metadata (mu_files m a b c) (mu_dir m @ [mu_temp m]) = map_option FileNode b"
    "symlink_metadata (mu_files m a b c) (mu_dir m @ [mu_backup m]) = map_option FileNode c"
    "rename_file (mu_files m a (Some n) c) (mu_dir m @ [mu_temp m]) (mu_resolved m) = Some (mu_files m (Some n) None c)"
    "rename_file (mu_files m (Some n) b None) (mu_resolved m) (mu_dir m @ [mu_backup m]) = Some (mu_files m None b (Some n))"
    "rename_file (mu_files m None b (Some n)) (mu_dir m @ [mu_backup m]) (mu_resolved m) = Some (mu_files m (Some n) b None)"
    "remove_file (mu_files m (Some n) b c) (mu_resolved m) = Some (mu_files m None b c)"
    "remove_file (mu_files m a (Some n) c) (mu_dir m @ [mu_temp m]) = Some (mu_files m a None c)"
    "remove_if_exists (mu_files m a b c) (mu_dir m @ [mu_temp m]) = mu_files m a None c"
    "remove_if_exists (mu_files m a b c) (mu_dir m @ [mu_backup m]) = mu_files m a b None"
proof -
  note o = siblings_ops [OF readyD(9,11) [OF assms]]
  show "symlink_metadata (mu_files m a b c) (mu_resolved m) = map_option FileNode a"
    "symlink_metadata (mu_files m a b c) (mu_dir m @ [mu_temp m]) = map_option FileNode b"
    "symlink_metadata (mu_files m a b c) (mu_dir m @ [mu_backup m]) = map_option FileNode c"
    "rename_file (mu_files m a (Some n) c) (mu_dir m @ [mu_temp m]) (mu_resolved m) = Some (mu_files m (Some n) None c)"
    "rename_file (mu_files m (Some n) b None) (mu_resolved m) (mu_dir m @ [mu_backup m]) = Some (mu_files m None b (Some n))"
    "rename_file (mu_files m None b (Some n)) (mu_dir m @ [mu_backup m]) (mu_resolved m) = Some (mu_files m (Some n) b None)"
    "remove_file (mu_files m (Some n) b c) (mu_resolved m) = Some (mu_files m None b c)"
    "remove_file (mu_files m a (Some n) c) (mu_dir m @ [mu_temp m]) = Some (mu_files m a None c)"
    using o by (auto simp: mu_files_def)
  show "remove_if_exists (mu_files m a b c) (mu_dir m @ [mu_temp m]) = mu_files m a None c"
    using o by (cases b) (auto simp: mu_files_def remove_if_exists_def)
  show "remove_if_exists (mu_files m a b c) (mu_dir m @ [mu_backup m]) = mu_files m a b None"
    using o by (cases c) (auto simp: mu_files_def remove_if_exists_def)
qed

lemma holding_files: "holding m w a b c committed intent \<Longrightarrow> ws_fs w = mu_files m a b c"
  by (simp add: holding_def)

lemma fmdrop_single: "fmdrop k (fmupd k v fmempty) = fmempty" "fmdrop k fmempty = fmempty"
  by (rule fmap_ext, simp)+

lemma holding_clear:
  "holding m w a b c committed True \<Longrightarrow> holding m (clear_intent (mu_id m) w) a b c committed False"
  "holding m w a b c committed False \<Longrightarrow> holding m (clear_intent (mu_id m) w) a b c committed False"
  by (simp_all add: holding_def clear_intent_def fmdrop_single)

lemma holding_move: "holding m w a b c committed intent \<Longrightarrow>
    holding m (w\<lparr>ws_fs := mu_files m a' b' c'\<rparr>) a' b' c' committed intent"
  by (simp add: holding_def)

text \<open>Rolling back from any state before the event.\<close>

lemma rollback_ended:
  assumes "ready m" "holding m w a b c False True"
    and "(a, b, c) \<in> {(None, Some (mu_new m), mu_old m), (Some (mu_new m), None, mu_old m)}"
  shows "ended m env (rollback_file_transaction (mu_sha m) env (mu_id m) True (mu_resolved m)
    (mu_dir m @ [mu_temp m]) (map_option (\<lambda>_. mu_dir m @ [mu_backup m]) (mu_old m)) (mu_digest m) e w)"
proof -
  note f = mu_files_ops [OF assms(1)] holding_files
  obtain w1 where 1: "undo_target (mu_sha m) (mu_resolved m) (mu_digest m) w = Inr w1"
      "holding m w1 None b c False True"
    using assms(2,3) holding_move [OF assms(2)] by (auto simp: undo_target_def f)
  obtain w2 where 2: "undo_backup (mu_resolved m) (map_option (\<lambda>_. mu_dir m @ [mu_backup m]) (mu_old m)) w1 = Inr w2"
      "holding m w2 (mu_old m) b None False True"
    using assms(3) 1(2) holding_move [OF 1(2)] by (cases "mu_old m") (auto simp: undo_backup_def f)
  obtain w3 where 3: "undo_temporary (mu_dir m @ [mu_temp m]) w2 = Inr w3"
      "holding m w3 (mu_old m) None None False True"
    using 2(2) holding_move [OF 2(2)] assms(3) by (cases b) (auto simp: undo_temporary_def f)
  have ab: "(None, b, c, False) \<in> leaves m" "(mu_old m, b, None, False) \<in> leaves m"
    "(mu_old m, None, None, False) \<in> leaves m"
    using assms(3) by (auto simp: leaves_def)
  have died: "ended m env (w', TxDied)" if "in_undo env" "(a', b', c', False) \<in> leaves m"
      "holding m w' a' b' c' False True" for w' a' b' c'
    using that by (force simp: ended_def in_undo_def split: option.splits)
  have failed: "ended m env (w', TxFailed e)" if "(mu_old m, None, None, False) \<in> leaves m"
      "holding m w' (mu_old m) None None False i" "te_undo_ok env \<longrightarrow> \<not> i" for w' i
    using that by (force simp: ended_def)
  show ?thesis
    unfolding rollback_file_transaction_def 1(1) 2(1) 3(1) sum.case
    using died [OF _ ab(1) 1(2)] died [OF _ ab(2) 2(2)] died [OF _ ab(3) 3(2)]
      failed [OF ab(3) 3(2)] failed [OF ab(3) holding_clear(1) [OF 3(2)]]
    by (simp add: in_undo_def)
qed

section \<open>Committing, step by step\<close>

lemma holding_record:
  assumes "ready m" "holding m w a b c False intent"
  obtains (failed) s' e where "record_mutation (mu_codec m) io now (mu_id m) (mu_hash m) (mu_path m) (mu_version m)
      (mu_digest m) (mu_resolved m) (ws_session w) = Some (s', Inl (EventNotAppended e))"
      "holding m (w\<lparr>ws_session := s'\<rparr>) a b c False intent"
    | (appended) s' where "record_mutation (mu_codec m) io now (mu_id m) (mu_hash m) (mu_path m) (mu_version m)
      (mu_digest m) (mu_resolved m) (ws_session w) = Some (s', Inr ())"
      "\<And>n. holding m (w\<lparr>ws_session := s'\<lparr>se_idempotency_records := n\<rparr>\<rparr>) a b c True intent"
      "holding m (w\<lparr>ws_session := s'\<rparr>) a b c True intent"
proof -
  have l: "live (mu_codec m) (ws_session w)" and r: "recorded (mu_id m) (mu_request m) (mu_session m) (ws_session w) False"
    using assms(2) by (simp_all add: holding_def)
  from readyD(1) [OF assms(1)] l readyD(3) [OF assms(1)] show ?thesis
  proof (cases rule: record_mutation_result [where io = io and now = now and k = "mu_resolved m"])
    case (failed s' e)
    then show ?thesis
      using that(1) assms(2) r by (auto simp: holding_def recorded_def)
  next
    case (appended s')
    then show ?thesis
      using that(2) assms(2) r by (auto simp: holding_def recorded_def mu_request_def)
  qed
qed

definition ends :: "mutation \<Rightarrow> tx_env \<Rightarrow> (workspace \<times> tx_outcome) option \<Rightarrow> bool" where
  "ends m env r \<longleftrightarrow> (case r of None \<Rightarrow> False | Some out \<Rightarrow> ended m env out)"

lemma ends_Some [simp]: "ends m env (Some out) = ended m env out" by (simp add: ends_def)

lemma ended_died:
  assumes "(a, b, c, committed) \<in> leaves m" "holding m w a b c committed True" "te_crash env \<noteq> None"
    and "a \<noteq> None \<or> b \<noteq> None \<or> c \<noteq> None"
  shows "ended m env (w, TxDied)"
  using assms by (cases a; cases b; cases c) (auto simp: ended_def intro!: exI)

lemma ended_done:
  assumes "(Some (mu_new m), b, c, True) \<in> leaves m" "holding m w (Some (mu_new m)) b c True intent"
  shows "ended m env (w, TxDone (RespFileStored (mu_path m) (mu_version m) (mu_digest m)))"
  using assms by (auto simp: ended_def)

lemma ended_failed:
  assumes "holding m w (mu_old m) b None False intent" "te_undo_ok env \<longrightarrow> \<not> intent"
    and "b = None \<or> b = Some (mu_new m)"
  shows "ended m env (w, TxFailed e)"
proof -
  have "(mu_old m, b, None, False) \<in> leaves m" using assms(3) by (auto simp: leaves_def)
  then show ?thesis using assms(1,2) by (force simp: ended_def)
qed

lemma cleanup_ended:
  assumes "ready m" "holding m w (Some (mu_new m)) None (mu_old m) True True"
  shows "ended m env (tx_cleanup env (mu_id m) True (map_option (\<lambda>_. mu_dir m @ [mu_backup m]) (mu_old m))
    (RespFileStored (mu_path m) (mu_version m) (mu_digest m)) w)"
proof -
  define w' where "w' = (case map_option (\<lambda>_. mu_dir m @ [mu_backup m]) (mu_old m) of
      Some b \<Rightarrow> if te_remove_backup_ok env then w\<lparr>ws_fs := remove_if_exists (ws_fs w) b\<rparr> else w | None \<Rightarrow> w)"
  obtain c where c: "(Some (mu_new m), None, c, True) \<in> leaves m" "holding m w' (Some (mu_new m)) None c True True"
  proof (cases "mu_old m \<noteq> None \<and> te_remove_backup_ok env")
    case True
    then have "w' = w\<lparr>ws_fs := mu_files m (Some (mu_new m)) None None\<rparr>"
      using mu_files_ops(10) [OF assms(1)] holding_files [OF assms(2)] by (auto simp: w'_def)
    then show ?thesis using that [of None] holding_move [OF assms(2)] by (simp add: leaves_def)
  next
    case False
    then have "w' = w" by (auto simp: w'_def split: option.split)
    then show ?thesis using that [of "mu_old m"] assms(2) by (simp add: leaves_def)
  qed
  show ?thesis
    unfolding tx_cleanup_def w'_def [symmetric] Let_def
    using ended_died [OF c, of env] ended_done [OF c, of env] ended_done [OF c(1) holding_clear(1) [OF c(2)], of env]
    by simp
qed

lemma install_ended:
  assumes "ready m" "holding m w None (Some (mu_new m)) (mu_old m) False True"
  shows "ends m env (install_transaction (mu_codec m) env (mu_id m) (mu_hash m) (mu_path m) (mu_resolved m)
      (mu_dir m @ [mu_temp m]) (mu_digest m) (mu_version m) (map_option (\<lambda>_. mu_dir m @ [mu_backup m]) (mu_old m))
      True w)"
proof -
  let ?N = "Some (mu_new m)"
  define w' where "w' = w\<lparr>ws_fs := mu_files m (Some (mu_new m)) None (mu_old m)\<rparr>"
  define undo where "undo = rollback_file_transaction (mu_sha m) env (mu_id m) True (mu_resolved m)
      (mu_dir m @ [mu_temp m]) (map_option (\<lambda>_. mu_dir m @ [mu_backup m]) (mu_old m)) (mu_digest m)"
  have ren: "rename_file (ws_fs w) (mu_dir m @ [mu_temp m]) (mu_resolved m) = Some (mu_files m ?N None (mu_old m))"
    using mu_files_ops(4) [OF assms(1)] holding_files [OF assms(2)] by simp
  have h: "holding m w' ?N None (mu_old m) False True" unfolding w'_def by (rule holding_move [OF assms(2)])
  have ver: "saturating_add (case fmlookup (se_file_versions (ws_session w')) (mu_resolved m) of None \<Rightarrow> 0 | Some v \<Rightarrow> v) 1
      = mu_version m"
    using h readyD(5) [OF assms(1)] by (simp add: holding_def recorded_def mu_version_def saturating_add_def)
  have undo0: "ended m env (undo e w)" for e
    unfolding undo_def by (rule rollback_ended [OF assms]) simp
  have undo1: "ended m env (undo e v)" if "holding m v ?N None (mu_old m) False True" for e v
    unfolding undo_def by (rule rollback_ended [OF assms(1) that]) simp
  have died: "ended m env (v, TxDied)" if "te_crash env \<noteq> None" "holding m v ?N None (mu_old m) committed True" for v committed
    using that by (intro ended_died [OF _ that(2)]) (auto simp: leaves_def)
  note unfolded = install_transaction_def undo_def [symmetric] ren Let_def option.case w'_def [symmetric]
  show ?thesis
    using assms(1) h
  proof (cases rule: holding_record [where io = "te_append env" and now = "te_now env"])
    case (failed s' e)
    show ?thesis
      unfolding unfolded failed(1)
      using undo0 undo1 [OF h] undo1 [OF failed(2)] died [OF _ h] ver by simp
  next
    case (appended s')
    show ?thesis
      unfolding unfolded appended(1)
      using undo0 undo1 [OF h] died [OF _ h] died [OF _ appended(3)] ver
        cleanup_ended [OF assms(1) appended(3), of env] by simp
  qed
qed

lemma backup_ended:
  assumes "ready m" "holding m w (mu_old m) (Some (mu_new m)) None False True"
  shows "ends m env (backup_and_install (mu_codec m) env (mu_id m) (mu_hash m) (mu_path m) (mu_resolved m)
      (mu_dir m @ [mu_temp m]) (mu_digest m) (mu_version m) (map_option (\<lambda>_. mu_dir m @ [mu_backup m]) (mu_old m))
      True w)"
proof (cases "mu_old m")
  case None
  then show ?thesis using install_ended [OF assms(1), of w env] assms(2) by (simp add: backup_and_install_def)
next
  case (Some old)
  let ?w = "w\<lparr>ws_fs := mu_files m None (Some (mu_new m)) (mu_old m)\<rparr>"
  have ren: "rename_file (ws_fs w) (mu_resolved m) (mu_dir m @ [mu_backup m])
      = Some (mu_files m None (Some (mu_new m)) (mu_old m))"
    using mu_files_ops(5) [OF assms(1)] holding_files [OF assms(2)] Some by simp
  have h: "holding m ?w None (Some (mu_new m)) (mu_old m) False True" by (rule holding_move [OF assms(2)])
  have "holding m ((clear_intent (mu_id m) w)\<lparr>ws_fs := remove_if_exists (ws_fs w) (mu_dir m @ [mu_temp m])\<rparr>)
      (mu_old m) None None False False"
    using holding_move [OF holding_clear(1) [OF assms(2)]] mu_files_ops(9) [OF assms(1)] holding_files [OF assms(2)]
    by simp
  then have fail: "ended m env ((clear_intent (mu_id m) w)\<lparr>ws_fs := remove_if_exists (ws_fs w) (mu_dir m @ [mu_temp m])\<rparr>,
      TxFailed FileIo)"
    by (rule ended_failed) simp_all
  have died: "ended m env (?w, TxDied)" if "te_crash env \<noteq> None"
    by (rule ended_died [OF _ h that]) (simp_all add: leaves_def)
  have undo: "ended m env (rollback_file_transaction (mu_sha m) env (mu_id m) True (mu_resolved m)
      (mu_dir m @ [mu_temp m]) (map_option (\<lambda>_. mu_dir m @ [mu_backup m]) (mu_old m)) (mu_digest m) FileIo ?w)"
    by (rule rollback_ended [OF assms(1) h]) simp
  have b: "map_option (\<lambda>_. mu_dir m @ [mu_backup m]) (mu_old m) = Some (mu_dir m @ [mu_backup m])" by (simp add: Some)
  show ?thesis
    using fail died undo install_ended [OF assms(1) h, of env]
    unfolding backup_and_install_def b option.case Let_def ren by simp
qed

lemma create_dir_all_dirs: "dirs_only fs d \<Longrightarrow> create_dir_all fs d = Some fs"
proof (subst create_dir_all.simps)
  assume h: "dirs_only fs d"
  then have "d = [] \<or> fmlookup fs d = Some DirNode" by (auto simp: dirs_only_def)
  then show "(if path_exists fs d then
        (case canonicalize fs d of
           Some k \<Rightarrow> if k = [] \<or> fmlookup fs k = Some DirNode then Some fs else None
         | None \<Rightarrow> None)
      else if d = [] then None
      else case create_dir_all fs (butlast d) of
             None \<Rightarrow> None
           | Some fs \<Rightarrow>
               (case locate fs d of
                  None \<Rightarrow> None
                | Some k \<Rightarrow> if fmlookup fs k = None then Some (fmupd k DirNode fs) else None)) = Some fs"
    using canonicalize_dirs [OF h] by (simp add: path_exists_def)
qed

definition asks :: "mutation \<Rightarrow> tx_env \<Rightarrow> string option \<Rightarrow> workspace \<Rightarrow> bool" where
  "asks m env expected w \<longleftrightarrow> holding m w (mu_old m) (Some (mu_new m)) None False False
     \<and> expected = map_option (mu_sha m) (mu_old m)
     \<and> with_extension (mu_resolved m) (te_backup_ext env) = mu_dir m @ [mu_backup m]"

lemma relative_in: "ready m \<Longrightarrow> holding m w a b c committed intent \<Longrightarrow>
    workspace_relative_path (ws_session w) (mu_dir m @ [n]) = Inr (mu_relative m n)"
  using readyD(8) [of m]
  by (auto simp: workspace_relative_path_def mu_relative_def holding_def recorded_def prefix_def)

lemma prepare_result:
  assumes "ready m" "asks m env expected w"
  shows "prepare_transaction env (mu_id m) (mu_hash m) (mu_path m) (mu_resolved m) (mu_dir m @ [mu_temp m])
      (mu_digest m) expected w =
    (if te_mode_ok env \<and> te_intent_ok env
     then (w\<lparr>ws_intents := fmupd (mu_id m) (mu_pending m) fmempty\<rparr>,
       Inr (mu_version m, map_option (\<lambda>_. mu_dir m @ [mu_backup m]) (mu_old m), True))
     else (w, Inl FileIo))"
proof -
  have h: "holding m w (mu_old m) (Some (mu_new m)) None False False" using assms(2) by (simp add: asks_def)
  then obtain dk where d: "se_disk (ws_session w) = Some dk" using live_disk by (auto simp: holding_def)
  have v: "checked_add (case fmlookup (se_file_versions (ws_session w)) (mu_resolved m) of None \<Rightarrow> 0 | Some v \<Rightarrow> v) 1
      = Some (mu_version m)"
    using h readyD(5) [OF assms(1)] by (simp add: holding_def recorded_def mu_version_def checked_add_def)
  have i: "ws_intents w = fmempty" using h by (simp add: holding_def)
  show ?thesis
    unfolding prepare_transaction_def Let_def v option.case
    using assms(2) d i relative_in [OF assms(1) h]
    by (cases "mu_old m") (simp_all add: asks_def mu_pending_def)
qed

lemma transact_unfold:
  assumes "ready m" "asks m env expected w"
  defines "w' \<equiv> w\<lparr>ws_intents := fmupd (mu_id m) (mu_pending m) fmempty\<rparr>"
  shows "transact (mu_codec m) env (mu_id m) (mu_hash m) (mu_path m) (mu_resolved m)
    (mu_dir m @ [mu_temp m]) (mu_digest m) expected allow_blind w =
    (if \<not> te_dirs_ok env then Some (w, TxFailed FileIo)
     else if \<not> (te_mode_ok env \<and> te_intent_ok env) then
       Some ((clear_intent (mu_id m) w)\<lparr>ws_fs := remove_if_exists (ws_fs w) (mu_dir m @ [mu_temp m])\<rparr>, TxFailed FileIo)
     else if te_crash env = Some AfterIntent then Some (w', TxDied)
     else backup_and_install (mu_codec m) env (mu_id m) (mu_hash m) (mu_path m) (mu_resolved m)
       (mu_dir m @ [mu_temp m]) (mu_digest m) (mu_version m) (map_option (\<lambda>_. mu_dir m @ [mu_backup m]) (mu_old m))
       True w')"
proof -
  have h: "holding m w (mu_old m) (Some (mu_new m)) None False False" using assms(2) by (simp add: asks_def)
  have dirs: "create_dir_all (ws_fs w) (butlast (mu_resolved m)) = Some (ws_fs w)"
    using create_dir_all_dirs [OF readyD(9) [OF assms(1)]] readyD(15) [OF assms(1)] holding_files [OF h] by simp
  have tmp: "symlink_metadata (ws_fs w) (mu_dir m @ [mu_temp m]) = Some (FileNode (mu_new m))"
    using mu_files_ops(2) [OF assms(1)] holding_files [OF h] by simp
  have dig: "target_digest (mu_sha m) w (mu_resolved m) expected allow_blind = Inr expected"
    using mu_files_ops(1) [OF assms(1)] holding_files [OF h] assms(2) readyD(16) [OF assms(1)]
    by (cases "mu_old m") (simp_all add: target_digest_def asks_def)
  have pre: "validate_file_precondition expected expected allow_blind = Inr ()"
    using assms(2) readyD(4) [OF assms(1)]
    by (cases "mu_old m") (simp_all add: validate_file_precondition_def asks_def)
  show ?thesis
    using dirs by (simp add: transact_def tmp dig pre prepare_result [OF assms(1,2)] Let_def w'_def)
qed

lemma transact_ends:
  assumes "ready m" "asks m env expected w"
  shows "ends m env (transact (mu_codec m) env (mu_id m) (mu_hash m) (mu_path m) (mu_resolved m)
    (mu_dir m @ [mu_temp m]) (mu_digest m) expected allow_blind w)"
proof -
  have h: "holding m w (mu_old m) (Some (mu_new m)) None False False" using assms(2) by (simp add: asks_def)
  let ?w = "w\<lparr>ws_intents := fmupd (mu_id m) (mu_pending m) fmempty\<rparr>"
  have h': "holding m ?w (mu_old m) (Some (mu_new m)) None False True" using h by (simp add: holding_def)
  have died: "ended m env (?w, TxDied)" if "te_crash env \<noteq> None"
    by (rule ended_died [OF _ h' that]) (simp_all add: leaves_def)
  have "holding m ((clear_intent (mu_id m) w)\<lparr>ws_fs := remove_if_exists (ws_fs w) (mu_dir m @ [mu_temp m])\<rparr>)
      (mu_old m) None None False False"
    using holding_move [OF holding_clear(2) [OF h]] mu_files_ops(9) [OF assms(1)] holding_files [OF h] by simp
  then have fail: "ended m env ((clear_intent (mu_id m) w)\<lparr>ws_fs := remove_if_exists (ws_fs w) (mu_dir m @ [mu_temp m])\<rparr>,
      TxFailed e)" for e
    by (rule ended_failed) simp_all
  have fail0: "ended m env (w, TxFailed e)" for e by (rule ended_failed [OF h]) simp_all
  show ?thesis
    using fail fail0 died backup_ended [OF assms(1) h', of env]
    by (simp add: transact_unfold [OF assms])
qed

lemma holding_records: "holding m w a b c committed intent \<Longrightarrow>
    holding m (w\<lparr>ws_session := (ws_session w)\<lparr>se_idempotency_records := n\<rparr>\<rparr>) a b c committed intent"
  by (simp add: holding_def recorded_def live_def session_log_def)

lemma ended_release:
  assumes "ended m env (w, r)"
  shows "ended m env (w\<lparr>ws_session := drop_reservation False (ws_session w)\<rparr>, r)"
proof -
  obtain n where n: "drop_reservation False (ws_session w) = (ws_session w)\<lparr>se_idempotency_records := n\<rparr>"
  proof (cases "0 < se_idempotency_records (ws_session w)")
    case True
    then show ?thesis using that by (simp add: drop_reservation_def release_idempotency_record_def)
  next
    case False
    then show ?thesis
      using that [of "se_idempotency_records (ws_session w)"]
      by (simp add: drop_reservation_def release_idempotency_record_def)
  qed
  show ?thesis using assms unfolding n ended_def prod.case using holding_records by blast
qed

lemma commit_ends:
  assumes "ready m" "asks m env expected w"
  shows "ends m env (commit_file_transaction (mu_codec m) env (mu_id m) (mu_hash m) (mu_path m) (mu_resolved m)
    (mu_dir m @ [mu_temp m]) (mu_digest m) expected allow_blind reservation w)"
proof -
  have h: "holding m w (mu_old m) (Some (mu_new m)) None False False" using assms(2) by (simp add: asks_def)
  have c: "cached_file_response (ws_session w) (mu_id m) (mu_hash m) = Inr None"
    using h readyD(7) [OF assms(1)] by (simp add: cached_file_response_def holding_def recorded_def)
  have fail: "ended m env (w\<lparr>ws_session := ws_session w\<rparr>, TxFailed e)" for e
    using ended_failed [OF h] by simp
  have tx: "ends m env (map_option drop_tx_reservation (transact (mu_codec m) env (mu_id m) (mu_hash m) (mu_path m)
      (mu_resolved m) (mu_dir m @ [mu_temp m]) (mu_digest m) expected allow_blind w'))"
    if "asks m env expected w'" for w'
    using transact_ends [OF assms(1) that, of allow_blind] ended_release
    by (auto simp: ends_def drop_tx_reservation_def split: option.splits tx_outcome.splits prod.splits)
  have "asks m env expected (w\<lparr>ws_session := (ws_session w)\<lparr>se_idempotency_records := n\<rparr>\<rparr>)" for n
    using assms(2) holding_records by (simp add: asks_def)
  then show ?thesis
    using tx [OF assms(2)] tx fail
    by (simp add: commit_file_transaction_def c Let_def reserve_idempotency_record_def)
qed

section \<open>Recovering, state by state\<close>

lemma mu_files_plain:
  assumes "ready m"
  shows "dirs_only (mu_files m a b c) (mu_dir m)" "plain (fmlookup (mu_files m a b c) (mu_resolved m))"
    "plain (fmlookup (mu_files m a b c) (mu_dir m @ [mu_temp m]))"
    "plain (fmlookup (mu_files m a b c) (mu_dir m @ [mu_backup m]))"
  using readyD(9) [OF assms] siblings_lookup [OF readyD(11) [OF assms], of "mu_fs m" "mu_dir m"]
  by (simp_all add: mu_files_def plain_def split: option.split)

lemma holding_paths:
  assumes "ready m" "holding m w a b c committed intent"
  shows "canonical_root w = se_root (ws_session w)"
    "resolve_write_path (ws_fs w) (se_root (ws_session w)) (se_root (ws_session w)) (mu_path m) = Inr (mu_resolved m)"
    "resolve_internal_path (ws_fs w) (se_root (ws_session w)) (se_root (ws_session w)) (mu_relative m (mu_temp m))
       = Inr (mu_dir m @ [mu_temp m])"
    "resolve_internal_path (ws_fs w) (se_root (ws_session w)) (se_root (ws_session w)) (mu_relative m (mu_backup m))
       = Inr (mu_dir m @ [mu_backup m])"
proof -
  have r: "se_root (ws_session w) = se_root (mu_session m)" and f: "ws_fs w = mu_files m a b c"
    using assms(2) by (simp_all add: holding_def recorded_def)
  note p = mu_files_plain [OF assms(1), of a b c] and d = readyD [OF assms(1)]
  show "canonical_root w = se_root (ws_session w)"
    using p(1) d(8) by (intro canonical_root_in [of w "mu_dir m"]) (simp_all add: f r)
  show "resolve_write_path (ws_fs w) (se_root (ws_session w)) (se_root (ws_session w)) (mu_path m) = Inr (mu_resolved m)"
    using check_ancestor_in [OF p(1) d(8) p(2)] d(10) by (simp add: resolve_write_path_def f r)
  show "resolve_internal_path (ws_fs w) (se_root (ws_session w)) (se_root (ws_session w)) (mu_relative m (mu_temp m))
       = Inr (mu_dir m @ [mu_temp m])"
    using d(12,13) unfolding f r mu_relative_def by (intro resolve_internal_in [OF p(1) d(8) p(3)]) auto
  show "resolve_internal_path (ws_fs w) (se_root (ws_session w)) (se_root (ws_session w)) (mu_relative m (mu_backup m))
       = Inr (mu_dir m @ [mu_backup m])"
    using d(12,14) unfolding f r mu_relative_def by (intro resolve_internal_in [OF p(1) d(8) p(4)]) auto
qed

lemma holding_digest:
  assumes "ready m" "holding m w a b c committed intent"
  shows "digest_file (mu_sha m) (ws_fs w) (mu_resolved m) = map_option (mu_sha m) a"
    "digest_file (mu_sha m) (ws_fs w) (mu_dir m @ [mu_backup m]) = map_option (mu_sha m) c"
    "is_regular (ws_fs w) (mu_resolved m) \<longleftrightarrow> a \<noteq> None" "is_regular (ws_fs w) (mu_dir m @ [mu_temp m]) \<longleftrightarrow> b \<noteq> None"
    "is_regular (ws_fs w) (mu_dir m @ [mu_backup m]) \<longleftrightarrow> c \<noteq> None"
    "symlink_metadata (ws_fs w) (mu_resolved m) = map_option FileNode a"
  using mu_files_ops(1-3) [OF assms(1), of a b c] holding_files [OF assms(2)]
  by (auto simp: digest_file_def is_regular_def split: option.splits)

lemma pending_valid: "ready m \<Longrightarrow> \<not> invalid_pending (mu_id m) (mu_pending m)"
  using readyD(4,6,10,13) [of m]
  by (auto simp: invalid_pending_def mu_pending_def bad_length_or_nul_def resolve_path_def split: option.splits)

lemma mu_pending_sel:
  "pm_path (mu_pending m) = mu_path m" "pm_request_id (mu_pending m) = mu_id m"
  "pm_temporary_path (mu_pending m) = mu_relative m (mu_temp m)" "pm_sha256 (mu_pending m) = mu_digest m"
  "pm_backup_path (mu_pending m) = map_option (\<lambda>_. mu_relative m (mu_backup m)) (mu_old m)"
  "pm_request_hash (mu_pending m) = mu_hash m" "pm_version (mu_pending m) = mu_version m"
  "pm_previous_sha256 (mu_pending m) = map_option (mu_sha m) (mu_old m)"
  by (simp_all add: mu_pending_def)

text \<open>Recovery of this intent, with its paths resolved.\<close>

lemma recover_pending_unfold:
  assumes "ready m" "holding m w a b c committed True"
  shows "recover_pending_file_mutation (mu_codec m) io now (mu_id m) (mu_pending m) w =
    (let p = mu_pending m; target = mu_resolved m; temporary = mu_dir m @ [mu_temp m];
         backup = map_option (\<lambda>_. mu_dir m @ [mu_backup m]) (mu_old m) in
     if committed then Some (on_workspace w (recover_committed (mu_sha m) p (mu_request m) target w))
     else if map_option (mu_sha m) a = Some (mu_digest m) then
       recover_installed (mu_codec m) io now p target temporary backup w
     else if a \<noteq> None then Some (on_workspace w (recover_untouched (mu_sha m) p target temporary backup w))
     else Some (on_workspace w (recover_removed (mu_sha m) p target temporary backup w)))"
proof -
  have q: "fmlookup (se_file_requests (ws_session w)) (mu_id m) = (if committed then Some (mu_request m) else None)"
    using assms(2) readyD(7) [OF assms(1)] by (simp add: holding_def recorded_def)
  have t: "(symlink_metadata (ws_fs w) (mu_resolved m) \<noteq> None \<and> \<not> is_regular (ws_fs w) (mu_resolved m)) = False"
    using holding_digest(3,6) [OF assms] by (cases a) simp_all
  show ?thesis
    unfolding recover_pending_file_mutation_def Let_def mu_pending_sel holding_paths(1,2) [OF assms] sum.case t q
    using pending_valid [OF assms(1)] holding_paths(3,4) [OF assms] holding_digest(1,6) [OF assms]
    by (cases a; cases "mu_old m") simp_all
qed

definition settled :: "mutation \<Rightarrow> (workspace \<times> (file_error + unit)) option \<Rightarrow> bytes option \<Rightarrow> bool \<Rightarrow> bool" where
  "settled m r a committed \<longleftrightarrow> (\<exists>w. r = Some (w, Inr ()) \<and> holding m w a None None committed False)"

lemma settledI: "holding m w a None None committed False \<Longrightarrow> settled m (Some (w, Inr ())) a committed"
  by (simp add: settled_def)

lemma recover_committed_settled:
  assumes "ready m" "holding m w (Some (mu_new m)) None c True True" "mu_old m = None \<longrightarrow> c = None"
  shows "settled m (recover_pending_file_mutation (mu_codec m) io now (mu_id m) (mu_pending m) w) (Some (mu_new m)) True"
proof -
  let ?w = "w\<lparr>ws_fs := mu_files m (Some (mu_new m)) None c\<rparr>" and ?b = "w\<lparr>ws_fs := mu_files m (Some (mu_new m)) None None\<rparr>"
  have h: "holding m ?w (Some (mu_new m)) None c True True" "holding m ?b (Some (mu_new m)) None None True True"
    by (rule holding_move [OF assms(2)])+
  have t: "remove_if_exists (ws_fs w) (mu_dir m @ [mu_temp m]) = mu_files m (Some (mu_new m)) None c"
    "remove_if_exists (mu_files m (Some (mu_new m)) None c) (mu_dir m @ [mu_backup m]) = mu_files m (Some (mu_new m)) None None"
    using mu_files_ops(9,10) [OF assms(1)] holding_files [OF assms(2)] by simp_all
  have "cleanup_pending_file_mutation (mu_pending m) w = Inr (clear_intent (mu_id m) ?b)"
    using holding_paths(1,3) [OF assms(1,2)] holding_paths(1,4) [OF assms(1) h(1)] t assms(3)
    by (cases "mu_old m") (simp_all add: cleanup_pending_file_mutation_def mu_pending_sel Let_def)
  then show ?thesis
    using holding_clear(1) [OF h(2)] holding_digest(1) [OF assms(1,2)]
    by (simp add: recover_pending_unfold [OF assms(1,2)] recover_committed_def mu_pending_sel mu_request_def
        on_workspace_def Let_def settledI)
qed

lemma recover_installed_result:
  assumes "ready m" "holding m w (Some (mu_new m)) b c False True" "mu_old m = None \<longrightarrow> c = None"
  obtains (finished) "settled m (recover_pending_file_mutation (mu_codec m) io now (mu_id m) (mu_pending m) w) (Some (mu_new m)) True"
    | (retry) w' e where "recover_pending_file_mutation (mu_codec m) io now (mu_id m) (mu_pending m) w
        = Some (w', Inl (EventNotAppended e))" "holding m w' (Some (mu_new m)) b c False True"
proof -
  have v: "\<not> mu_version m \<le> (case fmlookup (se_file_versions (ws_session w)) (mu_resolved m) of None \<Rightarrow> 0 | Some v \<Rightarrow> v)"
    using assms(2) by (simp add: holding_def recorded_def mu_version_def)
  show ?thesis
    using assms(1,2)
  proof (cases rule: holding_record [where io = io and now = now])
    case (failed s' e)
    then show ?thesis
      using retry v by (simp add: recover_pending_unfold [OF assms(1,2)] recover_installed_def mu_pending_sel Let_def)
  next
    case (appended s')
    define v where "v = w\<lparr>ws_session := s'\<lparr>se_idempotency_records := se_idempotency_records s' + 1\<rparr>\<rparr>"
    have h: "holding m v (Some (mu_new m)) b c True True" unfolding v_def by (rule appended(2))
    let ?v = "v\<lparr>ws_fs := mu_files m (Some (mu_new m)) None None\<rparr>"
    have "recover_pending_file_mutation (mu_codec m) io now (mu_id m) (mu_pending m) w
        = Some (clear_intent (mu_id m) ?v, Inr ())"
      using \<open>\<not> mu_version m \<le> _\<close> appended(1) mu_files_ops(9,10) [OF assms(1)] holding_files [OF assms(2)] assms(3)
      by (cases "mu_old m") (simp_all add: recover_pending_unfold [OF assms(1,2)] recover_installed_def mu_pending_sel Let_def
          v_def)
    then show ?thesis using finished settledI [OF holding_clear(1) [OF holding_move [OF h]]] by simp
  qed
qed

lemma recover_untouched_settled:
  assumes "ready m" "holding m w (mu_old m) b None False True" "mu_old m = Some old" "mu_sha m old \<noteq> mu_digest m"
  shows "settled m (recover_pending_file_mutation (mu_codec m) io now (mu_id m) (mu_pending m) w) (mu_old m) False"
proof -
  let ?w = "w\<lparr>ws_fs := mu_files m (mu_old m) None None\<rparr>"
  have h: "holding m ?w (mu_old m) None None False True" by (rule holding_move [OF assms(2)])
  have "(if is_regular (ws_fs w) (mu_dir m @ [mu_temp m])
      then w\<lparr>ws_fs := remove_if_exists (ws_fs w) (mu_dir m @ [mu_temp m])\<rparr> else w) = ?w"
    using mu_files_ops(9) [OF assms(1)] holding_files [OF assms(2)] holding_digest(4) [OF assms(1,2)]
    by (cases b) simp_all
  then have "recover_untouched (mu_sha m) (mu_pending m) (mu_resolved m) (mu_dir m @ [mu_temp m])
      (map_option (\<lambda>_. mu_dir m @ [mu_backup m]) (mu_old m)) w = Inr (clear_intent (mu_id m) ?w)"
    using holding_digest(1,5) [OF assms(1,2)] assms(3)
    by (simp add: recover_untouched_def mu_pending_sel)
  then show ?thesis
    using settledI [OF holding_clear(1) [OF h]] assms(3,4)
    by (simp add: recover_pending_unfold [OF assms(1,2)] on_workspace_def Let_def)
qed

lemma recover_removed_settled:
  assumes "ready m" "holding m w None b (mu_old m) False True" "mu_old m = None \<longrightarrow> b \<noteq> None"
  shows "settled m (recover_pending_file_mutation (mu_codec m) io now (mu_id m) (mu_pending m) w) (mu_old m) False"
proof -
  let ?w = "w\<lparr>ws_fs := mu_files m (mu_old m) None None\<rparr>"
  have h: "holding m ?w (mu_old m) None None False True" by (rule holding_move [OF assms(2)])
  have r: "remove_if_exists (mu_files m (mu_old m) b None) (mu_dir m @ [mu_temp m]) = mu_files m (mu_old m) None None"
    using mu_files_ops(9) [OF assms(1)] by simp
  have "recover_removed (mu_sha m) (mu_pending m) (mu_resolved m) (mu_dir m @ [mu_temp m])
      (map_option (\<lambda>_. mu_dir m @ [mu_backup m]) (mu_old m)) w = Inr (clear_intent (mu_id m) ?w)"
  proof (cases "mu_old m")
    case None
    then show ?thesis
      using assms(3) r holding_files [OF assms(2)] holding_digest(4) [OF assms(1,2)]
      by (simp add: recover_removed_def mu_pending_sel)
  next
    case (Some old)
    then have "rename_file (ws_fs w) (mu_dir m @ [mu_backup m]) (mu_resolved m) = Some (mu_files m (mu_old m) b None)"
      using mu_files_ops(6) [OF assms(1)] holding_files [OF assms(2)] by simp
    then show ?thesis
      using r holding_digest(2,4,5) [OF assms(1,2)] Some
      by (cases b) (simp_all add: recover_removed_def mu_pending_sel)
  qed
  then show ?thesis
    using settledI [OF holding_clear(1) [OF h]]
    by (simp add: recover_pending_unfold [OF assms(1,2)] on_workspace_def Let_def)
qed

section \<open>A crash at any step\<close>

text \<open>The same files and intents under the session that a restart has loaded.\<close>

definition restarted :: "session_codec \<Rightarrow> workspace \<Rightarrow> workspace \<Rightarrow> bool" where
  "restarted x w w' \<longleftrightarrow> ws_fs w' = ws_fs w \<and> ws_intents w' = ws_intents w
     \<and> se_root (ws_session w') = se_root (ws_session w)
     \<and> se_file_requests (ws_session w') = se_file_requests (ws_session w)
     \<and> se_file_versions (ws_session w') = se_file_versions (ws_session w) \<and> live x (ws_session w')"

lemma holding_restarted:
  assumes "ready m" "holding m w a b c committed intent" "restarted (mu_codec m) w w'"
  shows "holding m w' a b c committed intent"
  using assms live_disk [of "mu_codec m" "ws_session w'"] live_disk [OF readyD(2) [OF assms(1)]]
  by (auto simp: holding_def restarted_def recorded_def)

lemma sorted_list_of_single: "sorted_list_of_fmap (fmupd k v fmempty) = [(k, v)]"
  by (simp add: sorted_list_of_fmap_def sorted_list_of_fset.rep_eq)

lemma recover_single:
  assumes "holding m w a b c committed True" "se_disk (ws_session w) \<noteq> None"
  shows "recover_pending_file_mutations (mu_codec m) io w =
    recover_pending_file_mutation (mu_codec m) (fst (io (mu_id m))) (snd (io (mu_id m))) (mu_id m) (mu_pending m) w"
  using assms
  by (auto simp: recover_pending_file_mutations_def holding_def sorted_list_of_single split: option.split sum.split)

text \<open>Startup settles the mutation, or keeps everything for the next attempt when the log refuses
  the missing event.\<close>

definition startup_settles :: "mutation \<Rightarrow> workspace \<Rightarrow> (workspace \<times> (file_error + unit)) option \<Rightarrow> bool" where
  "startup_settles m w out \<longleftrightarrow> (case out of
      Some (w', Inr _) \<Rightarrow> ws_intents w' = fmempty
        \<and> (ws_fs w' = mu_files m (mu_old m) None None \<and> fmlookup (se_file_requests (ws_session w')) (mu_id m) = None
         \<or> ws_fs w' = mu_files m (Some (mu_new m)) None None
             \<and> fmlookup (se_file_requests (ws_session w')) (mu_id m) = Some (mu_request m))
    | Some (w', Inl e) \<Rightarrow> (\<exists>err. e = EventNotAppended err) \<and> ws_fs w' = ws_fs w \<and> ws_intents w' = ws_intents w
        \<and> fmlookup (se_file_requests (ws_session w')) (mu_id m) = None
    | None \<Rightarrow> False)"

lemma settled_startup:
  assumes "ready m" "settled m out a committed" "(a, committed) = (mu_old m, False) \<or> (a, committed) = (Some (mu_new m), True)"
  shows "startup_settles m w out"
  using assms readyD(7) [OF assms(1)] by (auto simp: settled_def startup_settles_def holding_def recorded_def)

lemma recover_new:
  assumes "ready m" "holding m w (Some (mu_new m)) b c False True" "mu_old m = None \<longrightarrow> c = None"
  shows "startup_settles m w (recover_pending_file_mutation (mu_codec m) io now (mu_id m) (mu_pending m) w)"
  using assms
proof (cases rule: recover_installed_result [where io = io and now = now])
  case (retry w' e)
  then show ?thesis
    using assms(2) readyD(7) [OF assms(1)] by (auto simp: startup_settles_def holding_def recorded_def)
qed (use settled_startup [OF assms(1)] in blast)

lemma recover_old:
  assumes "ready m" "holding m w (mu_old m) b None False True" "mu_old m = Some old"
    and "mu_sha m old = mu_digest m \<longrightarrow> old = mu_new m"
  shows "startup_settles m w (recover_pending_file_mutation (mu_codec m) io now (mu_id m) (mu_pending m) w)"
proof (cases "mu_sha m old = mu_digest m")
  case True
  then show ?thesis using recover_new [OF assms(1), of w b None] assms(2-4) by simp
next
  case False
  then show ?thesis using settled_startup [OF assms(1) recover_untouched_settled [OF assms(1-3)]] by blast
qed

lemma recover_settles:
  assumes "ready m" "holding m w a b c committed True" "(a, b, c, committed) \<in> leaves m"
    and "\<forall>old. mu_old m = Some old \<longrightarrow> mu_sha m old = mu_digest m \<longrightarrow> old = mu_new m"
    and "(a, b, c) \<noteq> (None, None, None)"
  shows "startup_settles m w
    (recover_pending_file_mutation (mu_codec m) io now (mu_id m) (mu_pending m) w)"
proof -
  have removed: ?thesis if "a = None" "c = mu_old m" "committed = False" "mu_old m = None \<longrightarrow> b \<noteq> None"
    using that assms(2) settled_startup [OF assms(1) recover_removed_settled [OF assms(1)], where io1 = io and now1 = now] by simp
  have old: ?thesis if "a = mu_old m" "c = None" "committed = False" "mu_old m \<noteq> None"
    using that assms(2,4) recover_old [OF assms(1), of w b] by auto
  have new: ?thesis if "a = Some (mu_new m)" "c = None \<or> c = mu_old m" "committed = False"
    using that assms(2) recover_new [OF assms(1), of w b c] by auto
  have com: ?thesis if "a = Some (mu_new m)" "b = None" "c = None \<or> c = mu_old m" "committed"
    using that assms(2) settled_startup [OF assms(1) recover_committed_settled [OF assms(1)], where io1 = io and now1 = now] by auto
  show ?thesis
    using assms(3,5) removed old new com unfolding leaves_def by (cases "mu_old m") auto
qed


section \<open>Storing a file is one step\<close>

text \<open>What a client can see of the mutation: the content of the target and the request.  The
  specification moves both at once, and only when the outcome says so.\<close>

type_synonym file_view = "bytes option \<times> file_request option"

definition file_view :: "path_key \<Rightarrow> uuid \<Rightarrow> workspace \<Rightarrow> file_view" where
  "file_view k rid w = ((case symlink_metadata (ws_fs w) k of Some (FileNode data) \<Rightarrow> Some data | _ \<Rightarrow> None),
     fmlookup (se_file_requests (ws_session w)) rid)"

fun atomic_store :: "bytes \<Rightarrow> file_request \<Rightarrow> tx_outcome \<Rightarrow> file_view \<Rightarrow> file_view" where
  "atomic_store new q (TxDone _) v = (Some new, Some q)"
| "atomic_store new q (TxFailed _) v = v"
| "atomic_store new q TxDied v = v"

lemma holding_view:
  assumes "ready m" "holding m w a b c committed intent"
  shows "file_view (mu_resolved m) (mu_id m) w = (a, if committed then Some (mu_request m) else None)"
  using holding_digest(6) [OF assms] assms(2) readyD(7) [OF assms(1)]
  by (cases a) (simp_all add: file_view_def holding_def recorded_def)

definition submits :: "mutation \<Rightarrow> store_env \<Rightarrow> string option \<Rightarrow> workspace \<Rightarrow> bool" where
  "submits m env expected w \<longleftrightarrow> holding m w (mu_old m) None None False False
     \<and> expected = map_option (mu_sha m) (mu_old m) \<and> length (mu_new m) \<le> FILE_MAX_BYTES
     \<and> with_extension (mu_resolved m) (ve_tmp_ext env) = mu_dir m @ [mu_temp m]
     \<and> with_extension (mu_resolved m) (te_backup_ext (ve_tx env)) = mu_dir m @ [mu_backup m]"

lemma prepare_upload_result:
  assumes "ready m" "submits m env expected w"
  shows "prepare_file_upload (mu_sha m) ok (ve_tmp_ext env) (mu_path m) (mu_new m) w =
    (if ok then (w\<lparr>ws_fs := mu_files m (mu_old m) (Some (mu_new m)) None\<rparr>,
       Inr (mu_resolved m, mu_dir m @ [mu_temp m], mu_digest m))
     else (w\<lparr>ws_fs := mu_files m (mu_old m) (Some []) None\<rparr>, Inl FileIo))"
proof -
  have h: "holding m w (mu_old m) None None False False" using assms(2) by (simp add: submits_def)
  note f = holding_files [OF h] and d = mu_files_plain(1) [OF assms(1)]
  have n: "fmlookup (ws_fs w) (mu_dir m @ [mu_temp m]) = None"
    using siblings_lookup(2) [OF readyD(11) [OF assms(1)]] by (simp add: f mu_files_def)
  have p: "fmupd (mu_dir m @ [mu_temp m]) (FileNode data) (ws_fs w) = mu_files m (mu_old m) (Some data) None" for data
    using siblings_put(2) [OF readyD(11) [OF assms(1)]] by (simp add: f mu_files_def upd_drop_put)
  show ?thesis
    using assms(2) n holding_paths(1,2) [OF assms(1) h] create_dir_all_dirs [OF d] locate_in [OF d] f p
    by (simp add: prepare_file_upload_def submits_def Let_def)
qed

lemma view_failed:
  assumes "ready m" "holding m w (mu_old m) b None False False"
  shows "holding m (w\<lparr>ws_fs := remove_if_exists (ws_fs w) (mu_dir m @ [mu_temp m])\<rparr>) (mu_old m) None None False False"
  using holding_move [OF assms(2)] mu_files_ops(9) [OF assms(1)] holding_files [OF assms(2)] by simp

definition stored :: "mutation \<Rightarrow> store_env \<Rightarrow> workspace \<Rightarrow> workspace \<Rightarrow> tx_outcome \<Rightarrow> bool" where
  "stored m env w w' r \<longleftrightarrow>
     file_view (mu_resolved m) (mu_id m) w' = atomic_store (mu_new m) (mu_request m) r (file_view (mu_resolved m) (mu_id m) w)
     \<and> (case r of
          TxDone q \<Rightarrow> q = RespFileStored (mu_path m) (mu_version m) (mu_digest m)
        | TxFailed _ \<Rightarrow> ws_intents w' = fmempty \<and> (ve_write_ok env \<longrightarrow> ws_fs w' = ws_fs w)
        | TxDied \<Rightarrow> False)"

lemma stored_failed:
  assumes "ready m" "submits m env expected w" "holding m w' (mu_old m) b None False False"
    and "ve_write_ok env \<longrightarrow> b = None"
  shows "stored m env w w' (TxFailed e)"
proof -
  have h: "holding m w (mu_old m) None None False False" using assms(2) by (simp add: submits_def)
  show ?thesis
    using assms(3,4) holding_view [OF assms(1) h] holding_view [OF assms(1,3)] holding_files [OF h]
    by (auto simp: stored_def holding_def)
qed

lemma store_result:
  assumes "ready m" "submits m env expected w" "te_crash (ve_tx env) = None" "te_undo_ok (ve_tx env)"
  shows "\<exists>w' r. store_file_global (mu_codec m) env (mu_id m) (mu_hash m) (mu_path m) (mu_new m) expected allow_blind w
      = Some (w', r) \<and> stored m env w w' r"
proof -
  have h: "holding m w (mu_old m) None None False False" using assms(2) by (simp add: submits_def)
  have c: "cached_file_response (ws_session w) (mu_id m) (mu_hash m) = Inr None"
    using h readyD(7) [OF assms(1)] by (simp add: cached_file_response_def holding_def recorded_def)
  let ?up = "w\<lparr>ws_fs := mu_files m (mu_old m) (Some (mu_new m)) None\<rparr>"
  have up: "holding m ?up (mu_old m) (Some (mu_new m)) None False False" by (rule holding_move [OF h])
  then have "asks m (ve_tx env) expected ?up" using assms(2) by (simp add: asks_def submits_def)
  from commit_ends [OF assms(1) this, of allow_blind False]
  obtain v r where v: "commit_file_transaction (mu_codec m) (ve_tx env) (mu_id m) (mu_hash m) (mu_path m) (mu_resolved m)
      (mu_dir m @ [mu_temp m]) (mu_digest m) expected allow_blind False ?up = Some (v, r)" "ended m (ve_tx env) (v, r)"
    by (auto simp: ends_def split: option.splits)
  let ?out = "case r of TxFailed e \<Rightarrow> v\<lparr>ws_fs := remove_if_exists (ws_fs v) (mu_dir m @ [mu_temp m])\<rparr> | _ \<Rightarrow> v"
  have "stored m env w ?out r"
  proof (cases r)
    case (TxDone q)
    then show ?thesis
      using v(2) holding_view [OF assms(1)] by (auto simp: ended_def stored_def)
  next
    case (TxFailed e)
    then obtain b where "holding m v (mu_old m) b None False False"
      using v(2) assms(4) by (auto simp: ended_def)
    then show ?thesis
      using TxFailed stored_failed [OF assms(1,2) view_failed [OF assms(1)]] by simp
  next
    case TxDied
    then show ?thesis using v(2) assms(3) by (auto simp: ended_def)
  qed
  moreover have "(case (v, r) of (w, TxFailed e) \<Rightarrow> (w\<lparr>ws_fs := remove_if_exists (ws_fs w) (mu_dir m @ [mu_temp m])\<rparr>, r)
      | (w, _) \<Rightarrow> (w, r)) = (?out, r)" by (cases r) simp_all
  ultimately have ok: "ve_headroom_before env \<Longrightarrow> ve_write_ok env \<Longrightarrow> ve_headroom_after env \<Longrightarrow> ?thesis"
    by (cases r) (simp_all add: store_file_global_def c prepare_upload_result [OF assms(1,2)] v(1))
  have fail: "stored m env w w (TxFailed e)" for e by (rule stored_failed [OF assms(1,2) h]) simp
  have full: "stored m env w (?up\<lparr>ws_fs := remove_if_exists (ws_fs ?up) (mu_dir m @ [mu_temp m])\<rparr>) (TxFailed e)" for e
    by (rule stored_failed [OF assms(1,2) view_failed [OF assms(1) up]]) simp
  have part: "stored m env w (w\<lparr>ws_fs := mu_files m (mu_old m) (Some []) None\<rparr>) (TxFailed e)" if "\<not> ve_write_ok env" for e
    by (rule stored_failed [OF assms(1,2) holding_move [OF h]]) (use that in simp)
  show ?thesis
    using ok fail full part
    by (cases "ve_headroom_before env"; cases "ve_write_ok env"; cases "ve_headroom_after env")
       (simp_all add: store_file_global_def c prepare_upload_result [OF assms(1,2)])
qed


text \<open>A patch is a store of what it materializes.\<close>

lemma patch_result:
  assumes "ready m" "mu_old m = Some old" "submits m env (Some (mu_sha m old)) w"
    and "te_crash (ve_tx env) = None" "te_undo_ok (ve_tx env)"
    and "length old \<le> FILE_MAX_BYTES" "materialize old = Inr (mu_new m)"
  shows "\<exists>w' r. patch_file (mu_codec m) env (mu_id m) (mu_hash m) (mu_path m) (mu_sha m old) materialize w = Some (w', r)
    \<and> stored m env w w' r"
proof -
  have h: "holding m w (Some old) None None False False" using assms(2,3) by (simp add: submits_def)
  have c: "cached_file_response (ws_session w) (mu_id m) (mu_hash m) = Inr None"
    using h readyD(7) [OF assms(1)] by (simp add: cached_file_response_def holding_def recorded_def)
  have "fmlookup (ws_fs w) (mu_resolved m) = Some (FileNode old)"
    using siblings_lookup(1) [OF readyD(11) [OF assms(1)]] holding_files [OF h] by (simp add: mu_files_def)
  then have "canonicalize (ws_fs w) (mu_resolved m) = Some (mu_resolved m)"
    using canonicalize_in(2) mu_files_plain(1) [OF assms(1)] holding_files [OF h] by simp
  then have r: "resolve_existing_path (ws_fs w) (se_root (ws_session w)) (canonical_root w) (mu_path m) = Inr (mu_resolved m)"
    using readyD(8,10) [OF assms(1)] h holding_paths(1) [OF assms(1) h]
    by (simp add: resolve_existing_path_def holding_def recorded_def prefix_prefix)
  have "read_bounded_file (ws_fs w) (mu_resolved m) = Inr old"
    using holding_digest(6) [OF assms(1) h] assms(6) by (simp add: read_bounded_file_def)
  then show ?thesis
    using store_result [OF assms(1,3-5)] readyD(4) [OF assms(1)] assms(7)
    by (simp add: patch_file_def c r)
qed

section \<open>Blind overwrites\<close>

definition blind_pending :: "mutation \<Rightarrow> pending_file_mutation" where
  "blind_pending m = (mu_pending m)\<lparr>pm_backup_path := None, pm_previous_sha256 := None\<rparr>"

lemma blind_transact:
  assumes "ready m" "holding m w (Some old) (Some (mu_new m)) None False False"
    and "mu_old m = Some old" "te_dirs_ok env" "te_mode_ok env" "te_intent_ok env"
  shows "transact (mu_codec m) env (mu_id m) (mu_hash m) (mu_path m) (mu_resolved m) (mu_dir m @ [mu_temp m])
      (mu_digest m) None True w =
    (let w' = w\<lparr>ws_intents := fmupd (mu_id m) (blind_pending m) fmempty\<rparr> in
     if te_crash env = Some AfterIntent then Some (w', TxDied)
     else install_transaction (mu_codec m) env (mu_id m) (mu_hash m) (mu_path m) (mu_resolved m)
       (mu_dir m @ [mu_temp m]) (mu_digest m) (mu_version m) None True w')"
proof -
  note f = holding_files [OF assms(2)]
  have dirs: "create_dir_all (ws_fs w) (mu_dir m) = Some (ws_fs w)"
    using create_dir_all_dirs [OF mu_files_plain(1) [OF assms(1)]] f by simp
  obtain dk where d: "se_disk (ws_session w) = Some dk" using assms(2) live_disk by (auto simp: holding_def)
  have v: "checked_add (case fmlookup (se_file_versions (ws_session w)) (mu_resolved m) of None \<Rightarrow> 0 | Some v \<Rightarrow> v) 1
      = Some (mu_version m)"
    using assms(2) readyD(5) [OF assms(1)] by (simp add: holding_def recorded_def mu_version_def checked_add_def)
  have i: "ws_intents w = fmempty" using assms(2) by (simp add: holding_def)
  have "prepare_transaction env (mu_id m) (mu_hash m) (mu_path m) (mu_resolved m) (mu_dir m @ [mu_temp m])
      (mu_digest m) None w = (w\<lparr>ws_intents := fmupd (mu_id m) (blind_pending m) fmempty\<rparr>, Inr (mu_version m, None, True))"
    unfolding prepare_transaction_def Let_def v option.case
    using assms(3-6) d i relative_in [OF assms(1,2)] by (simp add: blind_pending_def mu_pending_def)
  moreover have "symlink_metadata (ws_fs w) (mu_resolved m) = Some (FileNode old)"
    "symlink_metadata (ws_fs w) (mu_dir m @ [mu_temp m]) = Some (FileNode (mu_new m))"
    using mu_files_ops(1,2) [OF assms(1)] f by simp_all
  ultimately show ?thesis
    using dirs assms(4)
    by (simp add: transact_def target_digest_def validate_file_precondition_def backup_and_install_def Let_def)
qed

lemma blind_commit:
  assumes "ready m" "holding m w a b c False False"
  shows "commit_file_transaction (mu_codec m) env (mu_id m) (mu_hash m) (mu_path m) (mu_resolved m)
      (mu_dir m @ [mu_temp m]) (mu_digest m) expected allow_blind True w
    = map_option drop_tx_reservation (transact (mu_codec m) env (mu_id m) (mu_hash m) (mu_path m) (mu_resolved m)
      (mu_dir m @ [mu_temp m]) (mu_digest m) expected allow_blind w)"
  using assms(2) readyD(7) [OF assms(1)]
  by (simp add: commit_file_transaction_def cached_file_response_def holding_def recorded_def Let_def)

lemma blind_recovery:
  assumes "ready m" "holding m w (Some old) (Some (mu_new m)) None False False" "mu_sha m old \<noteq> mu_digest m"
    and "w' = w\<lparr>ws_intents := fmupd (mu_id m) (blind_pending m) fmempty\<rparr>"
  shows "recover_pending_file_mutations (mu_codec m) io w' = Some (w', Inl UnexpectedTarget)"
proof -
  have c: "canonical_root w' = se_root (ws_session w')"
    using holding_paths(1) [OF assms(1,2)] by (simp add: assms(4) canonical_root_def)
  have q: "fmlookup (se_file_requests (ws_session w)) (mu_id m) = None"
    using assms(2) readyD(7) [OF assms(1)] by (simp add: holding_def recorded_def)
  obtain dk where "se_disk (ws_session w) = Some dk" using assms(2) live_disk by (auto simp: holding_def)
  then have e: "recover_pending_file_mutations (mu_codec m) io w'
      = recover_entries (mu_codec m) io [(mu_id m, blind_pending m)] w'"
    by (simp add: recover_pending_file_mutations_def sorted_list_of_single assms(4))
  have p: "pm_path (blind_pending m) = mu_path m" "pm_request_id (blind_pending m) = mu_id m"
    "pm_temporary_path (blind_pending m) = mu_relative m (mu_temp m)" "pm_sha256 (blind_pending m) = mu_digest m"
    "pm_backup_path (blind_pending m) = None" "pm_previous_sha256 (blind_pending m) = None"
    "\<not> invalid_pending (mu_id m) (blind_pending m)"
    using pending_valid [OF assms(1)] by (simp_all add: blind_pending_def mu_pending_sel invalid_pending_def)
  have "recover_pending_file_mutation (mu_codec m) now t (mu_id m) (blind_pending m) w' = Some (w', Inl UnexpectedTarget)" for now t
    unfolding recover_pending_file_mutation_def Let_def c
    using p holding_paths(2,3) [OF assms(1,2)] holding_digest(1,3,6) [OF assms(1,2)] assms(3) q
    by (simp add: assms(4) recover_untouched_def on_workspace_def)
  then show ?thesis by (simp add: e)
qed

text \<open>Claim C12. An overwrite without an expected digest writes an intent that names no backup and
  no previous digest.  If the process dies right after it, every startup stops at that
  intent with the workspace unchanged, although the target was never touched; and if installing
  the new file is not confirmed, the rollback removes the target: the old content is gone.\<close>

theorem blind_overwrite_unprotected:
  assumes "ready m" "mu_old m = Some old" "mu_sha m old \<noteq> mu_digest m"
    and "holding m w (Some old) (Some (mu_new m)) None False False"
    and "te_dirs_ok env" "te_mode_ok env" "te_intent_ok env" "te_install_ok env"
  shows "(te_crash env = Some AfterIntent \<longrightarrow>
      (\<exists>w'. commit_file_transaction (mu_codec m) env (mu_id m) (mu_hash m) (mu_path m) (mu_resolved m)
            (mu_dir m @ [mu_temp m]) (mu_digest m) None True True w = Some (w', TxDied)
          \<and> ws_fs w' = ws_fs w
          \<and> recover_pending_file_mutations (mu_codec m) io w' = Some (w', Inl UnexpectedTarget)))
    \<and> (te_crash env = None \<and> \<not> te_install_sync_ok env \<longrightarrow>
      (\<exists>w'. commit_file_transaction (mu_codec m) env (mu_id m) (mu_hash m) (mu_path m) (mu_resolved m)
            (mu_dir m @ [mu_temp m]) (mu_digest m) None True True w = Some (w', TxFailed FileIo)
          \<and> ws_fs w' = mu_files m None None None))"
proof (intro conjI impI)
  let ?w = "w\<lparr>ws_intents := fmupd (mu_id m) (blind_pending m) fmempty\<rparr>"
  note t = blind_commit [OF assms(1,4), of env None True] blind_transact [OF assms(1,4,2,5,6,7)]
  show "\<exists>w'. commit_file_transaction (mu_codec m) env (mu_id m) (mu_hash m) (mu_path m) (mu_resolved m)
        (mu_dir m @ [mu_temp m]) (mu_digest m) None True True w = Some (w', TxDied) \<and> ws_fs w' = ws_fs w
      \<and> recover_pending_file_mutations (mu_codec m) io w' = Some (w', Inl UnexpectedTarget)"
    if "te_crash env = Some AfterIntent"
    using blind_recovery [OF assms(1,4,3) refl] that by (intro exI [of _ ?w]) (simp add: t drop_tx_reservation_def)
  show "\<exists>w'. commit_file_transaction (mu_codec m) env (mu_id m) (mu_hash m) (mu_path m) (mu_resolved m)
        (mu_dir m @ [mu_temp m]) (mu_digest m) None True True w = Some (w', TxFailed FileIo)
      \<and> ws_fs w' = mu_files m None None None"
    if "te_crash env = None \<and> \<not> te_install_sync_ok env"
  proof -
    have f: "ws_fs w = mu_files m (Some old) (Some (mu_new m)) None" by (rule holding_files [OF assms(4)])
    show ?thesis
      using that assms(8) mu_files_ops [OF assms(1)]
      by (simp add: t install_transaction_def f rollback_file_transaction_def undo_target_def undo_backup_def
          undo_temporary_def clear_intent_def drop_tx_reservation_def Let_def)
  qed
qed

section \<open>A mutation to exercise the properties\<close>

definition tx_event :: event where
  "tx_event = \<lparr>ev_id = 1, ev_unix_ms = 5, ev_kind = FileMutation 9 ''h'' ''f.txt'' 1 (replicate 64 (CHR ''b''))\<rparr>"

definition tx_codec :: session_codec where
  "tx_codec = demo_session_codec\<lparr>sx_log :=
     \<lparr>lc_crc = (\<lambda>_. 0), lc_ser = (\<lambda>e. if e = tx_event then Some [1] else None), lc_de = (\<lambda>_. Some tx_event),
      lc_sha256 = (\<lambda>b. replicate 64 (if b \<noteq> [] \<and> hd b = 2 then CHR ''b'' else CHR ''a''))\<rparr>\<rparr>"

definition tx_disk :: session_disk where
  "tx_disk = \<lparr>dk_active = \<lparr>ef_bytes = log_file (sx_log tx_codec) EVENT_LOG_VERSION [],
       ef_checksummed = True, ef_first_event_id = None, ef_dirty_bytes = 0\<rparr>,
     dk_segments = [], dk_snapshot_boundary = 0, dk_total_bytes = 9\<rparr>"

definition tx_session :: session where
  "tx_session = session_from_loaded 7 [''w''] (Some tx_disk) None None default_loaded ''owner'' fmempty"

definition tx_fs :: "bytes \<Rightarrow> bytes \<Rightarrow> file_system" where
  "tx_fs old new =
     fmap_of_list [([''w''], DirNode), ([''w'', ''f.txt''], FileNode old), ([''w'', ''f.tmp''], FileNode new)]"

definition tx_mutation :: "bytes \<Rightarrow> bytes \<Rightarrow> mutation" where
  "tx_mutation old new = \<lparr>mu_codec = tx_codec, mu_id = 9, mu_hash = ''h'', mu_path = ''f.txt'', mu_dir = [''w''],
     mu_target = ''f.txt'', mu_temp = ''f.tmp'', mu_backup = ''f.old'', mu_old = Some old, mu_new = new,
     mu_fs = tx_fs old new, mu_session = tx_session\<rparr>"

abbreviation tx_demo :: mutation where
  "tx_demo \<equiv> tx_mutation [1] [2]"

definition tx_env_at :: "tx_point option \<Rightarrow> tx_env" where
  "tx_env_at point = \<lparr>te_backup_ext = ''old'', te_now = 5,
     te_append = \<lparr>io_write_ok = True, io_sync_ok = True, io_sync_due = False\<rparr>,
     te_dirs_ok = True, te_mode_ok = True, te_intent_ok = True, te_backup_ok = True, te_backup_sync_ok = True,
     te_install_ok = True, te_install_sync_ok = (point \<noteq> None), te_remove_backup_ok = True, te_clear_ok = True,
     te_undo_ok = True, te_crash = point\<rparr>"

lemma tx_codec_lawful: "session_lawful tx_codec"
proof -
  have "storable_kind (ev_kind tx_event)"
    by (simp add: tx_event_def storable_kind_def event_variable_bytes_def saturating_add_def u64_max_def consts_simps)
  then have "log_lawful (sx_log tx_codec)"
    by (simp add: tx_codec_def log_lawful_def postcard_law_def consts_simps u32_max_def)
  then show ?thesis using demo_session_codec_lawful by (simp add: session_lawful_def tx_codec_def)
qed

lemma tx_session_fields [simp]:
  "se_root tx_session = [''w'']" "se_file_requests tx_session = fmempty" "se_file_versions tx_session = fmempty"
  by (simp_all add: tx_session_def session_from_loaded_def default_loaded_def Let_def empty_materialized_def
      merge_file_versions_def loaded_file_versions_def sorted_list_of_fmap_def
      sorted_list_of_fset.rep_eq)

lemma tx_session_live: "live tx_codec tx_session"
proof -
  have j: "se_journal tx_session = journal_from_loaded [] 0 None" "se_disk tx_session = Some tx_disk"
    by (simp_all add: tx_session_def session_from_loaded_def default_loaded_def Let_def)
  have "journal_ok (journal_from_loaded [] 0 None)"
    by (simp add: journal_ok_def journal_inv_def journal_bounded_def journal_from_loaded_def consecutive_def consts_simps)
  moreover have "disk_holds (sx_log tx_codec) tx_disk [] []"
    unfolding disk_holds_def
    by (intro exI [of _ "[]"] exI [of _ EVENT_LOG_VERSION])
       (simp add: tx_disk_def file_ok_empty u64_max_def first_bound_def)
  ultimately show ?thesis
    by (simp add: live_def session_log_def j journal_from_loaded_def tx_disk_def u64_max_def)
qed

lemma tx_sha:
  "lc_sha256 (sx_log tx_codec) b = replicate 64 (if b \<noteq> [] \<and> hd b = 2 then CHR ''b'' else CHR ''a'')"
  by (simp add: tx_codec_def)

lemma tx_mutation_ready: "length old \<le> STREAM_FILE_MAX_BYTES \<Longrightarrow> ready (tx_mutation old new)"
proof -
  assume len: "length old \<le> STREAM_FILE_MAX_BYTES"
  have dirs: "dirs_only (tx_fs old new) [''w'']" by (auto simp: dirs_only_def tx_fs_def prefix_Cons)
  have "mu_files (tx_mutation old new) (mu_old (tx_mutation old new)) (Some (mu_new (tx_mutation old new))) None
      = tx_fs old new"
    by (rule fmap_ext) (auto simp: mu_files_def siblings_def tx_mutation_def tx_fs_def)
  moreover have "valid_sha256 (lc_sha256 (sx_log tx_codec) data)" for data
    by (simp add: tx_sha valid_sha256_def is_ascii_hexdigit_def byte_of_def list_all_iff)
  moreover have "resolve_path [''w''] ''f.txt'' = Inr [''w'', ''f.txt'']"
    by code_simp
  ultimately show ?thesis
    using dirs tx_session_live tx_codec_lawful len
    by (simp add: ready_def tx_mutation_def mu_version_def storable_kind_def event_variable_bytes_def tx_sha
      saturating_add_def u64_max_def mu_relative_def consts_simps bad_length_or_nul_def
      valid_name_def join_slash_def)
qed

lemma tx_demo_ready: "ready tx_demo"
  by (rule tx_mutation_ready) (simp add: consts_simps)

lemma tx_mutation_fields:
  "mu_codec (tx_mutation old new) = tx_codec" "mu_old (tx_mutation old new) = Some old"
  "mu_new (tx_mutation old new) = new" "mu_dir (tx_mutation old new) = [''w'']"
  "mu_target (tx_mutation old new) = ''f.txt''" "mu_temp (tx_mutation old new) = ''f.tmp''"
  "mu_backup (tx_mutation old new) = ''f.old''" "mu_session (tx_mutation old new) = tx_session"
  by (simp_all add: tx_mutation_def)

definition tx_workspace :: "bytes \<Rightarrow> bytes \<Rightarrow> bytes option \<Rightarrow> workspace" where
  "tx_workspace old new staged =
     \<lparr>ws_fs = mu_files (tx_mutation old new) (Some old) staged None, ws_intents = fmempty, ws_session = tx_session\<rparr>"

lemma tx_workspace_holding: "holding (tx_mutation old new) (tx_workspace old new staged) (Some old) staged None False False"
  using tx_session_live by (simp add: holding_def tx_workspace_def recorded_def tx_mutation_fields)

lemma tx_asks: "asks tx_demo (tx_env_at p) (Some (mu_sha tx_demo [1])) (tx_workspace [1] [2] (Some [2]))"
  using tx_workspace_holding [of "[1]" "[2]" "Some [2]"]
  by (simp add: asks_def tx_mutation_fields tx_env_at_def with_extension_def file_stem_def Let_def)

definition tx_store_env :: store_env where
  "tx_store_env = \<lparr>ve_tmp_ext = ''tmp'', ve_write_ok = True, ve_headroom_before = True, ve_headroom_after = True,
     ve_tx = tx_env_at None\<rparr>"

lemma tx_submits: "length new \<le> FILE_MAX_BYTES \<Longrightarrow> submits (tx_mutation old new) tx_store_env
    (Some (mu_sha (tx_mutation old new) old)) (tx_workspace old new None)"
  using tx_workspace_holding [of old new None]
  by (simp add: submits_def tx_mutation_fields tx_store_env_def tx_env_at_def with_extension_def file_stem_def Let_def)

lemma tx_store_env_fields: "te_crash (ve_tx tx_store_env) = None" "te_undo_ok (ve_tx tx_store_env)"
  by (simp_all add: tx_store_env_def tx_env_at_def)



theorem blind_overwrite_unprotected_witness:
  "\<exists>w'. commit_file_transaction tx_codec (tx_env_at (Some AfterIntent)) 9 ''h'' ''f.txt'' [''w'', ''f.txt'']
      [''w'', ''f.tmp''] (mu_digest tx_demo) None True True (tx_workspace [1] [2] (Some [2])) = Some (w', TxDied)
    \<and> recover_pending_file_mutations tx_codec (\<lambda>_. (te_append (tx_env_at None), 5)) w' = Some (w', Inl UnexpectedTarget)"
proof -
  have "te_dirs_ok (tx_env_at p)" "te_mode_ok (tx_env_at p)" "te_intent_ok (tx_env_at p)" "te_install_ok (tx_env_at p)"
    "te_crash (tx_env_at p) = p" for p by (simp_all add: tx_env_at_def)
  then show ?thesis
    using blind_overwrite_unprotected [OF tx_demo_ready tx_mutation_fields(2), of "tx_workspace [1] [2] (Some [2])"
        "tx_env_at (Some AfterIntent)" "\<lambda>_. (te_append (tx_env_at None), 5)"] tx_workspace_holding [of "[1]" "[2]" "Some [2]"]
    by (auto simp: tx_mutation_def tx_sha)
qed

end
