(* ===== verification/File_Upload.thy ===== *)
theory File_Upload
  imports File_Transaction
begin

text \<open>
  Streamed, resumable file uploads (\<open>handle_file_put_stream_inner\<close> and the staging helpers in
  \<open>crates/asp-server/src/main.rs\<close>, \<open>send_file_stream\<close> in \<open>crates/asp-client/src/main.rs\<close>).
  The body is staged in \<open>payload.part\<close> below the upload directory of the request and handed to
  the file transaction when its last frame has arrived; a stream that breaks leaves the prefix
  it wrote, and a resumed upload continues behind it.  The upload lock of a request serializes
  its attempts, so one attempt is \<open>begin_upload\<close>, the frames of the client and \<open>finish_upload\<close>.
  The metadata files are held decoded, by request.  The outcome of every system call, of the
  byte budget and of the storage check is an argument.
\<close>

section \<open>Staging\<close>

definition FILE_STREAM_CHUNK_BYTES :: usize where [consts_simps]:
  "FILE_STREAM_CHUNK_BYTES = 65536"

definition UPLOAD_SYNC_BYTES :: u64 where [consts_simps]:
  "UPLOAD_SYNC_BYTES = 1048576"

record file_upload_spec =
  fs_request_id :: uuid
  fs_path :: string
  fs_total_size :: u64
  fs_expected_sha256 :: string
  fs_expected_base_sha256 :: "string option"
  fs_allow_blind :: bool
  fs_resume :: bool

record pending_file_upload =
  pu_request_id :: uuid
  pu_request_hash :: string
  pu_path :: string
  pu_total_size :: u64
  pu_sha256 :: string
  pu_expected_sha256 :: "string option"
  pu_allow_blind :: bool

record upload_space =
  up_ws :: workspace
  up_pending :: "(uuid, pending_file_upload) fmap"

datatype upload_error =
    UploadPath path_error
  | UploadCached file_error
  | UploadNotPersisted
  | UploadHeadroom
  | UploadCapacity session_error
  | UploadStaging
  | UploadIo
  | UploadEndedEarly
  | UploadFrame
  | UploadBudget
  | UploadChunkSize
  | UploadOffset
  | UploadOverflow
  | UploadTooLong
  | UploadUnexpected
  | UploadIncomplete
  | UploadDigest
  | UploadTransaction file_error

datatype upload_outcome =
    Stored response
  | Rejected string
  | Failed upload_error
  | Died

record upload_env =
  uv_dirs_ok :: bool
  uv_headroom_ok :: bool
  uv_read_ok :: bool
  uv_pending_ok :: bool
  uv_remove_ok :: bool
  uv_open_ok :: bool
  uv_mode_ok :: bool
  uv_hash_ok :: bool
  uv_ready_ok :: bool
  uv_sync_ok :: bool
  uv_answer_ok :: bool
  uv_tx :: tx_env

definition part_path :: "path_key \<Rightarrow> path_key" where
  "part_path directory = directory @ [''payload.part'']"

definition set_fs :: "file_system \<Rightarrow> upload_space \<Rightarrow> upload_space" where
  "set_fs fs u = u\<lparr>up_ws := (up_ws u)\<lparr>ws_fs := fs\<rparr>\<rparr>"

definition set_session :: "session \<Rightarrow> upload_space \<Rightarrow> upload_space" where
  "set_session s u = u\<lparr>up_ws := (up_ws u)\<lparr>ws_session := s\<rparr>\<rparr>"

definition upload_metadata_matches ::
    "pending_file_upload \<Rightarrow> uuid \<Rightarrow> string \<Rightarrow> string \<Rightarrow> u64 \<Rightarrow> string \<Rightarrow> string option \<Rightarrow> bool \<Rightarrow> bool" where
  "upload_metadata_matches pending request_id request_hash path total_size expected_sha256
      expected_base_sha256 allow_blind \<longleftrightarrow>
     pu_request_id pending = request_id \<and> pu_request_hash pending = request_hash
     \<and> pu_path pending = path \<and> pu_total_size pending = total_size \<and> pu_sha256 pending = expected_sha256
     \<and> pu_expected_sha256 pending = expected_base_sha256 \<and> pu_allow_blind pending = allow_blind"

definition pending_of :: "string \<Rightarrow> file_upload_spec \<Rightarrow> pending_file_upload" where
  "pending_of request_hash spec =
     \<lparr>pu_request_id = fs_request_id spec, pu_request_hash = request_hash, pu_path = fs_path spec,
      pu_total_size = fs_total_size spec, pu_sha256 = fs_expected_sha256 spec,
      pu_expected_sha256 = fs_expected_base_sha256 spec, pu_allow_blind = fs_allow_blind spec\<rparr>"

definition ensure_private_directory :: "file_system \<Rightarrow> path_key \<Rightarrow> file_system option" where
  "ensure_private_directory fs p =
     (case symlink_metadata fs p of
        Some DirNode \<Rightarrow> Some fs
      | Some _ \<Rightarrow> None
      | None \<Rightarrow> create_dir_all fs p)"

definition write_pending_file_upload ::
    "bool \<Rightarrow> path_key \<Rightarrow> pending_file_upload \<Rightarrow> upload_space \<Rightarrow> upload_space \<times> (upload_error + unit)" where
  "write_pending_file_upload ok directory pending u =
     (case ensure_private_directory (ws_fs (up_ws u)) (butlast directory) of
        None \<Rightarrow> (u, Inl UploadIo)
      | Some fs \<Rightarrow>
      (case ensure_private_directory fs directory of
        None \<Rightarrow> (set_fs fs u, Inl UploadIo)
      | Some fs \<Rightarrow>
          if \<not> ok then (set_fs fs u, Inl UploadIo)
          else ((set_fs fs u)\<lparr>up_pending := fmupd (pu_request_id pending) pending (up_pending u)\<rparr>, Inr ())))"

text \<open>\<open>remove_dir\<close>; a directory that is missing or not empty is left alone.\<close>

definition remove_empty_dir :: "file_system \<Rightarrow> path_key \<Rightarrow> file_system" where
  "remove_empty_dir fs p =
     (case locate fs p of
        None \<Rightarrow> fs
      | Some k \<Rightarrow>
          if fmlookup fs k = Some DirNode \<and> \<not> fBex (fmdom fs) (\<lambda>q. strict_prefix k q)
          then fmdrop k fs else fs)"

definition remove_file_upload_staging ::
    "bool \<Rightarrow> path_key \<Rightarrow> uuid \<Rightarrow> upload_space \<Rightarrow> upload_space \<times> (upload_error + unit)" where
  "remove_file_upload_staging ok directory request_id u =
     (let fs = ws_fs (up_ws u) in
      case symlink_metadata fs directory of
        None \<Rightarrow> (u, Inr ())
      | Some DirNode \<Rightarrow>
          (case symlink_metadata fs (part_path directory) of
             Some (LinkNode _) \<Rightarrow> (u, Inl (UploadPath PathIsSymlink))
           | Some DirNode \<Rightarrow> (u, Inl UploadIo)
           | _ \<Rightarrow>
               let fs = remove_empty_dir (remove_if_exists fs (part_path directory)) directory;
                   u = (set_fs fs u)\<lparr>up_pending := fmdrop request_id (up_pending u)\<rparr>
               in (u, if ok then Inr () else Inl UploadIo))
      | Some _ \<Rightarrow> (u, Inl UploadStaging))"

text \<open>The two ways to begin: behind the staged prefix, or with an empty staging file.\<close>

definition resume_staging ::
    "upload_env \<Rightarrow> path_key \<Rightarrow> string \<Rightarrow> file_upload_spec \<Rightarrow> upload_space
       \<Rightarrow> upload_space \<times> (upload_error + u64)" where
  "resume_staging env directory request_hash spec u =
     (case (if fmlookup (up_pending u) (fs_request_id spec) = None
            then write_pending_file_upload (uv_pending_ok env) directory (pending_of request_hash spec) u
            else (u, Inr ())) of
        (u, Inl e) \<Rightarrow> (u, Inl e)
      | (u, Inr _) \<Rightarrow>
          (case symlink_metadata (ws_fs (up_ws u)) (part_path directory) of
             Some (LinkNode _) \<Rightarrow> (u, Inl (UploadPath PathIsSymlink))
           | Some DirNode \<Rightarrow> (u, Inl UploadStaging)
           | None \<Rightarrow> (u, Inr 0)
           | Some (FileNode data) \<Rightarrow>
               (u, if fs_total_size spec < length data then Inl UploadStaging else Inr (length data))))"

definition fresh_staging ::
    "upload_env \<Rightarrow> path_key \<Rightarrow> string \<Rightarrow> file_upload_spec \<Rightarrow> upload_space
       \<Rightarrow> upload_space \<times> (upload_error + u64)" where
  "fresh_staging env directory request_hash spec u =
     (case (if fmlookup (up_pending u) (fs_request_id spec) \<noteq> None
               \<or> symlink_metadata (ws_fs (up_ws u)) (part_path directory) \<noteq> None
            then remove_file_upload_staging (uv_remove_ok env) directory (fs_request_id spec) u
            else (u, Inr ())) of
        (u, Inl e) \<Rightarrow> (u, Inl e)
      | (u, Inr _) \<Rightarrow>
          (case write_pending_file_upload (uv_pending_ok env) directory (pending_of request_hash spec) u of
             (u, Inl e) \<Rightarrow> (u, Inl e)
           | (u, Inr _) \<Rightarrow> (u, Inr 0)))"

text \<open>Opening \<open>payload.part\<close> without following a link: created and truncated at offset 0,
  for appending otherwise.\<close>

definition open_part :: "bool \<Rightarrow> path_key \<Rightarrow> u64 \<Rightarrow> file_system \<Rightarrow> file_system option" where
  "open_part ok part start_offset fs =
     (case (ok, locate fs part) of
        (True, Some k) \<Rightarrow>
          (case fmlookup fs k of
             None \<Rightarrow> if start_offset = 0 then Some (fmupd k (FileNode []) fs) else None
           | Some (FileNode data) \<Rightarrow> if start_offset = 0 then Some (fmupd k (FileNode []) fs) else Some fs
           | Some _ \<Rightarrow> None)
      | _ \<Rightarrow> None)"

definition part_bytes :: "file_system \<Rightarrow> path_key \<Rightarrow> bytes" where
  "part_bytes fs part = (case symlink_metadata fs part of Some (FileNode data) \<Rightarrow> data | _ \<Rightarrow> [])"

section \<open>Beginning an upload\<close>

definition release_upload :: "upload_space \<Rightarrow> upload_space" where
  "release_upload u = set_session (drop_reservation False (ws_session (up_ws u))) u"

text \<open>From the reservation to the \<open>FILE_UPLOAD_READY\<close> frame.  The result is the offset at which
  the client goes on.  The limit of \<open>hash_file_into\<close> is out of reach: the offset is at most the
  declared size, which has been checked.\<close>

definition stage_upload ::
    "upload_env \<Rightarrow> path_key \<Rightarrow> string \<Rightarrow> file_upload_spec \<Rightarrow> upload_space
       \<Rightarrow> upload_space \<times> (upload_outcome + u64)" where
  "stage_upload env directory request_hash spec u =
     (let matches = (case fmlookup (up_pending u) (fs_request_id spec) of
        Some pending \<Rightarrow>
          upload_metadata_matches pending (fs_request_id spec) request_hash (fs_path spec) (fs_total_size spec)
            (fs_expected_sha256 spec) (fs_expected_base_sha256 spec) (fs_allow_blind spec)
      | None \<Rightarrow> True)
      in if \<not> matches then (release_upload u, Inl (Rejected ''idempotency_conflict''))
      else case (if fs_resume spec then resume_staging env directory request_hash spec u
                 else fresh_staging env directory request_hash spec u) of
        (u, Inl e) \<Rightarrow> (release_upload u, Inl (Failed e))
      | (u, Inr start_offset) \<Rightarrow>
      (case reject_symlink (ws_fs (up_ws u)) (part_path directory) of
        Inl e \<Rightarrow> (release_upload u, Inl (Failed (UploadPath e)))
      | Inr _ \<Rightarrow>
      (case open_part (uv_open_ok env) (part_path directory) start_offset (ws_fs (up_ws u)) of
        None \<Rightarrow> (release_upload u, Inl (Failed UploadIo))
      | Some fs \<Rightarrow>
          let u = set_fs fs u in
          if \<not> uv_mode_ok env \<or> 0 < start_offset \<and> \<not> uv_hash_ok env \<or> fs_resume spec \<and> \<not> uv_ready_ok env
          then (release_upload u, Inl (Failed UploadIo))
          else (u, Inr start_offset))))"

definition begin_upload ::
    "upload_env \<Rightarrow> path_key \<Rightarrow> string \<Rightarrow> file_upload_spec \<Rightarrow> upload_space
       \<Rightarrow> upload_space \<times> (upload_outcome + path_key \<times> u64)" where
  "begin_upload env directory request_hash spec u =
     (let w = up_ws u in
      if STREAM_FILE_MAX_BYTES < fs_total_size spec then (u, Inl (Rejected ''file_too_large''))
      else if \<not> valid_sha256 (fs_expected_sha256 spec) then (u, Inl (Rejected ''invalid_sha256''))
      else if (case fs_expected_base_sha256 spec of None \<Rightarrow> False | Some v \<Rightarrow> \<not> valid_sha256 v)
      then (u, Inl (Rejected ''invalid_sha256''))
      else case resolve_write_path (ws_fs w) (se_root (ws_session w)) (canonical_root w) (fs_path spec) of
        Inl e \<Rightarrow> (u, Inl (Failed (UploadPath e)))
      | Inr resolved \<Rightarrow>
      (case (if uv_dirs_ok env then create_dir_all (ws_fs w) (butlast resolved) else None) of
        None \<Rightarrow> (u, Inl (Failed UploadIo))
      | Some fs \<Rightarrow>
      let u = set_fs fs u in
      if se_disk (ws_session w) = None then (u, Inl (Failed UploadNotPersisted))
      else case cached_file_response (ws_session w) (fs_request_id spec) request_hash of
        Inl e \<Rightarrow> (u, Inl (Failed (UploadCached e)))
      | Inr (Some cached) \<Rightarrow> (u, Inl (Stored cached))
      | Inr None \<Rightarrow>
      if \<not> uv_headroom_ok env then (u, Inl (Failed UploadHeadroom))
      else if \<not> uv_read_ok env then (u, Inl (Failed UploadIo))
      else case reserve_idempotency_record (ws_session w) of
        (s, Inl e) \<Rightarrow> (set_session s u, Inl (Failed (UploadCapacity e)))
      | (s, Inr _) \<Rightarrow>
          (case stage_upload env directory request_hash spec (set_session s u) of
             (u, Inl out) \<Rightarrow> (u, Inl out)
           | (u, Inr start_offset) \<Rightarrow> (u, Inr (resolved, start_offset)))))"

section \<open>Receiving the body\<close>

text \<open>One frame as the server sees it: read and decoded, with the verdict of the byte budget,
  the bytes the write gets into the file when it fails, and the outcome of the periodic sync
  and of the storage check behind it; or a read that fails.  A list that is used up is a stream
  the client has closed.\<close>

record frame_io =
  fi_admitted :: bool
  fi_write_fails :: "nat option"
  fi_sync_ok :: bool
  fi_headroom_ok :: bool

datatype upload_frame = UploadMessage request frame_io | UploadUnreadable

record upload_loop =
  ul_part :: bytes
  ul_hashed :: bytes
  ul_received :: u64
  ul_unsynced :: u64

definition upload_chunk ::
    "u64 \<Rightarrow> frame_io \<Rightarrow> u64 \<Rightarrow> bytes \<Rightarrow> upload_loop \<Rightarrow> upload_loop \<times> (upload_error + unit)" where
  "upload_chunk total_size io offset data st =
     (if data = [] \<or> FILE_STREAM_CHUNK_BYTES < length data then (st, Inl UploadChunkSize)
      else if offset \<noteq> ul_received st then (st, Inl UploadOffset)
      else case checked_add (ul_received st) (length data) of
        None \<Rightarrow> (st, Inl UploadOverflow)
      | Some got \<Rightarrow>
      let st = st\<lparr>ul_received := got\<rparr> in
      if total_size < got then (st, Inl UploadTooLong)
      else
      let st = st\<lparr>ul_hashed := ul_hashed st @ data\<rparr> in
      case fi_write_fails io of
        Some n \<Rightarrow> (st\<lparr>ul_part := ul_part st @ take n data\<rparr>, Inl UploadIo)
      | None \<Rightarrow>
      let st = st\<lparr>ul_part := ul_part st @ data,
                 ul_unsynced := saturating_add (ul_unsynced st) (length data)\<rparr> in
      if ul_unsynced st < UPLOAD_SYNC_BYTES then (st, Inr ())
      else if \<not> fi_sync_ok io then (st, Inl UploadIo)
      else if \<not> fi_headroom_ok io then (st, Inl UploadHeadroom)
      else (st\<lparr>ul_unsynced := 0\<rparr>, Inr ()))"

definition upload_end :: "(bytes \<Rightarrow> string) \<Rightarrow> u64 \<Rightarrow> string \<Rightarrow> upload_loop \<Rightarrow> upload_error + string" where
  "upload_end sha256 total_size expected_sha256 st =
     (if ul_received st \<noteq> total_size then Inl UploadIncomplete
      else if sha256 (ul_hashed st) \<noteq> expected_sha256 then Inl UploadDigest
      else Inr (sha256 (ul_hashed st)))"

fun receive_upload ::
    "(bytes \<Rightarrow> string) \<Rightarrow> u64 \<Rightarrow> string \<Rightarrow> upload_frame list \<Rightarrow> upload_loop
       \<Rightarrow> upload_loop \<times> (upload_error + string)" where
  "receive_upload sha256 total_size expected_sha256 [] st = (st, Inl UploadEndedEarly)"
| "receive_upload sha256 total_size expected_sha256 (UploadUnreadable # frames) st = (st, Inl UploadFrame)"
| "receive_upload sha256 total_size expected_sha256 (UploadMessage message io # frames) st =
     (if \<not> fi_admitted io then (st, Inl UploadBudget)
      else case message of
        ReqFilePutStreamChunk offset data \<Rightarrow>
          (case upload_chunk total_size io offset data st of
             (st, Inl e) \<Rightarrow> (st, Inl e)
           | (st, Inr _) \<Rightarrow> receive_upload sha256 total_size expected_sha256 frames st)
      | ReqFilePutStreamEnd \<Rightarrow> (st, upload_end sha256 total_size expected_sha256 st)
      | _ \<Rightarrow> (st, Inl UploadUnexpected))"

section \<open>Finishing an upload\<close>

definition write_part :: "path_key \<Rightarrow> bytes \<Rightarrow> file_system \<Rightarrow> file_system" where
  "write_part part data fs = (case locate fs part of None \<Rightarrow> fs | Some k \<Rightarrow> fmupd k (FileNode data) fs)"

text \<open>\<open>hash_file_into\<close> has fed the staged prefix to the hasher.  A body with the wrong digest
  is discarded; any other failure keeps what was staged.\<close>

definition finish_upload ::
    "session_codec \<Rightarrow> upload_env \<Rightarrow> path_key \<Rightarrow> string \<Rightarrow> file_upload_spec \<Rightarrow> path_key \<Rightarrow> u64
       \<Rightarrow> upload_frame list \<Rightarrow> upload_space \<Rightarrow> (upload_space \<times> upload_outcome) option" where
  "finish_upload x env directory request_hash spec resolved start_offset frames u =
     (let part = part_path directory;
          staged = part_bytes (ws_fs (up_ws u)) part;
          (st, r) = receive_upload (lc_sha256 (sx_log x)) (fs_total_size spec) (fs_expected_sha256 spec) frames
             \<lparr>ul_part = staged, ul_hashed = (if 0 < start_offset then staged else []),
              ul_received = start_offset, ul_unsynced = 0\<rparr>;
          u = set_fs (write_part part (ul_part st) (ws_fs (up_ws u))) u
      in case r of
        Inl e \<Rightarrow>
          let u = release_upload u in
          Some (if e = UploadDigest
                then fst (remove_file_upload_staging (uv_remove_ok env) directory (fs_request_id spec) u)
                else u, Failed e)
      | Inr digest \<Rightarrow>
      if \<not> uv_sync_ok env then Some (release_upload u, Failed UploadIo)
      else case commit_file_transaction x (uv_tx env) (fs_request_id spec) request_hash (fs_path spec) resolved
                  part digest (fs_expected_base_sha256 spec) (fs_allow_blind spec) True (up_ws u) of
        None \<Rightarrow> None
      | Some (w, out) \<Rightarrow>
          let u = u\<lparr>up_ws := w\<rparr> in
          (case out of
             TxDied \<Rightarrow> Some (u, Died)
           | TxFailed e \<Rightarrow> Some (u, Failed (UploadTransaction e))
           | TxDone r \<Rightarrow>
               if \<not> uv_answer_ok env then Some (u, Failed UploadIo)
               else Some (fst (remove_file_upload_staging (uv_remove_ok env) directory (fs_request_id spec) u),
                          Stored r)))"

section \<open>The client\<close>

text \<open>What \<open>send_file_stream\<close> sends of its file from \<open>offset\<close> on.  The sizes are those its reads
  return: at least one byte before the end of the file and at most the buffer.\<close>

definition read_size :: "nat list \<Rightarrow> nat" where
  "read_size sizes = (case sizes of [] \<Rightarrow> FILE_STREAM_CHUNK_BYTES
     | n # _ \<Rightarrow> max 1 (min n FILE_STREAM_CHUNK_BYTES))"

function send_body :: "nat list \<Rightarrow> bytes \<Rightarrow> u64 \<Rightarrow> request list" where
  "send_body sizes local offset =
     (if length local \<le> offset then [ReqFilePutStreamEnd]
      else let data = take (read_size sizes) (drop offset local)
           in ReqFilePutStreamChunk offset data # send_body (tl sizes) local (offset + length data))"
  by pat_completeness auto
termination
  by (relation "measure (\<lambda>(sizes, local, offset). length local - offset)")
     (auto simp: read_size_def consts_simps split: list.splits)

declare send_body.simps [simp del]

text \<open>One attempt, with the frames of the client as a function of the offset: it reads the offset
  from the READY frame of a resumed upload, and starts at 0 otherwise, as the server does.\<close>

definition upload_attempt ::
    "session_codec \<Rightarrow> upload_env \<Rightarrow> path_key \<Rightarrow> string \<Rightarrow> file_upload_spec \<Rightarrow> (u64 \<Rightarrow> upload_frame list)
       \<Rightarrow> upload_space \<Rightarrow> (upload_space \<times> upload_outcome) option" where
  "upload_attempt x env directory request_hash spec frames u =
     (case begin_upload env directory request_hash spec u of
        (u, Inl out) \<Rightarrow> Some (u, out)
      | (u, Inr (resolved, start_offset)) \<Rightarrow>
          finish_upload x env directory request_hash spec resolved start_offset (frames start_offset) u)"

end
