(* ===== verification/Upload_Safety.thy ===== *)
theory Upload_Safety
  imports File_Upload Transaction_Safety
begin

text \<open>
  What a streamed upload promises: an acknowledged one has installed a file of the declared
  length and digest, whatever frames arrived and however often it was resumed; and a client
  that keeps sending the same file gets that file installed, because every interruption leaves
  a prefix of it.
\<close>

section \<open>What a transaction does to the staging file\<close>

text \<open>Directories stay, and the file at \<open>P\<close> stays as it is or goes.\<close>

definition calm :: "path_key \<Rightarrow> file_system \<Rightarrow> file_system \<Rightarrow> bool" where
  "calm P fs fs' \<longleftrightarrow> (\<forall>k. fmlookup fs k = Some DirNode \<longrightarrow> fmlookup fs' k = Some DirNode)
     \<and> (fmlookup fs' P = None \<or> fmlookup fs' P = fmlookup fs P)"

lemma calm_refl [simp]: "calm P fs fs"
  by (simp add: calm_def)

lemma calm_trans: "calm P fs fs' \<Longrightarrow> calm P fs' fs'' \<Longrightarrow> calm P fs fs''"
  by (auto simp: calm_def)

lemma calm_dirs: "calm P fs fs' \<Longrightarrow> dirs_only fs d \<Longrightarrow> dirs_only fs' d"
  by (auto simp: calm_def dirs_only_def)

lemma remove_calm: "remove_file fs p = Some fs' \<Longrightarrow> calm P fs fs'"
  by (auto simp: remove_file_def calm_def split: option.splits fs_node.splits)

lemma remove_if_exists_calm [simp]: "calm P fs (remove_if_exists fs p)"
  by (auto simp: remove_if_exists_def remove_calm split: option.splits)

lemma rename_calm:
  "rename_file fs p (d @ [w]) = Some fs' \<Longrightarrow> dirs_only fs d \<Longrightarrow> d @ [w] \<noteq> P \<Longrightarrow> calm P fs fs'"
  by (auto simp: rename_file_def calm_def locate_in split: option.splits fs_node.splits if_splits)

lemma undo_target_calm: "undo_target sha256 resolved digest w = Inr w' \<Longrightarrow> calm P (ws_fs w) (ws_fs w')"
  by (auto simp: undo_target_def remove_calm split: option.splits fs_node.splits if_splits)

lemma undo_backup_calm:
  "undo_backup (d @ [t]) backup w = Inr w' \<Longrightarrow> dirs_only (ws_fs w) d \<Longrightarrow> d @ [t] \<noteq> P
     \<Longrightarrow> calm P (ws_fs w) (ws_fs w')"
  by (auto simp: undo_backup_def rename_calm split: option.splits if_splits)

lemma undo_temporary_calm: "undo_temporary temporary w = Inr w' \<Longrightarrow> calm P (ws_fs w) (ws_fs w')"
  by (auto simp: undo_temporary_def remove_calm split: option.splits if_splits)

lemma rollback_calm:
  assumes "rollback_file_transaction sha256 env rid intent (d @ [t]) temporary backup digest err w = (w', out)"
    "dirs_only (ws_fs w) d" "d @ [t] \<noteq> P"
  shows "calm P (ws_fs w) (ws_fs w')" "\<And>r. out \<noteq> TxDone r"
proof -
  have "calm P (ws_fs w) (ws_fs w') \<and> (\<forall>r. out \<noteq> TxDone r)"
  proof (cases "undo_target sha256 (d @ [t]) digest w")
    case (Inr w1)
    note c1 = undo_target_calm [OF Inr, of P]
    show ?thesis
    proof (cases "undo_backup (d @ [t]) backup w1")
      case Inr2: (Inr w2)
      note c2 = calm_trans [OF c1 undo_backup_calm [OF Inr2 calm_dirs [OF c1 assms(2)] assms(3)]]
      show ?thesis
      proof (cases "undo_temporary temporary w2")
        case Inr3: (Inr w3)
        show ?thesis
          using assms(1) c1 c2 calm_trans [OF c2 undo_temporary_calm [OF Inr3]] Inr Inr2 Inr3
          by (auto simp: rollback_file_transaction_def clear_intent_def split: if_splits)
      qed (use assms(1) c1 c2 Inr Inr2 in
        \<open>auto simp: rollback_file_transaction_def clear_intent_def split: if_splits\<close>)
    qed (use assms(1) c1 Inr in
      \<open>auto simp: rollback_file_transaction_def clear_intent_def split: if_splits\<close>)
  qed (use assms(1) in \<open>auto simp: rollback_file_transaction_def\<close>)
  then show "calm P (ws_fs w) (ws_fs w')" "\<And>r. out \<noteq> TxDone r" by blast+
qed

text \<open>The last state of a mutation that is done: the target holds the staged content, and the
  session has the record.\<close>

definition stored_as ::
    "uuid \<Rightarrow> string \<Rightarrow> string \<Rightarrow> string \<Rightarrow> path_key \<Rightarrow> fs_node option \<Rightarrow> workspace \<Rightarrow> response \<Rightarrow> bool" where
  "stored_as rid rhash path digest k node w r \<longleftrightarrow>
     (\<exists>v. r = RespFileStored path v digest
        \<and> fmlookup (se_file_requests (ws_session w)) rid = Some \<lparr>fq_request_hash = rhash, fq_path = path,
            fq_version = v, fq_sha256 = digest\<rparr>)
     \<and> fmlookup (ws_fs w) k = node"

lemma tx_cleanup_calm:
  assumes "tx_cleanup env rid intent backup r w = (w', out)"
  shows "calm P (ws_fs w) (ws_fs w')"
    "ws_session w' = ws_session w"
    "out = TxDone q \<Longrightarrow> q = r"
    "backup = Some (d @ [v]) \<or> backup = None \<Longrightarrow> dirs_only (ws_fs w) d \<Longrightarrow> k \<noteq> d @ [v]
       \<Longrightarrow> fmlookup (ws_fs w') k = fmlookup (ws_fs w) k"
  using assms
  by (auto simp: tx_cleanup_def clear_intent_def remove_if_exists_def remove_file_def locate_in Let_def calm_def
      split: option.splits if_splits fs_node.splits prod.splits)

lemma record_mutation_requests:
  assumes "record_mutation x io now rid rhash path version digest k s = Some (s', Inr u)"
  shows "fmlookup (se_file_requests s') rid = Some \<lparr>fq_request_hash = rhash, fq_path = path,
    fq_version = version, fq_sha256 = digest\<rparr>"
proof -
  obtain s1 r where "append_locked x io now (FileMutation rid rhash path version digest) s = Some (s1, r)"
    using assms by (auto simp: record_mutation_def)
  then show ?thesis using assms by (cases r) (auto simp: record_mutation_def file_mutation_def)
qed

definition ends_calm ::
    "path_key \<Rightarrow> uuid \<Rightarrow> string \<Rightarrow> string \<Rightarrow> string \<Rightarrow> path_key \<Rightarrow> workspace \<Rightarrow> workspace \<Rightarrow> tx_outcome \<Rightarrow> bool" where
  "ends_calm P rid rhash path digest k w w' out \<longleftrightarrow> calm P (ws_fs w) (ws_fs w')
     \<and> (\<forall>r. out = TxDone r \<longrightarrow> stored_as rid rhash path digest k (fmlookup (ws_fs w) P) w' r)"

lemma install_calm:
  assumes "install_transaction x env rid rhash path (d @ [t]) P digest version backup intent w = Some (w', out)"
    "dirs_only (ws_fs w) d" "d @ [t] \<noteq> P" "P = D @ [p]" "dirs_only (ws_fs w) D"
    "backup \<in> {None, Some (d @ [v])}" "v \<noteq> t"
  shows "ends_calm P rid rhash path digest (d @ [t]) w w' out"
proof -
  define undo where "undo = rollback_file_transaction (lc_sha256 (sx_log x)) env rid intent (d @ [t]) P backup digest"
  have undone: ?thesis if "Some (undo e w1) = Some (w', out)" "calm P (ws_fs w) (ws_fs w1)" for e w1
  proof -
    have u: "undo e w1 = (w', out)" using that(1) by simp
    note r = rollback_calm [OF u [unfolded undo_def] calm_dirs [OF that(2) assms(2)] assms(3)]
    show ?thesis using calm_trans [OF that(2) r(1)] r(2) by (simp add: ends_calm_def)
  qed
  show ?thesis
  proof (cases "rename_file (ws_fs w) P (d @ [t])")
    case None
    then show ?thesis
      using assms(1) undone [of FileIo w] by (simp add: install_transaction_def undo_def)
  next
    case (Some fs)
    note c = rename_calm [OF Some assms(2,3)]
    let ?w = "w\<lparr>ws_fs := fs\<rparr>"
    have moved: "fmlookup fs (d @ [t]) = fmlookup (ws_fs w) P"
      using Some assms(2,4,5)
      by (auto simp: rename_file_def locate_in split: option.splits fs_node.splits if_splits)
    consider "\<not> te_install_ok env" | "te_install_ok env" "te_crash env = Some AfterInstall"
      | "te_install_ok env" "te_crash env \<noteq> Some AfterInstall" by blast
    then show ?thesis
    proof cases
      case 3
      show ?thesis
      proof (cases "record_mutation x (te_append env) (te_now env) rid rhash path version digest (d @ [t]) (ws_session w)")
        case None
        then show ?thesis
          using assms(1) Some c 3 undone [of FileIo ?w] undone [of FileVersionChanged ?w]
          by (auto simp: install_transaction_def undo_def Let_def ends_calm_def split: if_splits)
      next
        case rec: (Some sr)
        obtain s1 res where sr: "sr = (s1, res)" by force
        show ?thesis
        proof (cases res)
          case (Inl e)
          then show ?thesis
            using assms(1) Some c 3 rec sr undone [of FileIo ?w] undone [of FileVersionChanged ?w]
              undone [of e "?w\<lparr>ws_session := s1\<rparr>"]
            by (auto simp: install_transaction_def undo_def Let_def ends_calm_def split: if_splits)
        next
          case (Inr ok)
          let ?w1 = "?w\<lparr>ws_session := s1\<rparr>"
          have q: "fmlookup (se_file_requests s1) rid = Some \<lparr>fq_request_hash = rhash, fq_path = path,
              fq_version = version, fq_sha256 = digest\<rparr>"
            using record_mutation_requests rec sr Inr by simp
          have fin: ?thesis if cl: "tx_cleanup env rid intent backup (RespFileStored path version digest) ?w1 = (w', out)"
          proof -
            note k = tx_cleanup_calm [OF cl]
            have "calm P (ws_fs w) (ws_fs w')" using calm_trans [OF c] k(1) by simp
            moreover have "stored_as rid rhash path digest (d @ [t]) (fmlookup (ws_fs w) P) w' r"
              if h: "out = TxDone r" for r
              using k(2) k(3) [OF h] k(4) [of d v "d @ [t]"] assms(6,7) calm_dirs [OF c assms(2)] q moved
              by (auto simp: stored_as_def)
            ultimately show ?thesis by (simp add: ends_calm_def)
          qed
          then show ?thesis
            using assms(1) Some c 3 rec sr Inr undone [of FileIo ?w] undone [of FileVersionChanged ?w]
            by (auto simp: install_transaction_def undo_def Let_def ends_calm_def split: if_splits)
        qed
      qed
    qed (use assms(1) Some c undone [of FileIo w] in \<open>auto simp: install_transaction_def undo_def Let_def ends_calm_def\<close>)
  qed
qed

lemma ends_calm_trans:
  "ends_calm P rid rhash path digest k w1 w' out \<Longrightarrow> calm P (ws_fs w) (ws_fs w1)
     \<Longrightarrow> fmlookup (ws_fs w1) P = fmlookup (ws_fs w) P \<Longrightarrow> ends_calm P rid rhash path digest k w w' out"
  using calm_trans by (auto simp: ends_calm_def)

lemma failed_calm: "calm P (ws_fs w) (ws_fs w') \<Longrightarrow> (\<And>r. out \<noteq> TxDone r) \<Longrightarrow> ends_calm P rid rhash path digest k w w' out"
  by (simp add: ends_calm_def)

lemma backup_calm:
  assumes "backup_and_install x env rid rhash path (d @ [t]) P digest version backup intent w = Some (w', out)"
    "dirs_only (ws_fs w) d" "P = D @ [p]" "dirs_only (ws_fs w) D" "d \<noteq> D"
    "backup \<in> {None, Some (d @ [v])}" "v \<noteq> t"
  shows "ends_calm P rid rhash path digest (d @ [t]) w w' out"
proof (cases backup)
  case None
  then show ?thesis using assms install_calm [of x env rid rhash path d t P] by (simp add: backup_and_install_def)
next
  case (Some b)
  then have b: "b = d @ [v]" using assms(6) by simp
  show ?thesis
  proof (cases "if te_backup_ok env then rename_file (ws_fs w) (d @ [t]) b else None")
    case None
    then show ?thesis
      using assms(1) Some by (auto simp: backup_and_install_def clear_intent_def intro!: failed_calm split: if_splits)
  next
    case r: (Some fs)
    then have r': "rename_file (ws_fs w) (d @ [t]) (d @ [v]) = Some fs" by (simp add: b split: if_splits)
    have c: "calm P (ws_fs w) fs" using rename_calm [OF r' assms(2)] assms(3,5) by simp
    have P: "fmlookup fs P = fmlookup (ws_fs w) P"
      using r' assms(2,3,5) by (auto simp: rename_file_def locate_in split: option.splits fs_node.splits if_splits)
    let ?w = "w\<lparr>ws_fs := fs\<rparr>"
    have undone: ?thesis
      if "rollback_file_transaction (lc_sha256 (sx_log x)) env rid intent (d @ [t]) P backup digest FileIo ?w = (w', out)"
      using rollback_calm [OF that, of P] calm_dirs [OF c assms(2)] assms(3,5) calm_trans [OF c]
      by (auto intro!: failed_calm)
    have installed: ?thesis
      if "install_transaction x env rid rhash path (d @ [t]) P digest version backup intent ?w = Some (w', out)"
    proof -
      have "ends_calm P rid rhash path digest (d @ [t]) ?w w' out"
        by (rule install_calm [OF that _ _ assms(3) _ assms(6,7)])
           (use calm_dirs [OF c assms(2)] calm_dirs [OF c assms(4)] assms(3,5) in simp_all)
      then show ?thesis by (rule ends_calm_trans) (simp_all add: c P)
    qed
    consider "te_crash env = Some AfterBackup" | "te_crash env \<noteq> Some AfterBackup" "\<not> te_backup_sync_ok env"
      | "te_crash env \<noteq> Some AfterBackup" "te_backup_sync_ok env" by blast
    then show ?thesis
    proof cases
      case 1
      then show ?thesis using assms(1) r Some c by (intro failed_calm) (auto simp: backup_and_install_def Let_def)
    next
      case 2
      then show ?thesis using assms(1) r Some by (intro undone) (simp add: backup_and_install_def Let_def)
    next
      case 3
      then show ?thesis using assms(1) r Some by (intro installed) (simp add: backup_and_install_def Let_def)
    qed
  qed
qed

lemma prepare_calm:
  assumes "prepare_transaction env rid rhash path resolved temporary digest previous w = (w', r)"
  shows "ws_fs w' = ws_fs w" "r = Inr (version, backup, intent) \<Longrightarrow>
      backup = map_option (\<lambda>_. with_extension resolved (te_backup_ext env)) previous"
  using assms by (auto simp: prepare_transaction_def Let_def split: if_splits option.splits sum.splits)

lemma transact_calm:
  assumes "transact x env rid rhash path (d @ [t]) P digest expected blind w = Some (w', out)"
    "dirs_only (ws_fs w) d" "P = D @ [p]" "dirs_only (ws_fs w) D" "d \<noteq> D"
    "with_extension (d @ [t]) (te_backup_ext env) \<noteq> d @ [t]"
  shows "ends_calm P rid rhash path digest (d @ [t]) w w' out"
proof -
  obtain v where v: "with_extension (d @ [t]) (te_backup_ext env) = d @ [v]" "v \<noteq> t"
    using assms(6) by (simp add: with_extension_def)
  have same: "w\<lparr>ws_fs := ws_fs w\<rparr> = w" by simp
  show ?thesis
  proof (cases "(\<exists>c. symlink_metadata (ws_fs w) P = Some (FileNode c)) \<and> te_dirs_ok env")
    case False
    then show ?thesis
      using assms(1) by (auto simp: transact_def intro!: failed_calm split: option.splits fs_node.splits)
  next
    case True
    note u = assms(1) [unfolded transact_def butlast_snoc create_dir_all_dirs [OF assms(2)] Let_def same]
    show ?thesis
    proof (cases "target_digest (lc_sha256 (sx_log x)) w (d @ [t]) expected blind")
      case (Inl e)
      then show ?thesis using True u by (auto intro!: failed_calm)
    next
      case dg: (Inr previous)
      show ?thesis
      proof (cases "validate_file_precondition previous expected blind")
        case (Inl e)
        then show ?thesis using True u dg by (auto intro!: failed_calm)
      next
        case pre: (Inr ok)
        obtain w1 r where pr: "prepare_transaction env rid rhash path (d @ [t]) P digest previous w = (w1, r)" by force
        note f = prepare_calm [OF pr]
        show ?thesis
        proof (cases r)
          case (Inl e)
          then show ?thesis using True u dg pre pr f(1) by (auto simp: clear_intent_def intro!: failed_calm)
        next
          case (Inr q)
          obtain version backup intent where q: "q = (version, backup, intent)" by (cases q)
          have "backup \<in> {None, Some (d @ [v])}" using f(2) Inr q v(1) by (cases previous) auto
          then have "ends_calm P rid rhash path digest (d @ [t]) w1 w' out"
            if "backup_and_install x env rid rhash path (d @ [t]) P digest version backup intent w1 = Some (w', out)"
            using backup_calm [OF that _ assms(3)] f(1) assms v(2) by simp
          then show ?thesis
            using True u dg pre pr Inr q f(1)
            by (auto intro!: failed_calm elim!: ends_calm_trans split: if_splits)
        qed
      qed
    qed
  qed
qed

lemma commit_calm:
  assumes "commit_file_transaction x env rid rhash path (d @ [t]) P digest expected blind True w = Some (w', out)"
    "dirs_only (ws_fs w) d" "P = D @ [p]" "dirs_only (ws_fs w) D" "d \<noteq> D"
    "with_extension (d @ [t]) (te_backup_ext env) \<noteq> d @ [t]"
  shows "calm P (ws_fs w) (ws_fs w')"
    "fmlookup (se_file_requests (ws_session w)) rid = None \<Longrightarrow> out = TxDone r
       \<Longrightarrow> stored_as rid rhash path digest (d @ [t]) (fmlookup (ws_fs w) P) w' r"
proof -
  have "calm P (ws_fs w) (ws_fs w') \<and> (fmlookup (se_file_requests (ws_session w)) rid = None \<longrightarrow>
      ends_calm P rid rhash path digest (d @ [t]) w w' out)"
  proof (cases "cached_file_response (ws_session w) rid rhash = Inr None")
    case False
    then show ?thesis
      using assms(1) by (auto simp: commit_file_transaction_def cached_file_response_def Let_def
          split: option.splits if_splits)
  next
    case True
    then obtain w1 out1 where t: "transact x env rid rhash path (d @ [t]) P digest expected blind w = Some (w1, out1)"
        and e: "(w', out) = drop_tx_reservation (w1, out1)"
      using assms(1) by (auto simp: commit_file_transaction_def Let_def)
    have "ends_calm P rid rhash path digest (d @ [t]) w w' out"
      using transact_calm [OF t assms(2-6)] e
      by (cases out1) (auto simp: drop_tx_reservation_def ends_calm_def)
    then show ?thesis by (simp add: ends_calm_def)
  qed
  then show "calm P (ws_fs w) (ws_fs w')" "fmlookup (se_file_requests (ws_session w)) rid = None \<Longrightarrow> out = TxDone r
       \<Longrightarrow> stored_as rid rhash path digest (d @ [t]) (fmlookup (ws_fs w) P) w' r"
    by (auto simp: ends_calm_def)
qed

section \<open>What staging does\<close>

abbreviation up_fs :: "upload_space \<Rightarrow> file_system" where
  "up_fs u \<equiv> ws_fs (up_ws u)"

abbreviation up_session :: "upload_space \<Rightarrow> session" where
  "up_session u \<equiv> ws_session (up_ws u)"

text \<open>The upload directory is missing or a directory below directories.\<close>

definition staging_ok :: "path_key \<Rightarrow> file_system \<Rightarrow> bool" where
  "staging_ok D fs \<longleftrightarrow> D \<noteq> [] \<and> dirs_only fs (butlast D) \<and> fmlookup fs D \<in> {None, Some DirNode}"

text \<open>The metadata of a request lie in its upload directory.\<close>

definition anchored :: "path_key \<Rightarrow> uuid \<Rightarrow> upload_space \<Rightarrow> bool" where
  "anchored D rid u \<longleftrightarrow> (fmlookup (up_pending u) rid \<noteq> None \<longrightarrow> fmlookup (up_fs u) D = Some DirNode)"

text \<open>A step of the staging code touches the upload directory, its payload, the metadata of the
  request and the reservation; the payload is kept, emptied or removed.\<close>

definition shrunk :: "fs_node option \<Rightarrow> fs_node option \<Rightarrow> bool" where
  "shrunk n n' \<longleftrightarrow> n' \<in> {None, n, Some (FileNode [])}"

definition stages :: "path_key \<Rightarrow> string \<Rightarrow> file_upload_spec \<Rightarrow> upload_space \<Rightarrow> upload_space \<Rightarrow> bool" where
  "stages D rhash spec u u' \<longleftrightarrow> staging_ok D (up_fs u')
     \<and> (\<forall>d. dirs_only (up_fs u) d \<and> d \<noteq> D \<longrightarrow> dirs_only (up_fs u') d)
     \<and> (\<forall>k. k \<noteq> part_path D \<and> k \<noteq> D \<longrightarrow> fmlookup (up_fs u') k = fmlookup (up_fs u) k)
     \<and> shrunk (fmlookup (up_fs u) (part_path D)) (fmlookup (up_fs u') (part_path D))
     \<and> se_file_requests (up_session u') = se_file_requests (up_session u)
     \<and> fmlookup (up_pending u') (fs_request_id spec)
         \<in> {None, fmlookup (up_pending u) (fs_request_id spec), Some (pending_of rhash spec)}
     \<and> (anchored D (fs_request_id spec) u \<longrightarrow> anchored D (fs_request_id spec) u')"

lemma stages_refl: "staging_ok D (up_fs u) \<Longrightarrow> stages D rhash spec u u"
  by (simp add: stages_def shrunk_def)

lemma stages_trans: "stages D rhash spec u u1 \<Longrightarrow> stages D rhash spec u1 u2 \<Longrightarrow> stages D rhash spec u u2"
  by (auto simp: stages_def shrunk_def)

lemma stages_ok: "stages D rhash spec u u' \<Longrightarrow> staging_ok D (up_fs u')"
  by (simp add: stages_def)

lemma set_fs_simps [simp]:
  "up_fs (set_fs fs u) = fs" "up_session (set_fs fs u) = up_session u" "up_pending (set_fs fs u) = up_pending u"
  "up_fs (set_session s u) = up_fs u" "up_session (set_session s u) = s" "up_pending (set_session s u) = up_pending u"
  "up_fs (release_upload u) = up_fs u" "up_pending (release_upload u) = up_pending u"
  "se_file_requests (up_session (release_upload u)) = se_file_requests (up_session u)"
  by (simp_all add: set_fs_def set_session_def release_upload_def drop_reservation_def release_idempotency_record_def)

lemma release_stages: "stages D rhash spec u u' \<Longrightarrow> stages D rhash spec u (release_upload u')"
  by (simp add: stages_def anchored_def)

lemma part_in: "dirs_only fs D \<Longrightarrow> locate fs (part_path D) = Some (part_path D)"
    "dirs_only fs D \<Longrightarrow> symlink_metadata fs (part_path D) = fmlookup fs (part_path D)"
  by (simp_all add: part_path_def locate_in symlink_metadata_in)

lemma staging_dirs: "staging_ok D fs \<Longrightarrow> fmlookup fs D = Some DirNode \<Longrightarrow> dirs_only fs D"
  by (cases D rule: rev_cases) (auto simp: staging_ok_def)

lemma staging_metadata: "staging_ok D fs \<Longrightarrow> symlink_metadata fs D = fmlookup fs D"
  by (cases D rule: rev_cases) (auto simp: staging_ok_def symlink_metadata_in)

lemma staging_missing:
  assumes "staging_ok D fs" "fmlookup fs D = None"
  shows "locate fs (part_path D) = None" "symlink_metadata fs (part_path D) = None" "create_dir_all fs D = Some (fmupd D DirNode fs)"
proof -
  obtain E e where D: "D = E @ [e]" using assms(1) by (cases D rule: rev_cases) (auto simp: staging_ok_def)
  have E: "dirs_only fs E" using assms(1) by (simp add: staging_ok_def D)
  have c: "canonicalize fs D = None" using canonicalize_in(1) [OF E, of e] assms(2) by (simp add: D)
  then show "locate fs (part_path D) = None" "symlink_metadata fs (part_path D) = None"
    by (simp_all add: part_path_def locate_def symlink_metadata_def)
  show "create_dir_all fs D = Some (fmupd D DirNode fs)"
    using c create_dir_all_dirs [OF E] locate_in [OF E, of e] assms(2)
    by (subst create_dir_all.simps) (simp add: path_exists_def D)
qed

lemma ensure_staging:
  assumes "staging_ok D fs"
  shows "ensure_private_directory fs (butlast D) = Some fs" "ensure_private_directory fs D = Some (put D (Some DirNode) fs)"
proof -
  have "symlink_metadata fs (butlast D) = Some DirNode"
    using assms by (cases "butlast D" rule: rev_cases) (auto simp: staging_ok_def symlink_metadata_def canonicalize_dirs)
  then show "ensure_private_directory fs (butlast D) = Some fs" by (simp add: ensure_private_directory_def)
  show "ensure_private_directory fs D = Some (put D (Some DirNode) fs)"
  proof (cases "fmlookup fs D")
    case None
    then show ?thesis
      using staging_missing(3) [OF assms] staging_metadata [OF assms]
      by (simp add: ensure_private_directory_def upd_drop_put)
  next
    case (Some n)
    then show ?thesis
      using staging_metadata [OF assms] assms by (auto simp: ensure_private_directory_def staging_ok_def put_same)
  qed
qed

lemma put_dir_dirs: "dirs_only fs d \<Longrightarrow> dirs_only (put k (Some DirNode) fs) d"
  by (auto simp: dirs_only_def)

lemma part_not_dir [simp]: "part_path D \<noteq> D" "D \<noteq> part_path D"
  by (simp_all add: part_path_def)

lemma write_pending_stages:
  assumes "staging_ok D (up_fs u)" "write_pending_file_upload ok D (pending_of rhash spec) u = (u', r)"
  shows "stages D rhash spec u u'" "r = Inr () \<Longrightarrow> dirs_only (up_fs u') D"
    "ok \<Longrightarrow> r = Inr ()" "fmlookup (up_fs u') (part_path D) = fmlookup (up_fs u) (part_path D)"
proof -
  have u': "up_fs u' = put D (Some DirNode) (up_fs u)" "up_session u' = up_session u"
      "up_pending u' \<in> {up_pending u, fmupd (fs_request_id spec) (pending_of rhash spec) (up_pending u)}"
      and r: "r = (if ok then Inr () else Inl UploadIo)"
    using assms(2) ensure_staging [OF assms(1)]
    by (auto simp: write_pending_file_upload_def pending_of_def split: if_splits)
  have "dirs_only (up_fs u') (butlast D)" using assms(1) by (simp add: staging_ok_def u'(1) put_dir_dirs)
  then have ok: "staging_ok D (up_fs u')" using assms(1) by (simp add: staging_ok_def u'(1))
  then show "stages D rhash spec u u'"
    using u' by (auto simp: stages_def put_dir_dirs shrunk_def anchored_def)
  show "dirs_only (up_fs u') D" by (rule staging_dirs [OF ok]) (simp add: u'(1))
  show "ok \<Longrightarrow> r = Inr ()" by (simp add: r)
  show "fmlookup (up_fs u') (part_path D) = fmlookup (up_fs u) (part_path D)" by (simp add: u'(1))
qed

lemma remove_empty_dir_effect:
  assumes "dirs_only fs E" "D = E @ [e]"
  defines "fs' \<equiv> remove_empty_dir fs D"
  shows "k \<noteq> D \<Longrightarrow> fmlookup fs' k = fmlookup fs k" "fmlookup fs' D \<in> {None, fmlookup fs D}"
    "dirs_only fs d \<Longrightarrow> d \<noteq> D \<Longrightarrow> dirs_only fs' d"
proof -
  have l: "locate fs D = Some D" using locate_in [OF assms(1)] by (simp add: assms(2))
  show "k \<noteq> D \<Longrightarrow> fmlookup fs' k = fmlookup fs k" "fmlookup fs' D \<in> {None, fmlookup fs D}"
    by (auto simp: fs'_def remove_empty_dir_def l)
  show "dirs_only fs' d" if "dirs_only fs d" "d \<noteq> D"
  proof (cases "prefix D d")
    case True
    then have "strict_prefix D d" "d \<noteq> []" using that(2) assms(2) by auto
    moreover have "d |\<in>| fmdom fs" using that(1) calculation(2) by (auto simp: dirs_only_def intro: fmdomI)
    ultimately have "fBex (fmdom fs) (strict_prefix D)" by blast
    then show ?thesis using that(1) by (simp add: fs'_def remove_empty_dir_def l)
  next
    case False
    then show ?thesis
      using that(1) by (auto simp: fs'_def remove_empty_dir_def l dirs_only_def)
  qed
qed

lemma remove_staging_stages:
  assumes "staging_ok D (up_fs u)" "remove_file_upload_staging ok D (fs_request_id spec) u = (u', r)"
  shows "stages D rhash spec u u'" "fmlookup (up_fs u') (part_path D) \<in> {None, fmlookup (up_fs u) (part_path D)}"
proof -
  have "stages D rhash spec u u' \<and> fmlookup (up_fs u') (part_path D) \<in> {None, fmlookup (up_fs u) (part_path D)}"
  proof (cases "u' = u")
    case True
    then show ?thesis using stages_refl [OF assms(1)] by simp
  next
    case False
    obtain E e where D: "D = E @ [e]" using assms(1) by (cases D rule: rev_cases) (auto simp: staging_ok_def)
    have dir: "fmlookup (up_fs u) D = Some DirNode"
      using assms False staging_metadata [OF assms(1)]
      by (auto simp: remove_file_upload_staging_def Let_def staging_ok_def)
    note dirs = staging_dirs [OF assms(1) dir]
    let ?fs = "remove_if_exists (up_fs u) (part_path D)"
    have fs: "up_fs u' = remove_empty_dir ?fs D" "up_session u' = up_session u"
        "up_pending u' = fmdrop (fs_request_id spec) (up_pending u)"
      using assms(2) False staging_metadata [OF assms(1)] dir
      by (auto simp: remove_file_upload_staging_def Let_def split: option.splits fs_node.splits)
    have P: "fmlookup ?fs k = fmlookup (up_fs u) k" if "k \<noteq> part_path D" for k
      using that by (auto simp: remove_if_exists_def remove_file_def part_in(1) [OF dirs]
          split: option.splits fs_node.splits)
    have Q: "fmlookup ?fs (part_path D) \<in> {None, fmlookup (up_fs u) (part_path D)}"
      using remove_if_exists_calm [of "part_path D"] by (auto simp: calm_def)
    have c: "dirs_only ?fs d" if "dirs_only (up_fs u) d" for d
      using calm_dirs [OF remove_if_exists_calm that] .
    have E: "dirs_only (up_fs u) E" using assms(1) by (simp add: staging_ok_def D)
    note m = remove_empty_dir_effect [OF c [OF E] D]
    have "staging_ok D (up_fs u')"
      using m(2) m(3) [of E] c [OF E] P [of D] dir by (auto simp: staging_ok_def fs(1) D)
    then show ?thesis
      using m c P Q by (auto simp: stages_def fs shrunk_def anchored_def)
  qed
  then show "stages D rhash spec u u'" "fmlookup (up_fs u') (part_path D) \<in> {None, fmlookup (up_fs u) (part_path D)}"
    by blast+
qed

lemma resume_staging_stages:
  assumes "staging_ok D (up_fs u)" "resume_staging env D rhash spec u = (u', r)"
  shows "stages D rhash spec u u'" "r = Inr off \<Longrightarrow> off = 0 \<or> (\<exists>data. fmlookup (up_fs u') (part_path D) = Some (FileNode data)
      \<and> off = length data)"
proof -
  obtain u1 q where w: "(if fmlookup (up_pending u) (fs_request_id spec) = None
        then write_pending_file_upload (uv_pending_ok env) D (pending_of rhash spec) u else (u, Inr ())) = (u1, q)"
    by force
  have s1: "stages D rhash spec u u1"
    using w write_pending_stages(1) [OF assms(1)] stages_refl [OF assms(1)] by (auto split: if_splits)
  have u': "u' = u1" using assms(2) w
    by (auto simp: resume_staging_def split: sum.splits option.splits fs_node.splits)
  show "stages D rhash spec u u'" using s1 u' by simp
  show "off = 0 \<or> (\<exists>data. fmlookup (up_fs u') (part_path D) = Some (FileNode data) \<and> off = length data)" if "r = Inr off"
  proof (cases "fmlookup (up_fs u') D")
    case None
    then show ?thesis
      using assms(2) w that staging_missing(2) [OF stages_ok [OF s1]] u'
      by (auto simp: resume_staging_def split: sum.splits)
  next
    case (Some n)
    then have "dirs_only (up_fs u1) D"
      using staging_dirs [OF stages_ok [OF s1]] stages_ok [OF s1] u' by (auto simp: staging_ok_def)
    then show ?thesis
      using assms(2) w that u' part_in(2)
      by (auto simp: resume_staging_def split: sum.splits option.splits fs_node.splits if_splits)
  qed
qed

lemma fresh_staging_stages:
  assumes "staging_ok D (up_fs u)" "fresh_staging env D rhash spec u = (u', r)"
  shows "stages D rhash spec u u'" "r = Inr off \<Longrightarrow> off = 0"
proof -
  obtain u1 q where w: "(if fmlookup (up_pending u) (fs_request_id spec) \<noteq> None
        \<or> symlink_metadata (ws_fs (up_ws u)) (part_path D) \<noteq> None
      then remove_file_upload_staging (uv_remove_ok env) D (fs_request_id spec) u else (u, Inr ())) = (u1, q)"
    by force
  have s1: "stages D rhash spec u u1"
    using w remove_staging_stages(1) [OF assms(1)] stages_refl [OF assms(1)] by (auto split: if_splits)
  obtain u2 q2 where w2: "write_pending_file_upload (uv_pending_ok env) D (pending_of rhash spec) u1 = (u2, q2)" by force
  note s2 = stages_trans [OF s1 write_pending_stages(1) [OF stages_ok [OF s1] w2]]
  show "stages D rhash spec u u'"
    using assms(2) w w2 s1 s2 by (cases q; cases q2) (auto simp: fresh_staging_def)
  show "r = Inr off \<Longrightarrow> off = 0"
    using assms(2) w w2 by (cases q; cases q2) (auto simp: fresh_staging_def)
qed

definition opened :: "path_key \<Rightarrow> u64 \<Rightarrow> upload_space \<Rightarrow> bool" where
  "opened D off u \<longleftrightarrow> dirs_only (up_fs u) D
     \<and> (\<exists>data. fmlookup (up_fs u) (part_path D) = Some (FileNode data) \<and> length data = off)"

lemma write_file_dirs:
  "dirs_only fs d \<Longrightarrow> fmlookup fs k \<noteq> Some DirNode \<Longrightarrow> dirs_only (fmupd k n fs) d"
  by (auto simp: dirs_only_def)

lemma write_file_stages:
  assumes "staging_ok D (up_fs u)" "fmlookup (up_fs u) (part_path D) \<noteq> Some DirNode"
  shows "stages D rhash spec u (set_fs (fmupd (part_path D) (FileNode []) (up_fs u)) u)"
  using assms by (auto simp: stages_def staging_ok_def write_file_dirs shrunk_def anchored_def)

lemma open_part_stages:
  assumes "staging_ok D (up_fs u)" "open_part ok (part_path D) off (up_fs u) = Some fs"
    "off = 0 \<or> (\<exists>data. fmlookup (up_fs u) (part_path D) = Some (FileNode data) \<and> off = length data)"
  shows "stages D rhash spec u (set_fs fs u)" "opened D off (set_fs fs u)"
proof -
  have dirs: "dirs_only (up_fs u) D"
    using assms(1,2) staging_missing(1) [OF assms(1)] staging_dirs [OF assms(1)]
    by (cases "fmlookup (up_fs u) D") (auto simp: open_part_def staging_ok_def split: bool.splits)
  have "(off = 0 \<and> fs = fmupd (part_path D) (FileNode []) (up_fs u) \<or> off \<noteq> 0 \<and> fs = up_fs u)
      \<and> fmlookup (up_fs u) (part_path D) \<noteq> Some DirNode"
    using assms(2) part_in(1) [OF dirs]
    by (auto simp: open_part_def split: bool.splits option.splits fs_node.splits if_splits)
  then show "stages D rhash spec u (set_fs fs u)" "opened D off (set_fs fs u)"
    using write_file_stages [OF assms(1)] stages_refl [OF assms(1)] assms(1,3) dirs
    by (auto simp: opened_def write_file_dirs set_fs_def)
qed

lemma stage_upload_stages:
  assumes "staging_ok D (up_fs u)" "stage_upload env D rhash spec u = (u', r)"
  shows "stages D rhash spec u u' \<and> (\<forall>off. r = Inr off \<longrightarrow> opened D off u')"
proof -
  obtain u1 q where w: "(if fs_resume spec then resume_staging env D rhash spec u
        else fresh_staging env D rhash spec u) = (u1, q)" by force
  have s1: "stages D rhash spec u u1"
    using w resume_staging_stages(1) [OF assms(1)] fresh_staging_stages(1) [OF assms(1)] by (auto split: if_splits)
  have off: "off = 0 \<or> (\<exists>data. fmlookup (up_fs u1) (part_path D) = Some (FileNode data) \<and> off = length data)"
    if "q = Inr off" for off
    using w that resume_staging_stages(2) [OF assms(1)] fresh_staging_stages(2) [OF assms(1)] by (auto split: if_splits)
  note rel = release_stages [OF stages_refl [OF assms(1)]] release_stages [OF s1]
  show ?thesis
  proof (cases q)
    case (Inl e)
    then show ?thesis using assms(2) w rel by (auto simp: stage_upload_def Let_def split: if_splits)
  next
    case q: (Inr off0)
    show ?thesis
    proof (cases "open_part (uv_open_ok env) (part_path D) off0 (up_fs u1)")
      case None
      then show ?thesis
        using assms(2) w q rel by (auto simp: stage_upload_def Let_def split: if_splits sum.splits)
    next
      case (Some fs)
      note o = open_part_stages [OF stages_ok [OF s1] Some off [OF q]]
      have s2: "stages D rhash spec u (set_fs fs u1)" using stages_trans [OF s1] o(1) .
      show ?thesis
        using assms(2) w q Some rel s2 o(2) release_stages [OF s2]
        by (auto simp: stage_upload_def Let_def split: if_splits sum.splits)
    qed
  qed
qed

text \<open>The target of an upload: its directory exists and has no links, it is not the upload
  directory, and the backup has a name of its own.\<close>

definition upload_target ::
    "path_key \<Rightarrow> upload_env \<Rightarrow> file_upload_spec \<Rightarrow> upload_space \<Rightarrow> path_key \<Rightarrow> string \<Rightarrow> bool" where
  "upload_target D env spec u d t \<longleftrightarrow>
     resolve_write_path (up_fs u) (se_root (up_session u)) (canonical_root (up_ws u)) (fs_path spec) = Inr (d @ [t])
     \<and> dirs_only (up_fs u) d \<and> d \<noteq> D \<and> with_extension (d @ [t]) (te_backup_ext (uv_tx env)) \<noteq> d @ [t]"

lemma set_fs_same [simp]: "set_fs (up_fs u) u = u"
  by (simp add: set_fs_def)

lemma begin_upload_stages:
  assumes "staging_ok D (up_fs u)" "upload_target D env spec u d t" "begin_upload env D rhash spec u = (u', r)"
  shows "stages D rhash spec u u'"
    "r = Inr (k, off) \<Longrightarrow> k = d @ [t] \<and> opened D off u' \<and> fmlookup (se_file_requests (up_session u)) (fs_request_id spec) = None"
proof -
  have res: "resolve_write_path (up_fs u) (se_root (up_session u)) (canonical_root (up_ws u)) (fs_path spec) = Inr (d @ [t])"
      and d: "dirs_only (up_fs u) d" using assms(2) by (simp_all add: upload_target_def)
  obtain s q where rs: "reserve_idempotency_record (up_session u) = (s, q)" by force
  have req: "se_file_requests s = se_file_requests (up_session u)"
    using rs by (auto simp: reserve_idempotency_record_def split: if_splits)
  let ?u = "set_session s u"
  have s0: "stages D rhash spec u ?u" using assms(1) req by (simp add: stages_def shrunk_def anchored_def)
  obtain u2 q2 where st: "stage_upload env D rhash spec ?u = (u2, q2)" by force
  note s2 = stage_upload_stages [OF _ st]
  have s3: "stages D rhash spec u u2" "\<And>off. q2 = Inr off \<Longrightarrow> opened D off u2"
    using stages_trans [OF s0] s2 assms(1) by auto
  have "stages D rhash spec u u' \<and> (\<forall>k off. r = Inr (k, off) \<longrightarrow> k = d @ [t] \<and> opened D off u'
      \<and> fmlookup (se_file_requests (up_session u)) (fs_request_id spec) = None)"
    using assms(3) s0 s3 stages_refl [OF assms(1)]
    unfolding begin_upload_def Let_def res butlast_snoc create_dir_all_dirs [OF d] sum.case rs prod.case set_fs_same st
    by (cases q; cases q2)
      (auto simp: cached_file_response_def create_dir_all_dirs [OF d] st split: if_splits option.splits)
  then show "stages D rhash spec u u'" "r = Inr (k, off) \<Longrightarrow> k = d @ [t] \<and> opened D off u'
      \<and> fmlookup (se_file_requests (up_session u)) (fs_request_id spec) = None" by blast+
qed

section \<open>An acknowledged upload\<close>

lemma upload_chunk_ok:
  assumes "upload_chunk total_size io offset data st = (st', Inr ok)"
  shows "ul_part st' = ul_part st @ data" "ul_hashed st' = ul_hashed st @ data"
    "ul_received st' = ul_received st + length data" "offset = ul_received st"
  using assms by (auto simp: upload_chunk_def Let_def checked_add_def split: if_splits option.splits)

lemma receive_accepted:
  assumes "receive_upload sha total_size expected frames st = (st', Inr digest)"
    "ul_part st = ul_hashed st" "length (ul_hashed st) = ul_received st"
  shows "length (ul_part st') = total_size" "sha (ul_part st') = expected" "digest = expected"
proof -
  have "length (ul_part st') = total_size \<and> sha (ul_part st') = expected \<and> digest = expected"
    using assms
  proof (induction sha total_size expected frames st rule: receive_upload.induct)
    case (3 sha total_size expected message io frames st)
    show ?case
    proof (cases "\<exists>offset data. message = ReqFilePutStreamChunk offset data")
      case True
      then obtain offset data where m: "message = ReqFilePutStreamChunk offset data" by blast
      obtain st1 q where c: "upload_chunk total_size io offset data st = (st1, q)" by force
      show ?thesis
      proof (cases q)
        case (Inr ok)
        note k = upload_chunk_ok [OF c [unfolded Inr]]
        show ?thesis
          by (rule "3.IH" [OF _ m c [symmetric] Inr]) (use "3.prems" m c Inr k in \<open>auto split: if_splits\<close>)
      qed (use "3.prems" m c in \<open>auto split: if_splits\<close>)
    next
      case False
      then show ?thesis
        using "3.prems" by (auto simp: upload_end_def split: request.splits if_splits)
    qed
  qed simp_all
  then show "length (ul_part st') = total_size" "sha (ul_part st') = expected" "digest = expected" by blast+
qed

lemma opened_bytes: "opened D off u \<Longrightarrow> length (part_bytes (up_fs u) (part_path D)) = off
    \<and> fmlookup (up_fs u) (part_path D) = Some (FileNode (part_bytes (up_fs u) (part_path D)))"
  by (auto simp: opened_def part_bytes_def part_in)

lemma write_part_in:
  assumes "opened D off u"
  shows "write_part (part_path D) data (up_fs u) = fmupd (part_path D) (FileNode data) (up_fs u)"
    "dirs_only (up_fs u) d \<Longrightarrow> dirs_only (write_part (part_path D) data (up_fs u)) d"
    "opened D (length data) (set_fs (write_part (part_path D) data (up_fs u)) u)"
proof -
  show w: "write_part (part_path D) data (up_fs u) = fmupd (part_path D) (FileNode data) (up_fs u)"
    using assms part_in(1) by (simp add: opened_def write_part_def)
  show "dirs_only (up_fs u) d \<Longrightarrow> dirs_only (write_part (part_path D) data (up_fs u)) d" for d
    using assms by (auto simp: opened_def w write_file_dirs)
  then show "opened D (length data) (set_fs (write_part (part_path D) data (up_fs u)) u)"
    using assms by (simp add: opened_def w)
qed

lemma opened_staging: "opened D off u \<Longrightarrow> D \<noteq> [] \<Longrightarrow> staging_ok D (up_fs u)"
  by (cases D rule: rev_cases) (auto simp: opened_def staging_ok_def)

text \<open>What a finished attempt has done, by its outcome.  \<open>stored\<close> is the body it was about.\<close>

lemma finish_upload_stored:
  assumes "opened D off u" "D \<noteq> []" "dirs_only (up_fs u) d" "d \<noteq> D"
    "with_extension (d @ [t]) (te_backup_ext (uv_tx env)) \<noteq> d @ [t]"
    "fmlookup (se_file_requests (up_session u)) (fs_request_id spec) = None"
    "finish_upload x env D rhash spec (d @ [t]) off frames u = Some (u', Stored r)"
    "receive_upload (lc_sha256 (sx_log x)) (fs_total_size spec) (fs_expected_sha256 spec) frames
       \<lparr>ul_part = part_bytes (up_fs u) (part_path D), ul_hashed = part_bytes (up_fs u) (part_path D),
        ul_received = off, ul_unsynced = 0\<rparr> = (st, q)"
  shows "q = Inr (fs_expected_sha256 spec)"
    "stored_as (fs_request_id spec) rhash (fs_path spec) (fs_expected_sha256 spec) (d @ [t])
       (Some (FileNode (ul_part st))) (up_ws u') r"
proof -
  note b = opened_bytes [OF assms(1)]
  have h: "(if 0 < off then part_bytes (up_fs u) (part_path D) else []) = part_bytes (up_fs u) (part_path D)"
    using b by auto
  let ?u = "set_fs (write_part (part_path D) (ul_part st) (up_fs u)) u"
  note w = write_part_in [OF assms(1), where data = "ul_part st"]
  show q: "q = Inr (fs_expected_sha256 spec)"
  proof (cases q)
    case (Inl e)
    then show ?thesis using assms(7) by (simp add: finish_upload_def Let_def h assms(8))
  next
    case (Inr digest)
    then show ?thesis using receive_accepted(3) [OF assms(8) [unfolded Inr]] b by simp
  qed
  obtain w1 where c: "commit_file_transaction x (uv_tx env) (fs_request_id spec) rhash (fs_path spec) (d @ [t])
        (part_path D) (fs_expected_sha256 spec) (fs_expected_base_sha256 spec) (fs_allow_blind spec) True (up_ws ?u)
        = Some (w1, TxDone r)"
      and u': "u' = fst (remove_file_upload_staging (uv_remove_ok env) D (fs_request_id spec) (?u\<lparr>up_ws := w1\<rparr>))"
    using assms(7) by (auto simp: finish_upload_def Let_def h assms(8) q split: if_splits option.splits tx_outcome.splits)
  have dirs: "dirs_only (up_fs ?u) d" "dirs_only (up_fs ?u) D"
    using w(2) assms(1,3) by (simp_all add: opened_def)
  have fresh: "fmlookup (se_file_requests (up_session ?u)) (fs_request_id spec) = None"
    using assms(6) by simp
  note cc = commit_calm [OF c dirs(1) part_path_def dirs(2) assms(4,5)]
  have st: "stored_as (fs_request_id spec) rhash (fs_path spec) (fs_expected_sha256 spec) (d @ [t])
      (Some (FileNode (ul_part st))) w1 r"
    using cc(2) [OF fresh refl] w(1) by simp
  let ?v = "?u\<lparr>up_ws := w1\<rparr>"
  have Dv: "dirs_only (up_fs ?v) D" using calm_dirs [OF cc(1) dirs(2)] by simp
  then have okv: "staging_ok D (up_fs ?v)" using assms(2) by (cases D rule: rev_cases) (auto simp: staging_ok_def)
  have "stages D rhash spec ?v u'"
    using remove_staging_stages(1) [OF okv] u' by (metis prod.collapse)
  moreover have "d @ [t] \<noteq> D" using Dv st assms(2) by (auto simp: stored_as_def dirs_only_def)
  moreover have "d @ [t] \<noteq> part_path D" using assms(4) by (simp add: part_path_def)
  ultimately show "stored_as (fs_request_id spec) rhash (fs_path spec) (fs_expected_sha256 spec) (d @ [t])
       (Some (FileNode (ul_part st))) (up_ws u') r"
    using st by (simp add: stored_as_def stages_def)
qed

lemma begin_not_stored:
  assumes "begin_upload env D rhash spec u = (u', Inl (Stored r))"
  shows "fmlookup (se_file_requests (up_session u)) (fs_request_id spec) \<noteq> None"
proof -
  have no: "stage_upload env D rhash spec v \<noteq> (v', Inl (Stored r))" for v v'
    by (auto simp: stage_upload_def Let_def split: if_splits prod.splits sum.splits option.splits)
  show ?thesis
    using assms no unfolding begin_upload_def Let_def
    by (auto simp: cached_file_response_def split: if_splits prod.splits sum.splits option.splits)
qed

text \<open>Claim C10.  A streamed upload that the server acknowledges has installed, under the declared
  path, a file with the declared length and SHA-256 digest, and the request is on record: for
  any frames the client sent, any staged prefix a resumed upload found and any outcome of the
  system calls on the way.\<close>

theorem streamed_upload_installs_declared_body:
  assumes "staging_ok D (up_fs u)" "upload_target D env spec u d t"
    "fmlookup (se_file_requests (up_session u)) (fs_request_id spec) = None"
    "upload_attempt x env D rhash spec frames u = Some (u', Stored r)"
  shows "\<exists>v body. r = RespFileStored (fs_path spec) v (fs_expected_sha256 spec)
    \<and> fmlookup (up_fs u') (d @ [t]) = Some (FileNode body)
    \<and> length body = fs_total_size spec \<and> lc_sha256 (sx_log x) body = fs_expected_sha256 spec
    \<and> fmlookup (se_file_requests (up_session u')) (fs_request_id spec) = Some \<lparr>fq_request_hash = rhash,
        fq_path = fs_path spec, fq_version = v, fq_sha256 = fs_expected_sha256 spec\<rparr>"
proof -
  obtain u1 q where b: "begin_upload env D rhash spec u = (u1, q)" by force
  note s = begin_upload_stages [OF assms(1,2) b]
  have T: "dirs_only (up_fs u) d" "d \<noteq> D" "with_extension (d @ [t]) (te_backup_ext (uv_tx env)) \<noteq> d @ [t]"
    using assms(2) by (simp_all add: upload_target_def)
  obtain k off where q: "q = Inr (k, off)"
    using assms(3,4) b begin_not_stored [of env D rhash spec u u1 r] by (cases q) (auto simp: upload_attempt_def)
  note o = s(2) [OF q]
  let ?b = "part_bytes (up_fs u1) (part_path D)"
  obtain st p where rc: "receive_upload (lc_sha256 (sx_log x)) (fs_total_size spec) (fs_expected_sha256 spec) (frames off)
      \<lparr>ul_part = ?b, ul_hashed = ?b, ul_received = off, ul_unsynced = 0\<rparr> = (st, p)" by force
  have fin: "finish_upload x env D rhash spec (d @ [t]) off (frames off) u1 = Some (u', Stored r)"
    using assms(4) b q o by (simp add: upload_attempt_def)
  have "D \<noteq> []" "dirs_only (up_fs u1) d" "fmlookup (se_file_requests (up_session u1)) (fs_request_id spec) = None"
    using assms(1,3) s(1) T(1,2) by (auto simp: staging_ok_def stages_def)
  note f = finish_upload_stored [OF conjunct1 [OF conjunct2 [OF o]] this(1,2) T(2,3) this(3) fin rc]
  note a = receive_accepted [OF rc [unfolded f(1)]]
  show ?thesis
    using f(2) a opened_bytes o by (auto simp: stored_as_def)
qed

section \<open>Interrupted and resumed\<close>

text \<open>The frames the server reads of a client that sends \<open>local\<close>: as many as there are outcomes,
  then the end of the stream or a read that fails.\<close>

definition client_frames :: "nat list \<Rightarrow> bytes \<Rightarrow> frame_io list \<Rightarrow> bool \<Rightarrow> u64 \<Rightarrow> upload_frame list" where
  "client_frames sizes local ios unreadable offset =
     map2 UploadMessage (send_body sizes local offset) ios @ (if unreadable then [UploadUnreadable] else [])"

definition frame_ok :: "frame_io \<Rightarrow> bool" where
  "frame_ok io \<longleftrightarrow> fi_admitted io \<and> fi_write_fails io = None \<and> fi_sync_ok io \<and> fi_headroom_ok io"

definition interruption :: "upload_error \<Rightarrow> bool" where
  "interruption e \<longleftrightarrow> e \<in> {UploadEndedEarly, UploadFrame, UploadBudget, UploadIo, UploadHeadroom}"

definition at_offset :: "bytes \<Rightarrow> u64 \<Rightarrow> upload_loop \<Rightarrow> bool" where
  "at_offset local off st \<longleftrightarrow> ul_received st = off \<and> off \<le> length local
     \<and> ul_part st = take off local \<and> ul_hashed st = take off local"

lemma read_size_bounds: "1 \<le> read_size sizes" "read_size sizes \<le> FILE_STREAM_CHUNK_BYTES"
  by (auto simp: read_size_def consts_simps split: list.splits)

lemma take_drop_extend: "take off xs @ take n (drop off xs) = take (off + n) xs"
  by (simp add: take_add)

lemma honest_chunk:
  assumes "at_offset local off st" "off < length local" "length local \<le> STREAM_FILE_MAX_BYTES"
    "data = take (read_size sizes) (drop off local)" "upload_chunk (length local) io off data st = (st', q)"
  shows "q = Inr () \<and> at_offset local (off + length data) st'
    \<or> (\<exists>e k. q = Inl e \<and> interruption e \<and> \<not> frame_ok io \<and> ul_part st' = take k local)"
proof -
  have data: "data \<noteq> []" "length data \<le> FILE_STREAM_CHUNK_BYTES" "off + length data \<le> length local"
      "take off local @ data = take (off + length data) local"
    using assms(2,4) read_size_bounds [of sizes] by (auto simp: take_add min_def)
  have fit: "checked_add off (length data) = Some (off + length data)"
    using data(3) assms(3) by (simp add: checked_add_def consts_simps u64_max_def)
  have pre: "\<exists>k. take off local @ take n data = take k local" for n
    using assms(4) take_drop_extend [of off local "min n (read_size sizes)"] by (auto simp: min_def)
  show ?thesis
    using assms(1,5) data fit pre
    by (auto simp: upload_chunk_def at_offset_def Let_def interruption_def frame_ok_def not_less
        split: if_splits option.splits)
qed

lemma send_body_nonempty: "send_body sizes local off \<noteq> []"
  by (subst send_body.simps) (simp add: Let_def)

lemma honest_receive:
  assumes "at_offset local off st" "length local \<le> STREAM_FILE_MAX_BYTES"
    "receive_upload sha (length local) (sha local) (client_frames sizes local ios unreadable off) st = (st', q)"
  shows "(\<exists>k. ul_part st' = take k local) \<and> (\<forall>digest. q = Inr digest \<longrightarrow> ul_part st' = local)
    \<and> (\<forall>e. q = Inl e \<longrightarrow> interruption e)
    \<and> (list_all frame_ok ios \<and> length (send_body sizes local off) \<le> length ios \<longrightarrow> q = Inr (sha local))"
  using assms
proof (induction sizes local off arbitrary: st ios rule: send_body.induct)
  case (1 sizes local off)
  let ?data = "take (read_size sizes) (drop off local)"
  have part: "ul_part st = take off local" using "1.prems"(1) by (simp add: at_offset_def)
  obtain m ms where m: "send_body sizes local off = m # ms"
    using send_body_nonempty [of sizes local off] by (cases "send_body sizes local off") auto
  show ?case
  proof (cases ios)
    case Nil
    then show ?thesis
      using "1.prems"(3) part m by (auto simp: client_frames_def interruption_def split: if_splits)
  next
    case (Cons io ios')
    show ?thesis
    proof (cases "fi_admitted io")
      case False
      then show ?thesis
        using "1.prems"(3) part Cons m by (auto simp: client_frames_def interruption_def frame_ok_def)
    next
      case adm: True
      show ?thesis
      proof (cases "length local \<le> off")
        case True
        then have st: "off = length local" "ul_part st = local" "ul_hashed st = local" "ul_received st = length local"
          using "1.prems"(1) by (simp_all add: at_offset_def)
        have "client_frames sizes local ios unreadable off = UploadMessage ReqFilePutStreamEnd io
            # (if unreadable then [UploadUnreadable] else [])"
          using True Cons by (simp add: client_frames_def send_body.simps [of sizes local off])
        then show ?thesis
          using "1.prems"(3) st adm by (auto simp: upload_end_def intro: exI [of _ "length local"])
      next
        case False
        then have len: "off < length local" by simp
        have body: "send_body sizes local off
            = ReqFilePutStreamChunk off ?data # send_body (tl sizes) local (off + length ?data)"
          using False by (subst send_body.simps) (simp add: Let_def)
        have fr: "client_frames sizes local ios unreadable off = UploadMessage (ReqFilePutStreamChunk off ?data) io
            # client_frames (tl sizes) local ios' unreadable (off + length ?data)"
          unfolding client_frames_def body Cons by simp
        obtain st1 p where c: "upload_chunk (length local) io off ?data st = (st1, p)" by force
        from honest_chunk [OF "1.prems"(1) len "1.prems"(2) refl c]
        show ?thesis
        proof
          assume ok: "p = Inr () \<and> at_offset local (off + length ?data) st1"
          then have "receive_upload sha (length local) (sha local)
              (client_frames (tl sizes) local ios' unreadable (off + length ?data)) st1 = (st', q)"
            using "1.prems"(3) adm c by (simp add: fr)
          from "1.IH" [OF False refl conjunct2 [OF ok] "1.prems"(2) this] show ?thesis
            unfolding body Cons by auto
        next
          assume "\<exists>e k. p = Inl e \<and> interruption e \<and> \<not> frame_ok io \<and> ul_part st1 = take k local"
          then show ?thesis using "1.prems"(3) [unfolded fr] adm c Cons by auto
        qed
      qed
    qed
  qed
qed

text \<open>What is staged for the request is a prefix of the client's file.\<close>

definition staged :: "bytes \<Rightarrow> path_key \<Rightarrow> string \<Rightarrow> file_upload_spec \<Rightarrow> upload_space \<Rightarrow> bool" where
  "staged local D rhash spec u \<longleftrightarrow> staging_ok D (up_fs u) \<and> anchored D (fs_request_id spec) u
     \<and> (fmlookup (up_fs u) (part_path D) = None
        \<or> (\<exists>k. fmlookup (up_fs u) (part_path D) = Some (FileNode (take k local))))
     \<and> fmlookup (up_pending u) (fs_request_id spec) \<in> {None, Some (pending_of rhash spec)}"

definition honest :: "session_codec \<Rightarrow> bytes \<Rightarrow> file_upload_spec \<Rightarrow> bool" where
  "honest x local spec \<longleftrightarrow> fs_total_size spec = length local \<and> length local \<le> STREAM_FILE_MAX_BYTES
     \<and> fs_expected_sha256 spec = lc_sha256 (sx_log x) local"

lemma staged_resume [simp]:
  "staged local D rhash (spec\<lparr>fs_resume := b\<rparr>) u = staged local D rhash spec u"
  "honest x local (spec\<lparr>fs_resume := b\<rparr>) = honest x local spec"
  by (simp_all add: staged_def pending_of_def honest_def)

lemma stages_staged: "stages D rhash spec u u' \<Longrightarrow> staged local D rhash spec u \<Longrightarrow> staged local D rhash spec u'"
  by (auto simp: stages_def staged_def shrunk_def intro: exI [of _ 0])

lemma staged_opened:
  assumes "staged local D rhash spec u" "opened D off u"
  shows "off \<le> length local" "part_bytes (up_fs u) (part_path D) = take off local"
  using assms by (auto simp: staged_def opened_def part_bytes_def part_in min_def split: if_splits)

lemma calm_staged:
  assumes "staged local D rhash spec u" "opened D off u" "calm (part_path D) (up_fs u) (ws_fs w)"
  shows "staged local D rhash spec (u\<lparr>up_ws := w\<rparr>)"
proof -
  have D: "D \<noteq> []" "dirs_only (ws_fs w) D"
    using assms calm_dirs [OF assms(3)] by (auto simp: staged_def staging_ok_def opened_def)
  then have "staging_ok D (ws_fs w)" "fmlookup (ws_fs w) D = Some DirNode"
    by (cases D rule: rev_cases; auto simp: staging_ok_def)+
  then show ?thesis using assms(1,3) by (auto simp: staged_def calm_def anchored_def)
qed

lemma remove_staged:
  "staged local D rhash spec u \<Longrightarrow> staged local D rhash spec (fst (remove_file_upload_staging ok D (fs_request_id spec) u))"
  using remove_staging_stages(1) stages_staged by (metis prod.collapse staged_def)

lemma release_staged: "staged local D rhash spec u \<Longrightarrow> staged local D rhash spec (release_upload u)"
  by (simp add: staged_def anchored_def)

lemma finish_staged:
  assumes "opened D off u" "staged local D rhash spec u" "honest x local spec" "dirs_only (up_fs u) d" "d \<noteq> D"
    "with_extension (d @ [t]) (te_backup_ext (uv_tx env)) \<noteq> d @ [t]"
    "finish_upload x env D rhash spec (d @ [t]) off (client_frames sizes local ios unreadable off) u = Some (u', out)"
  shows "staged local D rhash spec u'"
proof -
  note o = staged_opened [OF assms(2,1)]
  have h: "(if 0 < off then part_bytes (up_fs u) (part_path D) else []) = take off local" using o(2) by auto
  let ?st = "\<lparr>ul_part = take off local, ul_hashed = take off local, ul_received = off, ul_unsynced = 0\<rparr>"
  obtain st q where r: "receive_upload (lc_sha256 (sx_log x)) (fs_total_size spec) (fs_expected_sha256 spec)
      (client_frames sizes local ios unreadable off) ?st = (st, q)" by force
  have "at_offset local off ?st" using o(1) by (simp add: at_offset_def)
  then obtain k where k: "ul_part st = take k local"
    using honest_receive [of local off ?st "lc_sha256 (sx_log x)"] r assms(3) by (fastforce simp: honest_def)
  let ?u = "set_fs (write_part (part_path D) (ul_part st) (up_fs u)) u"
  note w = write_part_in [OF assms(1), where data = "ul_part st"]
  have D: "D \<noteq> []" using assms(2) by (simp add: staged_def staging_ok_def)
  have su: "staged local D rhash spec ?u"
    using opened_staging [OF w(3) D] assms(2) w(1) k by (auto simp: staged_def anchored_def)
  have dirs: "dirs_only (up_fs ?u) d" "dirs_only (up_fs ?u) D" using w(2) assms(1,4) by (simp_all add: opened_def)
  have com: "staged local D rhash spec (?u\<lparr>up_ws := w1\<rparr>)"
    if "commit_file_transaction x (uv_tx env) (fs_request_id spec) rhash (fs_path spec) (d @ [t])
        (part_path D) dg (fs_expected_base_sha256 spec) (fs_allow_blind spec) True (up_ws ?u) = Some (w1, out1)"
    for w1 out1 dg
    using calm_staged [OF su w(3)] commit_calm(1) [OF that dirs(1) part_path_def dirs(2) assms(5,6)] by simp
  show ?thesis
  proof (cases q)
    case (Inl e)
    then show ?thesis
      using assms(7) release_staged [OF su] remove_staged [OF release_staged [OF su]]
      by (auto simp: finish_upload_def Let_def h o(2) r split: if_splits)
  next
    case (Inr dg)
    then show ?thesis
      using assms(7) release_staged [OF su] com remove_staged [OF com]
      by (auto simp: finish_upload_def Let_def h o(2) r split: if_splits option.splits tx_outcome.splits)
  qed
qed

text \<open>The history of one upload: attempts that send the same file, from its start or resumed,
  each interrupted anywhere or refused; and what else happens between them, where a crash may
  cut the staged payload and pruning may remove it.\<close>

definition undisturbed :: "path_key \<Rightarrow> uuid \<Rightarrow> upload_space \<Rightarrow> upload_space \<Rightarrow> bool" where
  "undisturbed D rid u u' \<longleftrightarrow> staging_ok D (up_fs u') \<and> anchored D rid u'
     \<and> (case fmlookup (up_fs u') (part_path D) of None \<Rightarrow> True
        | Some n \<Rightarrow> \<exists>data k. fmlookup (up_fs u) (part_path D) = Some (FileNode data) \<and> n = FileNode (take k data))
     \<and> fmlookup (up_pending u') rid \<in> {None, fmlookup (up_pending u) rid}"

inductive upload_run ::
    "session_codec \<Rightarrow> bytes \<Rightarrow> path_key \<Rightarrow> string \<Rightarrow> file_upload_spec \<Rightarrow> upload_space \<Rightarrow> upload_space \<Rightarrow> bool"
  for x local D rhash spec u where
  run_start: "upload_run x local D rhash spec u u"
| run_attempt: "upload_run x local D rhash spec u u1 \<Longrightarrow> upload_target D env spec u1 d t
    \<Longrightarrow> upload_attempt x env D rhash (spec\<lparr>fs_resume := b\<rparr>) (client_frames sizes local ios unreadable) u1 = Some (u2, out)
    \<Longrightarrow> upload_run x local D rhash spec u u2"
| run_elsewhere: "upload_run x local D rhash spec u u1 \<Longrightarrow> undisturbed D (fs_request_id spec) u1 u2
    \<Longrightarrow> upload_run x local D rhash spec u u2"

lemma attempt_staged:
  assumes "staged local D rhash spec u" "honest x local spec" "upload_target D env spec u d t"
    "upload_attempt x env D rhash spec (client_frames sizes local ios unreadable) u = Some (u', out)"
  shows "staged local D rhash spec u'"
proof -
  obtain u1 q where b: "begin_upload env D rhash spec u = (u1, q)" by force
  have "staging_ok D (up_fs u)" using assms(1) by (simp add: staged_def)
  note s = begin_upload_stages [OF this assms(3) b]
  note s1 = stages_staged [OF s(1) assms(1)]
  show ?thesis
  proof (cases q)
    case (Inl e)
    then show ?thesis using assms(4) b s1 by (simp add: upload_attempt_def)
  next
    case (Inr ko)
    obtain k off where ko: "ko = (k, off)" by force
    have "k = d @ [t]" "opened D off u1" using s(2) Inr ko by simp_all
    then show ?thesis
      using assms(3,4) b s(1) Inr ko
      by (intro finish_staged [OF _ s1 assms(2)]) (auto simp: upload_attempt_def upload_target_def stages_def)
  qed
qed

lemma run_staged:
  assumes "upload_run x local D rhash spec u u'" "staged local D rhash spec u" "honest x local spec"
  shows "staged local D rhash spec u'"
  using assms
proof (induction rule: upload_run.induct)
  case (run_attempt u1 env d t b sizes ios unreadable u2 out)
  then show ?case
    using attempt_staged [of local D rhash "spec\<lparr>fs_resume := b\<rparr>" u1 x env d t] by (simp add: upload_target_def)
next
  case (run_elsewhere u1 u2)
  then show ?case
    by (auto simp: staged_def undisturbed_def split: option.splits) blast+
qed

section \<open>The last attempt\<close>

text \<open>A transaction in which no system call fails, on a new file or on the base the client knows,
  can only be refused by the event log.\<close>

definition smooth :: "tx_env \<Rightarrow> bool" where
  "smooth env \<longleftrightarrow> te_dirs_ok env \<and> te_mode_ok env \<and> te_intent_ok env \<and> te_backup_ok env \<and> te_backup_sync_ok env
     \<and> te_install_ok env \<and> te_install_sync_ok env \<and> te_crash env = None"

definition next_version :: "session \<Rightarrow> path_key \<Rightarrow> u64" where
  "next_version s k = (case fmlookup (se_file_versions s) k of None \<Rightarrow> 0 | Some v \<Rightarrow> v) + 1"

definition committable :: "session_codec \<Rightarrow> uuid \<Rightarrow> string \<Rightarrow> string \<Rightarrow> string \<Rightarrow> path_key \<Rightarrow> session \<Rightarrow> bool" where
  "committable x rid rhash path digest k s \<longleftrightarrow> session_lawful x \<and> live x s \<and> next_version s k \<le> u64_max
     \<and> storable_kind (FileMutation rid rhash path (next_version s k) digest)"

definition log_refuses ::
    "session_codec \<Rightarrow> tx_env \<Rightarrow> uuid \<Rightarrow> string \<Rightarrow> string \<Rightarrow> string \<Rightarrow> path_key \<Rightarrow> session \<Rightarrow> session_error \<Rightarrow> bool" where
  "log_refuses x env rid rhash path digest k s e \<longleftrightarrow>
     (\<exists>s'. append_locked x (te_append env) (te_now env) (FileMutation rid rhash path (next_version s k) digest) s
        = Some (s', Inl e))"

lemma log_refusesI: "record_mutation x (te_append env) (te_now env) rid rhash path (next_version s k) digest k s
    = Some (s', Inl (EventNotAppended e)) \<Longrightarrow> log_refuses x env rid rhash path digest k s e"
proof -
  assume h: "record_mutation x (te_append env) (te_now env) rid rhash path (next_version s k) digest k s
    = Some (s', Inl (EventNotAppended e))"
  then obtain s1 r where "append_locked x (te_append env) (te_now env)
      (FileMutation rid rhash path (next_version s k) digest) s = Some (s1, r)"
    by (auto simp: record_mutation_def)
  then show ?thesis using h by (cases r) (auto simp: record_mutation_def log_refuses_def)
qed

lemma install_succeeds:
  assumes "committable x rid rhash path digest (d @ [t]) (ws_session w)" "smooth env"
    "dirs_only (ws_fs w) d" "dirs_only (ws_fs w) D" "fmlookup (ws_fs w) (D @ [p]) = Some (FileNode body)"
    "fmlookup (ws_fs w) (d @ [t]) = None"
  shows "\<exists>w' out. install_transaction x env rid rhash path (d @ [t]) (D @ [p]) digest (next_version (ws_session w) (d @ [t]))
      backup intent w = Some (w', out) \<and> ((\<exists>r. out = TxDone r) \<or> (\<exists>e. out = TxFailed (EventNotAppended e)
        \<and> log_refuses x env rid rhash path digest (d @ [t]) (ws_session w) e))"
proof -
  have r: "rename_file (ws_fs w) (D @ [p]) (d @ [t]) = Some (fmupd (d @ [t]) (FileNode body) (fmdrop (D @ [p]) (ws_fs w)))"
    using assms(3-6) by (simp add: rename_file_def locate_in)
  have v: "saturating_add (case fmlookup (se_file_versions (ws_session w)) (d @ [t]) of None \<Rightarrow> 0 | Some v \<Rightarrow> v) 1
      = next_version (ws_session w) (d @ [t])"
    using assms(1) by (simp add: committable_def next_version_def saturating_add_def)
  have c: "session_lawful x" "live x (ws_session w)"
      "storable_kind (FileMutation rid rhash path (next_version (ws_session w) (d @ [t])) digest)"
    using assms(1) by (simp_all add: committable_def)
  have roll: "\<exists>w'. rollback_file_transaction sha env rid intent k k' b dg e w1 = (w', TxFailed e)" for sha k k' b dg e w1
    using assms(2) by (auto simp: rollback_file_transaction_def smooth_def split: sum.splits)
  show ?thesis
  proof (cases rule: record_mutation_result [OF c, where io = "te_append env" and now = "te_now env" and k = "d @ [t]"])
    case (1 s' e)
    then show ?thesis
      using assms(2) roll [of _ "d @ [t]" "D @ [p]" backup digest "EventNotAppended e"]
        log_refusesI [OF 1(1)]
      by (fastforce simp: install_transaction_def r v [unfolded One_nat_def] Let_def smooth_def)
  next
    case (2 s')
    then show ?thesis
      using assms(2) by (auto simp: install_transaction_def r v [unfolded One_nat_def] Let_def smooth_def tx_cleanup_def split: prod.splits)
  qed
qed

text \<open>The target as the client knows it: missing, or a file whose digest it names.\<close>

definition base_known ::
    "session_codec \<Rightarrow> tx_env \<Rightarrow> string option \<Rightarrow> file_system \<Rightarrow> path_key \<Rightarrow> bool" where
  "base_known x env expected fs k \<longleftrightarrow>
     (case fmlookup fs k of
        None \<Rightarrow> expected = None
      | Some (FileNode old) \<Rightarrow> length old \<le> STREAM_FILE_MAX_BYTES \<and> expected = Some (lc_sha256 (sx_log x) old)
          \<and> valid_sha256 (lc_sha256 (sx_log x) old) \<and> fmlookup fs (with_extension k (te_backup_ext env)) = None
      | Some _ \<Rightarrow> False)"

lemma commit_succeeds:
  assumes "committable x rid rhash path digest (d @ [t]) (ws_session w)" "smooth env"
    "dirs_only (ws_fs w) d" "dirs_only (ws_fs w) D" "fmlookup (ws_fs w) (D @ [p]) = Some (FileNode body)" "d \<noteq> D"
    "with_extension (d @ [t]) (te_backup_ext env) \<noteq> d @ [t]" "base_known x env expected (ws_fs w) (d @ [t])"
    "prefix (se_root (ws_session w)) d" "prefix (se_root (ws_session w)) D"
    "fmlookup (se_file_requests (ws_session w)) rid = None"
  shows "\<exists>w' out. commit_file_transaction x env rid rhash path (d @ [t]) (D @ [p]) digest expected blind True w = Some (w', out)
      \<and> ((\<exists>r. out = TxDone r) \<or> (\<exists>e. out = TxFailed (EventNotAppended e)
        \<and> log_refuses x env rid rhash path digest (d @ [t]) (ws_session w) e))"
proof -
  obtain v where v: "with_extension (d @ [t]) (te_backup_ext env) = d @ [v]" "v \<noteq> t"
    using assms(7) by (simp add: with_extension_def)
  have same: "w\<lparr>ws_fs := ws_fs w\<rparr> = w" "w\<lparr>ws_session := ws_session w\<rparr> = w" by simp_all
  have disk: "se_disk (ws_session w) \<noteq> None" using assms(1) live_disk by (auto simp: committable_def)
  have rel: "\<exists>r. workspace_relative_path (ws_session w) (E @ [n]) = Inr r" if "prefix (se_root (ws_session w)) E" for E n
    using that by (auto simp: workspace_relative_path_def)
  obtain tr br where tb: "workspace_relative_path (ws_session w) (D @ [p]) = Inr tr"
      "workspace_relative_path (ws_session w) (d @ [v]) = Inr br"
    using rel assms(9,10) by blast
  have ver: "checked_add (case fmlookup (se_file_versions (ws_session w)) (d @ [t]) of None \<Rightarrow> 0 | Some v \<Rightarrow> v) 1
      = Some (next_version (ws_session w) (d @ [t]))"
    using assms(1) by (simp add: committable_def next_version_def checked_add_def)
  have dg: "target_digest (lc_sha256 (sx_log x)) w (d @ [t]) expected blind = Inr expected
      \<and> validate_file_precondition expected expected blind = Inr ()"
    using assms(8) symlink_metadata_in [OF assms(3), of t]
    by (auto simp: base_known_def target_digest_def validate_file_precondition_def split: option.splits fs_node.splits)
  define backup where "backup = map_option (\<lambda>_. d @ [v]) expected"
  obtain w1 where w1: "prepare_transaction env rid rhash path (d @ [t]) (D @ [p]) digest expected w
        = (w1, Inr (next_version (ws_session w) (d @ [t]), backup, True))" "ws_fs w1 = ws_fs w" "ws_session w1 = ws_session w"
    using assms(2) disk tb
    by (cases expected) (auto simp: prepare_transaction_def Let_def ver [unfolded One_nat_def] v smooth_def backup_def)
  have inst: "\<exists>w' out. backup_and_install x env rid rhash path (d @ [t]) (D @ [p]) digest
        (next_version (ws_session w) (d @ [t])) backup True w1 = Some (w', out)
      \<and> ((\<exists>r. out = TxDone r) \<or> (\<exists>e. out = TxFailed (EventNotAppended e)
        \<and> log_refuses x env rid rhash path digest (d @ [t]) (ws_session w) e))"
  proof (cases expected)
    case None
    then have "fmlookup (ws_fs w1) (d @ [t]) = None"
      using assms(8) w1(2) by (auto simp: base_known_def split: option.splits fs_node.splits)
    then show ?thesis
      using install_succeeds [of x rid rhash path digest d t w1 env D p body] assms(1-5) w1 None
      by (simp add: backup_and_install_def backup_def)
  next
    case (Some dgo)
    then obtain old where old: "fmlookup (ws_fs w) (d @ [t]) = Some (FileNode old)" "fmlookup (ws_fs w) (d @ [v]) = None"
      using assms(8) v by (auto simp: base_known_def split: option.splits fs_node.splits)
    let ?fs = "fmupd (d @ [v]) (FileNode old) (fmdrop (d @ [t]) (ws_fs w))"
    have r: "rename_file (ws_fs w) (d @ [t]) (d @ [v]) = Some ?fs"
      using old locate_in [OF assms(3)] by (simp add: rename_file_def)
    have c: "calm (D @ [p]) (ws_fs w) ?fs" using rename_calm [OF r assms(3)] assms(6) by simp
    have "fmlookup ?fs (D @ [p]) = Some (FileNode body)" "fmlookup ?fs (d @ [t]) = None"
      using assms(5,6) v(2) by auto
    then show ?thesis
      using install_succeeds [of x rid rhash path digest d t "w1\<lparr>ws_fs := ?fs\<rparr>" env D p body] assms(1,2) w1(2,3)
        calm_dirs [OF c assms(3)] calm_dirs [OF c assms(4)] Some r
      by (simp add: backup_and_install_def backup_def smooth_def Let_def)
  qed
  then obtain w2 out where i: "backup_and_install x env rid rhash path (d @ [t]) (D @ [p]) digest
        (next_version (ws_session w) (d @ [t])) backup True w1 = Some (w2, out)"
      "(\<exists>r. out = TxDone r) \<or> (\<exists>e. out = TxFailed (EventNotAppended e)
        \<and> log_refuses x env rid rhash path digest (d @ [t]) (ws_session w) e)" by blast
  have "transact x env rid rhash path (d @ [t]) (D @ [p]) digest expected blind w = Some (w2, out)"
    using assms(2,5) symlink_metadata_in [OF assms(4), of p] dg w1(1) i(1)
    by (simp add: transact_def create_dir_all_dirs [OF assms(3)] smooth_def)
  then show ?thesis
    using assms(11) i(2)
    by (auto simp: commit_file_transaction_def cached_file_response_def drop_tx_reservation_def)
qed

lemma staging_session:
  "write_pending_file_upload ok D pending u = (u', q) \<Longrightarrow> up_session u' = up_session u"
  "remove_file_upload_staging ok D rid u = (u', q) \<Longrightarrow> up_session u' = up_session u"
  by (auto simp: write_pending_file_upload_def remove_file_upload_staging_def Let_def
      split: option.splits if_splits fs_node.splits)

lemma resume_succeeds:
  assumes "staged local D rhash spec u" "fs_total_size spec = length local" "uv_pending_ok env"
  shows "\<exists>u' off. resume_staging env D rhash spec u = (u', Inr off) \<and> dirs_only (up_fs u') D \<and> up_session u' = up_session u"
proof -
  have ok: "staging_ok D (up_fs u)" using assms(1) by (simp add: staged_def)
  obtain u1 q where w: "(if fmlookup (up_pending u) (fs_request_id spec) = None
        then write_pending_file_upload (uv_pending_ok env) D (pending_of rhash spec) u else (u, Inr ())) = (u1, q)"
    by force
  have u1: "q = Inr ()" "dirs_only (up_fs u1) D" "up_session u1 = up_session u"
      "fmlookup (up_fs u1) (part_path D) = fmlookup (up_fs u) (part_path D)"
    using w write_pending_stages(2-4) [OF ok] staging_session(1) assms(1,3) staging_dirs [OF ok]
    by (auto simp: staged_def anchored_def split: if_splits)
  show ?thesis
    using w u1 assms(1,2) part_in(2) [OF u1(2)] by (auto simp: resume_staging_def staged_def)
qed

lemma fresh_succeeds:
  assumes "staged local D rhash spec u" "uv_pending_ok env" "uv_remove_ok env"
  shows "\<exists>u'. fresh_staging env D rhash spec u = (u', Inr 0) \<and> dirs_only (up_fs u') D \<and> up_session u' = up_session u"
proof -
  have ok: "staging_ok D (up_fs u)" using assms(1) by (simp add: staged_def)
  obtain u1 q where w: "(if fmlookup (up_pending u) (fs_request_id spec) \<noteq> None
        \<or> symlink_metadata (ws_fs (up_ws u)) (part_path D) \<noteq> None
      then remove_file_upload_staging (uv_remove_ok env) D (fs_request_id spec) u else (u, Inr ())) = (u1, q)"
    by force
  have rem: "snd (remove_file_upload_staging True D (fs_request_id spec) u) = Inr ()"
  proof (cases "fmlookup (up_fs u) D")
    case None
    then show ?thesis using staging_metadata [OF ok] by (simp add: remove_file_upload_staging_def)
  next
    case (Some n)
    then have d: "fmlookup (up_fs u) D = Some DirNode" using ok by (auto simp: staging_ok_def)
    show ?thesis
      using staging_metadata [OF ok] d part_in(2) [OF staging_dirs [OF ok d]] assms(1)
      by (auto simp: remove_file_upload_staging_def staged_def Let_def)
  qed
  obtain u3 q3 where r: "remove_file_upload_staging True D (fs_request_id spec) u = (u3, q3)" by force
  then have "q3 = Inr ()" "up_session u3 = up_session u" "staging_ok D (up_fs u3)"
    using rem staging_session(2) [OF r] stages_ok [OF remove_staging_stages(1) [OF ok r]] by simp_all
  then have q: "q = Inr ()" "up_session u1 = up_session u" "staging_ok D (up_fs u1)"
    using w assms(3) r ok by (auto split: if_splits)
  obtain u2 q2 where w2: "write_pending_file_upload (uv_pending_ok env) D (pending_of rhash spec) u1 = (u2, q2)" by force
  note p = write_pending_stages(2,3) [OF q(3) w2] staging_session(1) [OF w2]
  show ?thesis using w w2 q p assms(2) by (simp add: fresh_staging_def)
qed

definition uv_smooth :: "upload_env \<Rightarrow> bool" where
  "uv_smooth env \<longleftrightarrow> uv_dirs_ok env \<and> uv_headroom_ok env \<and> uv_read_ok env \<and> uv_pending_ok env \<and> uv_remove_ok env
     \<and> uv_open_ok env \<and> uv_mode_ok env \<and> uv_hash_ok env
     \<and> uv_ready_ok env \<and> uv_sync_ok env \<and> uv_answer_ok env \<and> smooth (uv_tx env)"

lemma pending_of_matches: "upload_metadata_matches (pending_of rhash spec) (fs_request_id spec) rhash (fs_path spec)
    (fs_total_size spec) (fs_expected_sha256 spec) (fs_expected_base_sha256 spec) (fs_allow_blind spec)"
  by (simp add: upload_metadata_matches_def pending_of_def)

lemma stage_succeeds:
  assumes "staged local D rhash spec u" "fs_total_size spec = length local" "uv_smooth env"
  shows "\<exists>u' off. stage_upload env D rhash spec u = (u', Inr off) \<and> up_session u' = up_session u"
proof -
  have ok: "staging_ok D (up_fs u)" using assms(1) by (simp add: staged_def)
  obtain u1 off where w: "(if fs_resume spec then resume_staging env D rhash spec u
        else fresh_staging env D rhash spec u) = (u1, Inr off)" "dirs_only (up_fs u1) D" "up_session u1 = up_session u"
  proof (cases "fs_resume spec")
    case True
    then show ?thesis using resume_succeeds [OF assms(1,2), of env] assms(3) that by (auto simp: uv_smooth_def)
  next
    case False
    then show ?thesis using fresh_succeeds [OF assms(1), of env] assms(3) that by (auto simp: uv_smooth_def)
  qed
  have "stages D rhash spec u u1 \<and> (off = 0 \<or> (\<exists>data. fmlookup (up_fs u1) (part_path D) = Some (FileNode data)))"
  proof (cases "fs_resume spec")
    case True
    then have "resume_staging env D rhash spec u = (u1, Inr off)" using w(1) by simp
    from resume_staging_stages [OF ok this] show ?thesis by auto
  next
    case False
    then have "fresh_staging env D rhash spec u = (u1, Inr off)" using w(1) by simp
    from fresh_staging_stages [OF ok this] show ?thesis by auto
  qed
  then have s: "stages D rhash spec u u1"
      and off: "off = 0 \<or> (\<exists>data. fmlookup (up_fs u1) (part_path D) = Some (FileNode data))" by blast+
  have part: "fmlookup (up_fs u1) (part_path D) = None \<or> (\<exists>data. fmlookup (up_fs u1) (part_path D) = Some (FileNode data))"
    using stages_staged [OF s assms(1)] by (auto simp: staged_def)
  then have link: "reject_symlink (up_fs u1) (part_path D) = Inr ()"
    using part_in(2) [OF w(2)] by (auto simp: reject_symlink_def)
  obtain fs where "open_part True (part_path D) off (up_fs u1) = Some fs"
    using part off part_in(1) [OF w(2)] by (cases "off = 0") (auto simp: open_part_def)
  then show ?thesis
    using w link assms(1,3) pending_of_matches
    by (auto simp: stage_upload_def Let_def uv_smooth_def staged_def split: option.splits)
qed

definition upload_possible ::
    "session_codec \<Rightarrow> upload_env \<Rightarrow> path_key \<Rightarrow> string \<Rightarrow> file_upload_spec \<Rightarrow> path_key \<Rightarrow> string \<Rightarrow> upload_space \<Rightarrow> bool" where
  "upload_possible x env D rhash spec d t u \<longleftrightarrow> valid_sha256 (fs_expected_sha256 spec)
     \<and> (case fs_expected_base_sha256 spec of None \<Rightarrow> True | Some v \<Rightarrow> valid_sha256 v)
     \<and> se_idempotency_records (up_session u) < MAX_IDEMPOTENCY_RECORDS_PER_SESSION
     \<and> fmlookup (se_file_requests (up_session u)) (fs_request_id spec) = None
     \<and> committable x (fs_request_id spec) rhash (fs_path spec) (fs_expected_sha256 spec) (d @ [t]) (up_session u)
     \<and> base_known x (uv_tx env) (fs_expected_base_sha256 spec) (up_fs u) (d @ [t])
     \<and> prefix (se_root (up_session u)) d \<and> prefix (se_root (up_session u)) D \<and> d \<noteq> butlast D"

abbreviation with_record :: "session \<Rightarrow> session" where
  "with_record s \<equiv> s\<lparr>se_idempotency_records := se_idempotency_records s + 1\<rparr>"

lemma committable_record: "committable x rid rhash path digest k (with_record s) = committable x rid rhash path digest k s"
  by (simp add: committable_def next_version_def live_def session_log_def)

lemma begin_succeeds:
  assumes "staged local D rhash spec u" "honest x local spec" "upload_target D env spec u d t"
    "upload_possible x env D rhash spec d t u" "uv_smooth env"
  shows "\<exists>u' off. begin_upload env D rhash spec u = (u', Inr (d @ [t], off)) \<and> up_session u' = with_record (up_session u)"
proof -
  let ?u = "set_session (with_record (up_session u)) u"
  have "staged local D rhash spec ?u" using assms(1) by (simp add: staged_def anchored_def)
  from stage_succeeds [OF this _ assms(5)] obtain u1 off where
    st: "stage_upload env D rhash spec ?u = (u1, Inr off)" "up_session u1 = with_record (up_session u)"
    using assms(2) by (auto simp: honest_def)
  have res: "resolve_write_path (up_fs u) (se_root (up_session u)) (canonical_root (up_ws u)) (fs_path spec) = Inr (d @ [t])"
      and d: "create_dir_all (up_fs u) d = Some (up_fs u)"
    using assms(3) create_dir_all_dirs by (simp_all add: upload_target_def)
  have "se_disk (up_session u) \<noteq> None" using assms(4) live_disk by (auto simp: upload_possible_def committable_def)
  then show ?thesis
    using assms(2,4,5) st
    by (auto simp: begin_upload_def res d honest_def upload_possible_def uv_smooth_def cached_file_response_def
        reserve_idempotency_record_def split: option.splits)
qed

lemma base_known_stages:
  assumes "base_known x env expected fs (d @ [t])" "\<And>k. k \<noteq> part_path D \<Longrightarrow> k \<noteq> D \<Longrightarrow> fmlookup fs' k = fmlookup fs k"
    "d \<noteq> D" "d \<noteq> butlast D"
  shows "base_known x env expected fs' (d @ [t])"
proof -
  have "fmlookup fs' (d @ [n]) = fmlookup fs (d @ [n])" for n
    using assms(2) [of "d @ [n]"] assms(3,4) by (cases D rule: rev_cases) (auto simp: part_path_def)
  then show ?thesis using assms(1) unfolding base_known_def with_extension_def butlast_snoc last_snoc
    by (auto split: option.splits fs_node.splits)
qed

lemma send_body_length: "length (send_body sizes local off) \<le> length local - off + 1"
proof (induction sizes local off rule: send_body.induct)
  case (1 sizes local off)
  show ?case
    using "1.IH" read_size_bounds [of sizes] by (subst send_body.simps) (fastforce simp: Let_def min_def)
qed

lemma finish_succeeds:
  assumes "opened D off u" "staged local D rhash spec u" "honest x local spec" "dirs_only (up_fs u) d" "d \<noteq> D"
    "with_extension (d @ [t]) (te_backup_ext (uv_tx env)) \<noteq> d @ [t]" "uv_smooth env" "d \<noteq> butlast D"
    "fmlookup (se_file_requests (up_session u)) (fs_request_id spec) = None"
    "committable x (fs_request_id spec) rhash (fs_path spec) (fs_expected_sha256 spec) (d @ [t]) (up_session u)"
    "base_known x (uv_tx env) (fs_expected_base_sha256 spec) (up_fs u) (d @ [t])"
    "prefix (se_root (up_session u)) d" "prefix (se_root (up_session u)) D"
    "list_all frame_ok ios" "length local < length ios"
  shows "\<exists>u' out. finish_upload x env D rhash spec (d @ [t]) off (client_frames sizes local ios unreadable off) u = Some (u', out)
    \<and> ((\<exists>v. out = Stored (RespFileStored (fs_path spec) v (fs_expected_sha256 spec))
          \<and> fmlookup (up_fs u') (d @ [t]) = Some (FileNode local))
      \<or> (\<exists>e. out = Failed (UploadTransaction (EventNotAppended e))
        \<and> log_refuses x (uv_tx env) (fs_request_id spec) rhash (fs_path spec) (fs_expected_sha256 spec) (d @ [t]) (up_session u) e))"
proof -
  note o = staged_opened [OF assms(2,1)]
  have h: "(if 0 < off then part_bytes (up_fs u) (part_path D) else []) = take off local" using o(2) by auto
  let ?st = "\<lparr>ul_part = take off local, ul_hashed = take off local, ul_received = off, ul_unsynced = 0\<rparr>"
  obtain st q where r: "receive_upload (lc_sha256 (sx_log x)) (fs_total_size spec) (fs_expected_sha256 spec)
      (client_frames sizes local ios unreadable off) ?st = (st, q)" by force
  have at: "at_offset local off ?st" using o(1) by (simp add: at_offset_def)
  have "length (send_body sizes local off) \<le> length ios"
    using send_body_length [of sizes local off] assms(15) by simp
  then have q: "q = Inr (fs_expected_sha256 spec)" "ul_part st = local"
    using honest_receive [OF at, of "lc_sha256 (sx_log x)"] r assms(3,14) by (fastforce simp: honest_def)+
  let ?u = "set_fs (write_part (part_path D) (ul_part st) (up_fs u)) u"
  note w = write_part_in [OF assms(1), where data = "ul_part st"]
  have dirs: "dirs_only (up_fs ?u) d" "dirs_only (up_fs ?u) D" using w(2) assms(1,4) by (simp_all add: opened_def)
  have base: "base_known x (uv_tx env) (fs_expected_base_sha256 spec) (up_fs ?u) (d @ [t])"
    by (rule base_known_stages [OF assms(11) _ assms(5,8)]) (simp add: w(1))
  have P: "fmlookup (up_fs ?u) (D @ [''payload.part'']) = Some (FileNode (ul_part st))"
    using w(1) by (simp add: part_path_def)
  have "smooth (uv_tx env)" using assms(7) by (simp add: uv_smooth_def)
  from commit_succeeds [of x "fs_request_id spec" rhash "fs_path spec" "fs_expected_sha256 spec" d t "up_ws ?u", OF _ this dirs P
      assms(5,6) base] assms(9,10,12,13)
  obtain w1 out1 where c: "commit_file_transaction x (uv_tx env) (fs_request_id spec) rhash (fs_path spec) (d @ [t])
        (part_path D) (fs_expected_sha256 spec) (fs_expected_base_sha256 spec) (fs_allow_blind spec) True (up_ws ?u)
        = Some (w1, out1)" "(\<exists>r. out1 = TxDone r) \<or> (\<exists>e. out1 = TxFailed (EventNotAppended e)
        \<and> log_refuses x (uv_tx env) (fs_request_id spec) rhash (fs_path spec) (fs_expected_sha256 spec) (d @ [t]) (up_session u) e)"
    unfolding part_path_def by auto blast+
  obtain u' out where f: "finish_upload x env D rhash spec (d @ [t]) off (client_frames sizes local ios unreadable off) u
        = Some (u', out)"
      "(\<exists>r. out = Stored r) \<or> (\<exists>e. out = Failed (UploadTransaction (EventNotAppended e))
        \<and> log_refuses x (uv_tx env) (fs_request_id spec) rhash (fs_path spec) (fs_expected_sha256 spec) (d @ [t]) (up_session u) e)"
    using c assms(7) by (auto simp: finish_upload_def Let_def h o(2) r q uv_smooth_def)
  show ?thesis
  proof (cases "\<exists>r. out = Stored r")
    case True
    then obtain a where a: "out = Stored a" by blast
    have "D \<noteq> []" using assms(2) by (simp add: staged_def staging_ok_def)
    from finish_upload_stored(2) [OF assms(1) this assms(4-6,9) f(1) [unfolded a]] r q o(2)
    show ?thesis using f(1) a by (auto simp: stored_as_def)
  qed (use f in blast)
qed

lemma attempt_delivers:
  assumes "staged local D rhash spec u" "honest x local spec" "upload_target D env spec u d t"
    "upload_possible x env D rhash spec d t u" "uv_smooth env"
    "list_all frame_ok ios" "length local < length ios"
  shows "\<exists>u' out. upload_attempt x env D rhash spec (client_frames sizes local ios unreadable) u = Some (u', out)
    \<and> ((\<exists>v. out = Stored (RespFileStored (fs_path spec) v (fs_expected_sha256 spec))
          \<and> fmlookup (up_fs u') (d @ [t]) = Some (FileNode local))
      \<or> (\<exists>e. out = Failed (UploadTransaction (EventNotAppended e))
        \<and> log_refuses x (uv_tx env) (fs_request_id spec) rhash (fs_path spec) (fs_expected_sha256 spec) (d @ [t]) (with_record (up_session u)) e))"
proof -
  obtain u1 off where b: "begin_upload env D rhash spec u = (u1, Inr (d @ [t], off))" "up_session u1 = with_record (up_session u)"
    using begin_succeeds [OF assms(1-5)] by blast
  have ok: "staging_ok D (up_fs u)" using assms(1) by (simp add: staged_def)
  note g = begin_upload_stages [OF ok assms(3) b(1)]
  have T: "dirs_only (up_fs u1) d" "d \<noteq> D" "with_extension (d @ [t]) (te_backup_ext (uv_tx env)) \<noteq> d @ [t]"
    using assms(3) g(1) by (auto simp: upload_target_def stages_def)
  note p = assms(4) [unfolded upload_possible_def]
  have base: "base_known x (uv_tx env) (fs_expected_base_sha256 spec) (up_fs u1) (d @ [t])"
    using base_known_stages [of x "uv_tx env" _ "up_fs u" d t D] g(1) p T(2) by (simp add: stages_def)
  have "opened D off u1" using g(2) by blast
  from finish_succeeds [OF this stages_staged [OF g(1) assms(1)] assms(2) T assms(5) _ _ _ base _ _ assms(6,7)]
  show ?thesis using p b committable_record by (simp add: upload_attempt_def)
qed

text \<open>Claim C11.  A client that keeps uploading the same file gets it stored: after any number of
  attempts that were cut off, failed or restarted from the beginning, and of crashes that cut
  the staged payload, an attempt in which the client's frames get through and the system calls
  succeed returns; it installs exactly the client's file, unless the event log refuses the
  event.  The staged prefix is never mistaken for another body and never discarded for a
  wrong digest.\<close>

theorem resumed_upload_delivers_file:
  assumes "staging_ok D (up_fs u0)" "fmlookup (up_fs u0) (part_path D) = None"
    "fmlookup (up_pending u0) (fs_request_id spec) = None" "honest x local spec"
    "upload_run x local D rhash spec u0 u" "upload_target D env spec u d t"
    "upload_possible x env D rhash spec d t u" "uv_smooth env"
    "list_all frame_ok ios" "length local < length ios"
  shows "\<exists>u' out. upload_attempt x env D rhash spec (client_frames sizes local ios unreadable) u = Some (u', out)
    \<and> ((\<exists>v. out = Stored (RespFileStored (fs_path spec) v (fs_expected_sha256 spec))
          \<and> fmlookup (up_fs u') (d @ [t]) = Some (FileNode local))
      \<or> (\<exists>e. out = Failed (UploadTransaction (EventNotAppended e))
        \<and> log_refuses x (uv_tx env) (fs_request_id spec) rhash (fs_path spec) (fs_expected_sha256 spec) (d @ [t]) (with_record (up_session u)) e))"
proof -
  have "staged local D rhash spec u0" using assms(1-3) by (simp add: staged_def anchored_def)
  from run_staged [OF assms(5) this assms(4)] show ?thesis by (rule attempt_delivers [OF _ assms(4,6-10)])
qed

section \<open>An upload to exercise the properties\<close>

definition up_env :: upload_env where
  "up_env = \<lparr>uv_dirs_ok = True, uv_headroom_ok = True, uv_read_ok = True, uv_pending_ok = True, uv_remove_ok = True,
     uv_open_ok = True, uv_mode_ok = True, uv_hash_ok = True,
     uv_ready_ok = True, uv_sync_ok = True, uv_answer_ok = True, uv_tx = (tx_env_at None)\<lparr>te_install_sync_ok := True\<rparr>\<rparr>"

definition up_spec :: file_upload_spec where
  "up_spec = \<lparr>fs_request_id = 9, fs_path = ''f.txt'', fs_total_size = 1, fs_expected_sha256 = replicate 64 (CHR ''b''),
     fs_expected_base_sha256 = None, fs_allow_blind = False, fs_resume = True\<rparr>"

definition up_directory :: path_key where
  "up_directory = [''w'', ''.asp'', ''9'']"

definition up_files :: file_system where
  "up_files = fmap_of_list [([''w''], DirNode), ([''w'', ''.asp''], DirNode)]"

definition up_space :: upload_space where
  "up_space = \<lparr>up_ws = \<lparr>ws_fs = up_files, ws_intents = fmempty, ws_session = tx_session\<rparr>, up_pending = fmempty\<rparr>"

definition up_io :: frame_io where
  "up_io = \<lparr>fi_admitted = True, fi_write_fails = None, fi_sync_ok = True, fi_headroom_ok = True\<rparr>"

lemma tx_record: "\<not> log_refuses tx_codec (uv_tx up_env) 9 ''h'' ''f.txt'' (replicate 64 (CHR ''b'')) k (with_record tx_session) e"
proof -
  let ?kind = "FileMutation 9 ''h'' ''f.txt'' 1 (replicate 64 (CHR ''b''))"
  have j: "se_journal tx_session = journal_from_loaded [] 0 None" "se_disk tx_session = Some tx_disk"
    by (simp_all add: tx_session_def session_from_loaded_def default_loaded_def Let_def)
  obtain jn where e: "journal_append 5 ?kind (journal_from_loaded [] 0 None) = (jn, tx_event)"
    by (simp add: journal_append_def journal_from_loaded_def tx_event_def Let_def)
  have "snd (disk_append (sx_log tx_codec) (te_append (uv_tx up_env)) tx_event tx_disk) = Inr ()"
    by (simp add: disk_append_def tx_codec_def tx_disk_def Let_def write_active_def up_env_def tx_env_at_def
        log_file_def log_header_def saturating_add_def int_bounds consts_simps)
  then obtain dn where d: "disk_append (sx_log tx_codec) (te_append (uv_tx up_env)) tx_event tx_disk = (dn, Inr ())"
    by (metis prod.collapse)
  have "next_version (with_record tx_session) k = 1" "te_now (uv_tx up_env) = 5"
    by (simp_all add: next_version_def up_env_def tx_env_at_def)
  then show ?thesis
    by (simp add: log_refuses_def append_locked_def j e [unfolded One_nat_def] persist_event_def d Let_def)
qed

lemma up_dirs: "dirs_only up_files [''w'', ''.asp'']"
  by (auto simp: dirs_only_def up_files_def prefix_Cons)

lemma up_staging: "staging_ok up_directory (up_fs up_space)"
    "fmlookup (up_fs up_space) (part_path up_directory) = None" "fmlookup (up_pending up_space) n = None"
  using up_dirs by (simp_all add: staging_ok_def up_directory_def up_space_def up_files_def part_path_def)

lemma up_target: "upload_target up_directory up_env up_spec up_space [''w''] ''f.txt''"
proof -
  have d: "dirs_only up_files [''w'']" using dirs_only_prefix [OF up_dirs] by simp
  have "canonical_root (up_ws up_space) = [''w'']"
    using canonical_root_in [of "up_ws up_space" "[''w'']"] d by (simp add: up_space_def)
  moreover have "check_ancestor up_files [''w''] ([''w''] @ [''f.txt'']) = Inr ([''w''] @ [''f.txt''])"
    using check_ancestor_in [OF d, of "[''w'']" "''f.txt''"] by (simp add: up_files_def)
  moreover have "resolve_path [''w''] ''f.txt'' = Inr [''w'', ''f.txt'']" by code_simp
  ultimately show ?thesis
    using d by (simp add: upload_target_def resolve_write_path_def up_space_def up_spec_def up_env_def tx_env_at_def
        with_extension_def file_stem_def up_directory_def Let_def)
qed

lemma up_honest: "honest tx_codec [2] up_spec"
  by (simp add: honest_def up_spec_def tx_sha consts_simps)

lemma up_smooth: "uv_smooth up_env" "frame_ok up_io"
  by (simp_all add: uv_smooth_def smooth_def up_env_def tx_env_at_def frame_ok_def up_io_def)

lemma up_possible: "upload_possible tx_codec up_env up_directory ''h'' up_spec [''w''] ''f.txt'' up_space"
proof -
  have "se_idempotency_records tx_session < MAX_IDEMPOTENCY_RECORDS_PER_SESSION"
    by (simp add: tx_session_def session_from_loaded_def default_loaded_def Let_def consts_simps
        empty_materialized_def saturating_add_def)
  then show ?thesis
    using tx_codec_lawful tx_session_live
    by (simp add: upload_possible_def up_spec_def up_space_def up_directory_def valid_sha256_def is_ascii_hexdigit_def
        byte_of_def list_all_iff committable_def next_version_def base_known_def up_files_def int_bounds
        storable_kind_def event_variable_bytes_def saturating_add_def consts_simps)
qed

abbreviation up_frames :: "u64 \<Rightarrow> upload_frame list" where
  "up_frames \<equiv> client_frames [] [2] [up_io, up_io] False"

lemma up_stored: "\<exists>u' r. upload_attempt tx_codec up_env up_directory ''h'' up_spec up_frames up_space = Some (u', Stored r)"
proof -
  have "staged [2] up_directory ''h'' up_spec up_space" using up_staging by (simp add: staged_def anchored_def)
  from attempt_delivers [OF this up_honest up_target up_possible up_smooth(1), of "[up_io, up_io]" "[]" False]
  show ?thesis using up_smooth(2) tx_record by (auto simp: up_space_def up_spec_def)
qed

theorem streamed_upload_installs_declared_body_witness:
  "\<exists>u' r. upload_attempt tx_codec up_env up_directory ''h'' up_spec up_frames up_space = Some (u', Stored r)
    \<and> (\<exists>body. fmlookup (up_fs u') [''w'', ''f.txt''] = Some (FileNode body) \<and> length body = 1
        \<and> lc_sha256 (sx_log tx_codec) body = replicate 64 (CHR ''b''))"
proof -
  obtain u' r where a: "upload_attempt tx_codec up_env up_directory ''h'' up_spec up_frames up_space = Some (u', Stored r)"
    using up_stored by blast
  have "fmlookup (se_file_requests (up_session up_space)) (fs_request_id up_spec) = None" by (simp add: up_space_def)
  from streamed_upload_installs_declared_body [OF up_staging(1) up_target this a]
  show ?thesis using a by (auto simp: up_spec_def)
qed

theorem resumed_upload_delivers_file_witness:
  "\<exists>u' out. upload_attempt tx_codec up_env up_directory ''h'' up_spec up_frames up_space = Some (u', out)
    \<and> (\<exists>v. out = Stored (RespFileStored ''f.txt'' v (replicate 64 (CHR ''b''))))
    \<and> fmlookup (up_fs u') [''w'', ''f.txt''] = Some (FileNode [2])"
  using resumed_upload_delivers_file [OF up_staging(1,2,3) up_honest run_start up_target up_possible up_smooth(1),
      of "[up_io, up_io]" "[]" False] up_smooth(2) tx_record
  by (auto simp: up_space_def up_spec_def)

end
