(* ===== verification/Access.thy ===== *)
theory Access
  imports Session
begin

text \<open>
  Who may do what: credentials and their files, scopes, session ownership, the failure window
  of a source address, the byte budgets and the leases of a principal.

  The decoders of the two JSON maps are parameters.  A credential file is read once per lookup;
  instants are natural numbers of nanoseconds.  The counters that only feed the health report
  and the audit trail are left out.
\<close>

section \<open>Principals\<close>

record auth_principal =
  ap_id :: string
  ap_credential :: string
  ap_certificate_sha256 :: "string option"
  ap_scopes :: "string list"

record auth_principal_config =
  pc_token :: string
  pc_scopes :: "string list"

record auth_certificate_config =
  cc_certificate_sha256 :: string
  cc_scopes :: "string list"

definition default_auth_scopes :: "string list" where
  "default_auth_scopes = [''*'']"

definition anonymous :: auth_principal where
  "anonymous = \<lparr>ap_id = ''anonymous'', ap_credential = [], ap_certificate_sha256 = None,
     ap_scopes = default_auth_scopes\<rparr>"

definition legacy :: "string \<Rightarrow> auth_principal" where
  "legacy credential = \<lparr>ap_id = ''legacy'', ap_credential = credential, ap_certificate_sha256 = None,
     ap_scopes = default_auth_scopes\<rparr>"

definition allows :: "auth_principal \<Rightarrow> string \<Rightarrow> bool" where
  "allows p scope \<longleftrightarrow> list_ex (\<lambda>value. value = ''*'' \<or> value = scope) (ap_scopes p)"

definition validate_principal_id :: "string \<Rightarrow> bool" where
  "validate_principal_id pid \<longleftrightarrow> 1 \<le> length pid \<and> length pid \<le> 256 \<and> CHR 0x00 \<notin> set pid"

definition valid_scopes :: "string list \<Rightarrow> bool" where
  "valid_scopes scopes \<longleftrightarrow> scopes \<noteq> []
     \<and> list_all (\<lambda>s. s \<noteq> [] \<and> length s \<le> 128 \<and> CHR 0x00 \<notin> set s) scopes"

definition valid_certificate_fingerprint :: "string \<Rightarrow> bool" where
  "valid_certificate_fingerprint value \<longleftrightarrow> length value = 64 \<and> list_all (\<lambda>c. is_ascii_hexdigit (byte_of c)) value"

definition to_ascii_lowercase :: "string \<Rightarrow> string" where
  "to_ascii_lowercase s = map (\<lambda>c. if 65 \<le> byte_of c \<and> byte_of c \<le> 90 then char_of (byte_of c + 32) else c) s"

definition eq_ignore_ascii_case :: "string \<Rightarrow> string \<Rightarrow> bool" where
  "eq_ignore_ascii_case a b \<longleftrightarrow> to_ascii_lowercase a = to_ascii_lowercase b"

section \<open>Text files\<close>

text \<open>\<open>String::from_utf8\<close> and \<open>str::trim\<close>.\<close>

definition continuation :: "nat \<Rightarrow> nat \<Rightarrow> byte \<Rightarrow> bool" where
  "continuation lo hi b \<longleftrightarrow> lo \<le> unat b \<and> unat b \<le> hi"

fun utf8_valid :: "bytes \<Rightarrow> bool" where
  "utf8_valid [] = True"
| "utf8_valid (b # bs) = (let n = unat b in
     if n < 128 then utf8_valid bs
     else if 194 \<le> n \<and> n \<le> 223 then
       (case bs of c # r \<Rightarrow> continuation 128 191 c \<and> utf8_valid r | _ \<Rightarrow> False)
     else if 224 \<le> n \<and> n \<le> 239 then
       (case bs of c # d # r \<Rightarrow>
          continuation (if n = 224 then 160 else 128) (if n = 237 then 159 else 191) c
          \<and> continuation 128 191 d \<and> utf8_valid r
        | _ \<Rightarrow> False)
     else if 240 \<le> n \<and> n \<le> 244 then
       (case bs of c # d # e # r \<Rightarrow>
          continuation (if n = 240 then 144 else 128) (if n = 244 then 143 else 191) c
          \<and> continuation 128 191 d \<and> continuation 128 191 e \<and> utf8_valid r
        | _ \<Rightarrow> False)
     else False)"

definition from_utf8 :: "bytes \<Rightarrow> string option" where
  "from_utf8 b = (if utf8_valid b then Some (map (\<lambda>w. char_of (unat w)) b) else None)"

definition char_width :: "char \<Rightarrow> nat" where
  "char_width c = (let b = byte_of c in if b < 128 then 1 else if b < 224 then 2 else if b < 240 then 3 else 4)"

fun str_pieces :: "string \<Rightarrow> string list" where
  "str_pieces [] = []"
| "str_pieces (c # cs) = (c # take (char_width c - 1) cs) # str_pieces (drop (char_width c - 1) cs)"

definition str_trim :: "string \<Rightarrow> string" where
  "str_trim s = (let blank = (\<lambda>p. list_all is_whitespace (str_chars p)) in
     concat (rev (dropWhile blank (rev (dropWhile blank (str_pieces s))))))"

section \<open>Credential files\<close>

record auth_file_stamp =
  st_length :: u64
  st_modified :: "u64 option"
  st_file_id :: "(u64 \<times> u64) option"

text \<open>A regular file; \<^const>\<open>None\<close> stands for a missing path, a symlink or another node.\<close>

record auth_file =
  af_stamp :: auth_file_stamp
  af_bytes :: bytes

definition read_file_limited :: "auth_file option \<Rightarrow> u64 \<Rightarrow> bytes option" where
  "read_file_limited f maximum =
     (case f of None \<Rightarrow> None | Some f \<Rightarrow> if maximum < length (af_bytes f) then None else Some (af_bytes f))"

type_synonym 'a auth_cache = "(auth_file_stamp \<times> 'a) option"

text \<open>The loaders of the token, of the principals and of the certificates differ in the
  limit and the decoder.\<close>

definition load_cached ::
    "(bytes \<Rightarrow> 'a option) \<Rightarrow> u64 \<Rightarrow> auth_file option \<Rightarrow> 'a auth_cache \<Rightarrow> 'a auth_cache \<times> 'a option" where
  "load_cached decode maximum f cache =
     (case f of
        None \<Rightarrow> (cache, None)
      | Some file \<Rightarrow>
      let stamp = af_stamp file in
      if st_modified stamp \<noteq> None \<and> map_option fst cache = Some stamp then (cache, map_option snd cache)
      else case Option.bind (read_file_limited f maximum) decode of
        None \<Rightarrow> (cache, None)
      | Some value \<Rightarrow> (if st_modified stamp \<noteq> None then Some (stamp, value) else cache, Some value))"

definition MAX_AUTH_CONFIG_BYTES :: u64 where [consts_simps]:
  "MAX_AUTH_CONFIG_BYTES = 8388608"

record auth_codec =
  ax_principals :: "bytes \<Rightarrow> (string, auth_principal_config) fmap option"
  ax_certificates :: "bytes \<Rightarrow> (string, auth_certificate_config) fmap option"

record auth_files =
  fl_token :: "auth_file option"
  fl_principals :: "auth_file option"
  fl_certificates :: "auth_file option"

definition token_value :: "bytes \<Rightarrow> string option" where
  "token_value b = map_option str_trim (from_utf8 b)"

section \<open>The store\<close>

datatype ip_addr = V4 "32 word" | V6 "128 word"

definition ip_key :: "ip_addr \<Rightarrow> nat \<times> nat" where
  "ip_key a = (case a of V4 w \<Rightarrow> (0, unat w) | V6 w \<Rightarrow> (1, unat w))"

instantiation ip_addr :: linorder
begin

definition less_eq_ip_addr :: "ip_addr \<Rightarrow> ip_addr \<Rightarrow> bool" where
  "a \<le> b \<longleftrightarrow> fst (ip_key a) < fst (ip_key b) \<or> fst (ip_key a) = fst (ip_key b) \<and> snd (ip_key a) \<le> snd (ip_key b)"

definition less_ip_addr :: "ip_addr \<Rightarrow> ip_addr \<Rightarrow> bool" where
  "(a :: ip_addr) < b \<longleftrightarrow> a \<le> b \<and> \<not> b \<le> a"

instance
proof
  have inj: "ip_key a = ip_key b \<Longrightarrow> a = b" for a b
    by (cases a; cases b) (auto simp: ip_key_def word_unat_eq_iff)
  show "a < b \<longleftrightarrow> a \<le> b \<and> \<not> b \<le> a" for a b :: ip_addr by (simp add: less_ip_addr_def)
  show "a \<le> a" for a :: ip_addr by (simp add: less_eq_ip_addr_def)
  show "a \<le> c" if "a \<le> b" "b \<le> c" for a b c :: ip_addr using that by (auto simp: less_eq_ip_addr_def)
  show "a = b" if "a \<le> b" "b \<le> a" for a b :: ip_addr
    using that by (intro inj prod_eqI) (auto simp: less_eq_ip_addr_def)
  show "a \<le> b \<or> b \<le> a" for a b :: ip_addr by (auto simp: less_eq_ip_addr_def)
qed

end

record byte_budget_window =
  bw_started :: nat
  bw_bytes :: u64

record auth_failure_window =
  aw_started :: nat
  aw_failures :: u32
  aw_blocked_until :: "nat option"

record access_store =
  as_auth_token :: "string option"
  as_auth_token_file :: bool
  as_auth_principals_file :: bool
  as_auth_certificates_file :: bool
  as_token_cache :: "string auth_cache"
  as_principals_cache :: "(string, auth_principal_config) fmap auth_cache"
  as_certificates_cache :: "(string, auth_certificate_config) fmap auth_cache"
  as_auth_failure_windows :: "(ip_addr, auth_failure_window) fmap"
  as_principal_byte_windows :: "(string \<times> string, byte_budget_window) fmap"
  as_response_byte_windows :: "(string, byte_budget_window) fmap"
  as_request_bytes_limit :: u64
  as_response_bytes_limit :: u64
  as_active_connections :: usize
  as_principal_connections :: "(string, usize) fmap"
  as_principal_request_streams :: "(string, usize) fmap"
  as_min_free_bytes :: u64
  as_draining :: bool
  as_sessions :: "(uuid, session) fmap"
  as_open_requests :: "(uuid, uuid) fmap"

definition set_auth_token_file :: "access_store \<Rightarrow> access_store" where
  "set_auth_token_file s = s\<lparr>as_auth_token_file := True, as_token_cache := None\<rparr>"

definition set_auth_principals_file :: "access_store \<Rightarrow> access_store" where
  "set_auth_principals_file s = s\<lparr>as_auth_principals_file := True, as_principals_cache := None\<rparr>"

definition set_auth_certificates_file :: "access_store \<Rightarrow> access_store" where
  "set_auth_certificates_file s = s\<lparr>as_auth_certificates_file := True, as_certificates_cache := None\<rparr>"

definition auth_required :: "access_store \<Rightarrow> bool" where
  "auth_required s \<longleftrightarrow> as_auth_token s \<noteq> None \<or> as_auth_token_file s \<or> as_auth_principals_file s
     \<or> as_auth_certificates_file s"

section \<open>Authentication\<close>

definition principal_matches :: "string \<Rightarrow> string \<times> auth_principal_config \<Rightarrow> bool" where
  "principal_matches provided = (\<lambda>(pid, config). validate_principal_id pid
     \<and> 32 \<le> length (pc_token config) \<and> length (pc_token config) \<le> 4096
     \<and> valid_scopes (pc_scopes config) \<and> pc_token config = provided)"

definition match_principal :: "string \<Rightarrow> (string, auth_principal_config) fmap \<Rightarrow> auth_principal option" where
  "match_principal provided configs =
     (if 4096 < fmsize configs then None
      else case filter (principal_matches provided) (sorted_list_of_fmap configs) of
        [(pid, config)] \<Rightarrow> Some \<lparr>ap_id = pid, ap_credential = provided, ap_certificate_sha256 = None,
          ap_scopes = pc_scopes config\<rparr>
      | _ \<Rightarrow> None)"

definition match_token :: "string \<Rightarrow> string \<Rightarrow> auth_principal option" where
  "match_token provided expected =
     (if \<not> (32 \<le> length expected \<and> length expected \<le> 4096) \<or> expected \<noteq> provided then None
      else Some (legacy provided))"

definition authenticate ::
    "auth_codec \<Rightarrow> auth_files \<Rightarrow> string \<Rightarrow> access_store \<Rightarrow> access_store \<times> auth_principal option" where
  "authenticate x files provided s =
     (if \<not> auth_required s then (s, Some anonymous)
      else if as_auth_principals_file s then
        let (cache, configs) = load_cached (ax_principals x) MAX_AUTH_CONFIG_BYTES (fl_principals files)
              (as_principals_cache s)
        in (s\<lparr>as_principals_cache := cache\<rparr>, Option.bind configs (match_principal provided))
      else if as_auth_token_file s then
        let (cache, expected) = load_cached token_value 4096 (fl_token files) (as_token_cache s)
        in (s\<lparr>as_token_cache := cache\<rparr>, Option.bind expected (match_token provided))
      else (s, Option.bind (as_auth_token s) (match_token provided)))"

definition certificate_matches :: "string \<Rightarrow> string \<times> auth_certificate_config \<Rightarrow> bool" where
  "certificate_matches provided = (\<lambda>(pid, config). validate_principal_id pid
     \<and> valid_certificate_fingerprint (cc_certificate_sha256 config) \<and> valid_scopes (cc_scopes config)
     \<and> eq_ignore_ascii_case (cc_certificate_sha256 config) provided)"

definition match_certificate :: "string \<Rightarrow> (string, auth_certificate_config) fmap \<Rightarrow> auth_principal option" where
  "match_certificate provided configs =
     (if 4096 < fmsize configs then None
      else case filter (certificate_matches provided) (sorted_list_of_fmap configs) of
        [(pid, config)] \<Rightarrow>
          let fingerprint = to_ascii_lowercase (cc_certificate_sha256 config)
          in Some \<lparr>ap_id = pid, ap_credential = ''cert:'' @ fingerprint,
               ap_certificate_sha256 = Some fingerprint, ap_scopes = cc_scopes config\<rparr>
      | _ \<Rightarrow> None)"

definition authenticate_certificate ::
    "auth_codec \<Rightarrow> auth_files \<Rightarrow> string \<Rightarrow> access_store \<Rightarrow> access_store \<times> auth_principal option" where
  "authenticate_certificate x files provided s =
     (if \<not> as_auth_certificates_file s \<or> \<not> valid_certificate_fingerprint provided then (s, None)
      else
        let (cache, configs) = load_cached (ax_certificates x) MAX_AUTH_CONFIG_BYTES (fl_certificates files)
              (as_certificates_cache s)
        in (s\<lparr>as_certificates_cache := cache\<rparr>, Option.bind configs (match_certificate provided)))"

definition principal_current ::
    "auth_codec \<Rightarrow> auth_files \<Rightarrow> auth_principal \<Rightarrow> access_store \<Rightarrow> access_store \<times> bool" where
  "principal_current x files p s =
     (let (s, fresh) = (case ap_certificate_sha256 p of
            Some fingerprint \<Rightarrow> authenticate_certificate x files fingerprint s
          | None \<Rightarrow> authenticate x files (ap_credential p) s)
      in (s, fresh = Some p))"

section \<open>Scopes and sessions\<close>

datatype access_error =
    ForbiddenScope string
  | UnknownSession uuid
  | ForbiddenSession
  | SessionLimit
  | PrincipalSessionLimit
  | OpenNotPersisted
  | SessionNotCreated
  | ConnectionLimit
  | PrincipalConnectionLimit
  | PrincipalStreamLimit
  | ByteBudgetTableFull
  | ByteBudgetExceeded
  | HeadroomExhausted

definition require_scope :: "auth_principal \<Rightarrow> string \<Rightarrow> access_error + unit" where
  "require_scope p scope = (if allows p scope then Inr () else Inl (ForbiddenScope scope))"

definition get_session :: "access_store \<Rightarrow> uuid \<Rightarrow> access_error + session" where
  "get_session s sid = ok_or (UnknownSession sid) (fmlookup (as_sessions s) sid)"

definition get_authorized :: "access_store \<Rightarrow> uuid \<Rightarrow> auth_principal \<Rightarrow> string \<Rightarrow> access_error + session" where
  "get_authorized s sid p scope =
     and_then (require_scope p scope) (\<lambda>_. and_then (get_session s sid) (\<lambda>session.
       if se_owner session \<noteq> ap_id p then Inl ForbiddenSession else Inr session))"

definition MAX_SESSIONS :: usize where [consts_simps]: "MAX_SESSIONS = 256"

definition MAX_SESSIONS_PER_PRINCIPAL :: usize where [consts_simps]: "MAX_SESSIONS_PER_PRINCIPAL = 64"

text \<open>A fresh identifier, whether the aliases can be written, and the session that
  \<open>Session::persisted\<close> creates for it, if it can.\<close>

record open_env =
  oe_id :: uuid
  oe_persist_ok :: bool
  oe_created :: "session option"

definition open_session ::
    "open_env \<Rightarrow> uuid \<Rightarrow> auth_principal \<Rightarrow> access_store \<Rightarrow> access_store \<times> (access_error + session)" where
  "open_session env request_id p s =
     (case require_scope p ''session:create'' of
        Inl e \<Rightarrow> (s, Inl e)
      | Inr _ \<Rightarrow>
      (case Option.bind (fmlookup (as_open_requests s) request_id) (fmlookup (as_sessions s)) of
        Some session \<Rightarrow> (s, if se_owner session \<noteq> ap_id p then Inl ForbiddenSession else Inr session)
      | None \<Rightarrow>
      let s = s\<lparr>as_open_requests := fmdrop request_id (as_open_requests s)\<rparr> in
      if MAX_SESSIONS \<le> fmsize (as_sessions s) then (s, Inl SessionLimit)
      else if MAX_SESSIONS_PER_PRINCIPAL \<le> fmcount (\<lambda>session. se_owner session = ap_id p) (as_sessions s)
      then (s, Inl PrincipalSessionLimit)
      else if \<not> oe_persist_ok env then (s, Inl OpenNotPersisted)
      else case oe_created env of
        None \<Rightarrow> (s, Inl SessionNotCreated)
      | Some session \<Rightarrow>
          (s\<lparr>as_open_requests := fmupd request_id (oe_id env) (as_open_requests s),
             as_sessions := fmupd (oe_id env) session (as_sessions s)\<rparr>, Inr session)))"

section \<open>Failed authentication attempts\<close>

definition AUTH_FAILURE_WINDOW :: nat where [consts_simps]: "AUTH_FAILURE_WINDOW = 60000000000"

definition AUTH_FAILURE_LIMIT :: u32 where [consts_simps]: "AUTH_FAILURE_LIMIT = 32"

definition AUTH_FAILURE_BLOCK :: nat where [consts_simps]: "AUTH_FAILURE_BLOCK = 30000000000"

definition MAX_AUTH_FAILURE_SOURCES :: usize where [consts_simps]: "MAX_AUTH_FAILURE_SOURCES = 4096"

definition blocked_at :: "nat \<Rightarrow> auth_failure_window \<Rightarrow> bool" where
  "blocked_at now v \<longleftrightarrow> (case aw_blocked_until v of None \<Rightarrow> False | Some until \<Rightarrow> now < until)"

definition fresh_window :: "nat \<Rightarrow> auth_failure_window" where
  "fresh_window now = \<lparr>aw_started = now, aw_failures = 0, aw_blocked_until = None\<rparr>"

text \<open>Dropping the expired windows and, when the table is full and the source is not in it,
  the oldest one.\<close>

definition oldest_window :: "(ip_addr, auth_failure_window) fmap \<Rightarrow> ip_addr option" where
  "oldest_window windows =
     map_option fst (fold (\<lambda>(a, v) best. case best of
          None \<Rightarrow> Some (a, v)
        | Some (b, u) \<Rightarrow> if aw_started v < aw_started u then Some (a, v) else best)
       (sorted_list_of_fmap windows) None)"

definition prune_windows ::
    "nat \<Rightarrow> ip_addr \<Rightarrow> (ip_addr, auth_failure_window) fmap \<Rightarrow> (ip_addr, auth_failure_window) fmap" where
  "prune_windows now source windows =
     (let windows = fmretain (\<lambda>_ v. blocked_at now v \<or> now - aw_started v < AUTH_FAILURE_WINDOW) windows in
      if \<not> fmcontains source windows \<and> MAX_AUTH_FAILURE_SOURCES \<le> fmsize windows
      then (case oldest_window windows of None \<Rightarrow> windows | Some a \<Rightarrow> fmdrop a windows)
      else windows)"

definition current_window :: "nat \<Rightarrow> auth_failure_window option \<Rightarrow> auth_failure_window" where
  "current_window now v = (case v of None \<Rightarrow> fresh_window now | Some v \<Rightarrow> v)"

definition renew_window :: "nat \<Rightarrow> auth_failure_window \<Rightarrow> auth_failure_window" where
  "renew_window now v =
     (if (case aw_blocked_until v of None \<Rightarrow> False | Some until \<Rightarrow> until \<le> now)
         \<or> AUTH_FAILURE_WINDOW \<le> now - aw_started v
      then fresh_window now else v)"

definition auth_attempt_allowed :: "nat \<Rightarrow> ip_addr \<Rightarrow> access_store \<Rightarrow> access_store \<times> bool" where
  "auth_attempt_allowed now source s =
     (if \<not> auth_required s then (s, True)
      else
      let windows = prune_windows now source (as_auth_failure_windows s);
          v = current_window now (fmlookup windows source);
          put = (\<lambda>v. s\<lparr>as_auth_failure_windows := fmupd source v windows\<rparr>)
      in if blocked_at now v then (put v, False)
      else
      let v = renew_window now v in
      if AUTH_FAILURE_LIMIT \<le> aw_failures v
      then (put (v\<lparr>aw_blocked_until := Some (now + AUTH_FAILURE_BLOCK)\<rparr>), False)
      else (put v, True))"

definition record_auth_failure :: "nat \<Rightarrow> ip_addr \<Rightarrow> access_store \<Rightarrow> access_store" where
  "record_auth_failure now source s =
     (let windows = prune_windows now source (as_auth_failure_windows s);
          v = renew_window now (current_window now (fmlookup windows source));
          v = v\<lparr>aw_failures := min (aw_failures v + 1) u32_max\<rparr>;
          v = (if AUTH_FAILURE_LIMIT \<le> aw_failures v
               then v\<lparr>aw_blocked_until := Some (now + AUTH_FAILURE_BLOCK)\<rparr> else v)
      in s\<lparr>as_auth_failure_windows := fmupd source v windows\<rparr>)"

definition record_auth_success :: "ip_addr \<Rightarrow> access_store \<Rightarrow> access_store" where
  "record_auth_success source s =
     s\<lparr>as_auth_failure_windows := fmdrop source (as_auth_failure_windows s)\<rparr>"

section \<open>Byte budgets\<close>

definition PRINCIPAL_REQUEST_BYTE_WINDOW :: nat where [consts_simps]:
  "PRINCIPAL_REQUEST_BYTE_WINDOW = 60000000000"

definition MAX_PRINCIPAL_BYTE_BUDGET_KEYS :: usize where [consts_simps]:
  "MAX_PRINCIPAL_BYTE_BUDGET_KEYS = 8192"

text \<open>The request and the response budget run the same steps on their own tables.\<close>

definition admit_bytes ::
    "u64 \<Rightarrow> nat \<Rightarrow> 'k \<Rightarrow> u64 \<Rightarrow> ('k, byte_budget_window) fmap
       \<Rightarrow> ('k, byte_budget_window) fmap \<times> (access_error + unit)" where
  "admit_bytes limit now key n windows =
     (let windows = fmretain (\<lambda>_ v. now - bw_started v < PRINCIPAL_REQUEST_BYTE_WINDOW) windows in
      if \<not> fmcontains key windows \<and> MAX_PRINCIPAL_BYTE_BUDGET_KEYS \<le> fmsize windows
      then (windows, Inl ByteBudgetTableFull)
      else
      let v = (case fmlookup windows key of None \<Rightarrow> \<lparr>bw_started = now, bw_bytes = 0\<rparr> | Some v \<Rightarrow> v);
          v = (if PRINCIPAL_REQUEST_BYTE_WINDOW \<le> now - bw_started v
               then \<lparr>bw_started = now, bw_bytes = 0\<rparr> else v);
          projected = saturating_add (bw_bytes v) n
      in if limit < projected then (fmupd key v windows, Inl ByteBudgetExceeded)
         else (fmupd key (v\<lparr>bw_bytes := projected\<rparr>) windows, Inr ()))"

definition admit_request_bytes ::
    "nat \<Rightarrow> auth_principal \<Rightarrow> string \<Rightarrow> usize \<Rightarrow> access_store \<Rightarrow> access_store \<times> (access_error + unit)" where
  "admit_request_bytes now p operation n s =
     (let (windows, r) = admit_bytes (as_request_bytes_limit s) now (ap_id p, operation) n
            (as_principal_byte_windows s)
      in (s\<lparr>as_principal_byte_windows := windows\<rparr>, r))"

definition admit_response_bytes ::
    "nat \<Rightarrow> auth_principal \<Rightarrow> usize \<Rightarrow> access_store \<Rightarrow> access_store \<times> (access_error + unit)" where
  "admit_response_bytes now p n s =
     (let (windows, r) = admit_bytes (as_response_bytes_limit s) now (ap_id p) n
            (as_response_byte_windows s)
      in (s\<lparr>as_response_byte_windows := windows\<rparr>, r))"

definition ensure_storage_headroom :: "u64 \<Rightarrow> access_store \<Rightarrow> access_error + unit" where
  "ensure_storage_headroom available s =
     (if as_min_free_bytes s = 0 then Inr ()
      else if available < as_min_free_bytes s then Inl HeadroomExhausted else Inr ())"

section \<open>Leases\<close>

definition MAX_ACTIVE_CONNECTIONS :: usize where [consts_simps]: "MAX_ACTIVE_CONNECTIONS = 256"

definition MAX_ACTIVE_CONNECTIONS_PER_PRINCIPAL :: usize where [consts_simps]:
  "MAX_ACTIVE_CONNECTIONS_PER_PRINCIPAL = 32"

definition MAX_CONCURRENT_REQUESTS_PER_PRINCIPAL :: usize where [consts_simps]:
  "MAX_CONCURRENT_REQUESTS_PER_PRINCIPAL = 512"

definition held :: "(string, usize) fmap \<Rightarrow> string \<Rightarrow> usize" where
  "held active p = (case fmlookup active p of None \<Rightarrow> 0 | Some n \<Rightarrow> n)"

definition take_lease :: "usize \<Rightarrow> string \<Rightarrow> (string, usize) fmap \<Rightarrow> (string, usize) fmap option" where
  "take_lease limit p active = (if limit \<le> held active p then None else Some (fmupd p (held active p + 1) active))"

definition drop_lease :: "string \<Rightarrow> (string, usize) fmap \<Rightarrow> (string, usize) fmap" where
  "drop_lease p active = (case fmlookup active p of
     None \<Rightarrow> active
   | Some n \<Rightarrow> if n - 1 = 0 then fmdrop p active else fmupd p (n - 1) active)"

definition connection_guard :: "access_store \<Rightarrow> access_store option" where
  "connection_guard s = (if as_active_connections s < MAX_ACTIVE_CONNECTIONS
     then Some (s\<lparr>as_active_connections := as_active_connections s + 1\<rparr>) else None)"

definition drop_connection_guard :: "access_store \<Rightarrow> access_store" where
  "drop_connection_guard s = s\<lparr>as_active_connections := as_active_connections s - 1\<rparr>"

definition principal_connection_guard :: "string \<Rightarrow> access_store \<Rightarrow> access_store option" where
  "principal_connection_guard p s =
     map_option (\<lambda>active. s\<lparr>as_principal_connections := active\<rparr>)
       (take_lease MAX_ACTIVE_CONNECTIONS_PER_PRINCIPAL p (as_principal_connections s))"

definition drop_principal_connection_guard :: "string \<Rightarrow> access_store \<Rightarrow> access_store" where
  "drop_principal_connection_guard p s =
     s\<lparr>as_principal_connections := drop_lease p (as_principal_connections s)\<rparr>"

definition principal_request_stream_guard :: "string \<Rightarrow> access_store \<Rightarrow> access_store option" where
  "principal_request_stream_guard p s =
     map_option (\<lambda>active. s\<lparr>as_principal_request_streams := active\<rparr>)
       (take_lease MAX_CONCURRENT_REQUESTS_PER_PRINCIPAL p (as_principal_request_streams s))"

definition drop_principal_request_stream_guard :: "string \<Rightarrow> access_store \<Rightarrow> access_store" where
  "drop_principal_request_stream_guard p s =
     s\<lparr>as_principal_request_streams := drop_lease p (as_principal_request_streams s)\<rparr>"

section \<open>Lease tables\<close>

text \<open>What the connection leases and the stream leases of a principal have in common: the table
  counts the holders exactly and never admits more than the limit.\<close>

locale lease_table =
  fixes limit :: usize
    and acquire :: "string \<Rightarrow> 's \<Rightarrow> 's option"
    and release :: "string \<Rightarrow> 's \<Rightarrow> 's"
    and leases :: "'s \<Rightarrow> string \<Rightarrow> usize"
  assumes acquire_leases: "acquire p s = Some s' \<Longrightarrow> leases s' = (leases s)(p := leases s p + 1)"
    and acquire_iff: "acquire p s = None \<longleftrightarrow> limit \<le> leases s p"
    and release_leases: "leases (release p s) = (leases s)(p := leases s p - 1)"
begin

definition exact :: "'s \<Rightarrow> (string \<Rightarrow> nat) \<Rightarrow> bool" where
  "exact s holders \<longleftrightarrow> leases s = holders \<and> (\<forall>p. holders p \<le> limit)"

lemma exact_empty: "leases s = (\<lambda>_. 0) \<Longrightarrow> exact s (\<lambda>_. 0)"
  by (simp add: exact_def)

lemma exact_acquire: "exact s holders \<Longrightarrow> acquire p s = Some s' \<Longrightarrow> exact s' (holders(p := holders p + 1))"
  using acquire_leases [of p s s'] acquire_iff [of p s] by (auto simp: exact_def)

lemma exact_release: "exact s holders \<Longrightarrow> exact (release p s) (holders(p := holders p - 1))"
  by (auto simp: exact_def release_leases intro: le_trans [OF diff_le_self])

lemma exact_undo: "exact s holders \<Longrightarrow> acquire p s = Some s' \<Longrightarrow> leases t = leases s' \<Longrightarrow> exact (release p t) holders"
  using acquire_leases [of p s s'] by (auto simp: exact_def release_leases)

lemma exact_cong: "leases s' = leases s \<Longrightarrow> exact s' holders = exact s holders"
  by (simp add: exact_def)

lemma exact_full: "exact s holders \<Longrightarrow> acquire p s = None \<longleftrightarrow> holders p = limit"
  using acquire_iff [of p s] by (auto simp: exact_def intro: antisym)

end

lemma held_take: "take_lease limit p active = Some active' \<Longrightarrow> held active' = (held active)(p := held active p + 1)"
  by (auto simp: take_lease_def held_def fun_eq_iff split: if_splits)

lemma take_lease_None: "take_lease limit p active = None \<longleftrightarrow> limit \<le> held active p"
  by (simp add: take_lease_def)

lemma held_drop: "held (drop_lease p active) = (held active)(p := held active p - 1)"
  by (auto simp: drop_lease_def held_def fun_eq_iff split: option.splits)

interpretation connection_leases: lease_table MAX_ACTIVE_CONNECTIONS_PER_PRINCIPAL principal_connection_guard
    drop_principal_connection_guard "\<lambda>s. held (as_principal_connections s)"
  by unfold_locales
    (auto simp: principal_connection_guard_def drop_principal_connection_guard_def take_lease_None held_drop
      dest: held_take)

interpretation stream_leases: lease_table MAX_CONCURRENT_REQUESTS_PER_PRINCIPAL principal_request_stream_guard
    drop_principal_request_stream_guard "\<lambda>s. held (as_principal_request_streams s)"
  by unfold_locales
    (auto simp: principal_request_stream_guard_def drop_principal_request_stream_guard_def take_lease_None held_drop
      dest: held_take)

section \<open>Cached credentials\<close>

text \<open>The files ever seen under the credential paths; equal stamps with a modification time mean
  equal contents, which is what the device, the inode, the length and the time are for.\<close>

definition stamps_identify :: "auth_file set \<Rightarrow> bool" where
  "stamps_identify seen \<longleftrightarrow> (\<forall>f \<in> seen. \<forall>g \<in> seen. af_stamp f = af_stamp g \<longrightarrow> st_modified (af_stamp f) \<noteq> None
     \<longrightarrow> af_bytes f = af_bytes g)"

definition cache_ok :: "auth_file set \<Rightarrow> (bytes \<Rightarrow> 'a option) \<Rightarrow> u64 \<Rightarrow> 'a auth_cache \<Rightarrow> bool" where
  "cache_ok seen decode maximum cache \<longleftrightarrow> (\<forall>stamp v. cache = Some (stamp, v) \<longrightarrow>
     (\<exists>f \<in> seen. af_stamp f = stamp \<and> Option.bind (read_file_limited (Some f) maximum) decode = Some v))"

lemma load_uncached:
  "snd (load_cached decode maximum f None) = Option.bind (read_file_limited f maximum) decode"
  by (cases f) (simp_all add: load_cached_def read_file_limited_def Let_def split: option.split)

lemma load_cached_ok:
  assumes "stamps_identify seen" "cache_ok seen decode maximum cache" "\<forall>g. f = Some g \<longrightarrow> g \<in> seen"
    and "load_cached decode maximum f cache = (cache', r)"
  shows "cache_ok seen decode maximum cache'" "r = snd (load_cached decode maximum f None)"
proof -
  have "cache_ok seen decode maximum cache' \<and> r = snd (load_cached decode maximum f None)"
  proof (cases f)
    case None
    then show ?thesis using assms(2,4) by (simp add: load_cached_def)
  next
    case (Some g)
    show ?thesis
    proof (cases "st_modified (af_stamp g) \<noteq> None \<and> map_option fst cache = Some (af_stamp g)")
      case True
      then obtain v where c: "cache = Some (af_stamp g, v)" by auto
      then obtain h where h: "h \<in> seen" "af_stamp h = af_stamp g"
          "Option.bind (read_file_limited (Some h) maximum) decode = Some v"
        using assms(2) by (auto simp: cache_ok_def)
      then have "af_bytes h = af_bytes g"
        using assms(1,3) True Some unfolding stamps_identify_def by metis
      then have "Option.bind (read_file_limited (Some g) maximum) decode = Some v"
        using h(3) by (simp add: read_file_limited_def split: if_splits)
      moreover have "load_cached decode maximum f cache = (cache, Some v)"
        using True Some c by (simp add: load_cached_def Let_def)
      ultimately show ?thesis using assms(2,4) Some by (simp add: load_uncached)
    next
      case False
      then have l: "load_cached decode maximum f cache = (case Option.bind (read_file_limited f maximum) decode of
          None \<Rightarrow> (cache, None)
        | Some value \<Rightarrow> (if st_modified (af_stamp g) \<noteq> None then Some (af_stamp g, value) else cache, Some value))"
        using Some by (simp only: load_cached_def option.case Let_def if_False)
      note n = load_uncached [of decode maximum f]
      show ?thesis
      proof (cases "Option.bind (read_file_limited f maximum) decode")
        case None
        then show ?thesis using assms(2,4) l n by simp
      next
        case (Some v)
        then show ?thesis
          using assms(2-4) l n \<open>f = Some g\<close> by (auto simp: cache_ok_def split: if_splits)
      qed
    qed
  qed
  then show "cache_ok seen decode maximum cache'" "r = snd (load_cached decode maximum f None)" by simp_all
qed

definition caches_ok :: "auth_codec \<Rightarrow> auth_file set \<Rightarrow> access_store \<Rightarrow> bool" where
  "caches_ok x seen s \<longleftrightarrow> cache_ok seen (ax_principals x) MAX_AUTH_CONFIG_BYTES (as_principals_cache s)
     \<and> cache_ok seen (ax_certificates x) MAX_AUTH_CONFIG_BYTES (as_certificates_cache s)
     \<and> cache_ok seen token_value 4096 (as_token_cache s)"

definition files_seen :: "auth_file set \<Rightarrow> auth_files \<Rightarrow> bool" where
  "files_seen seen files \<longleftrightarrow> (\<forall>g. fl_token files = Some g \<or> fl_principals files = Some g \<or> fl_certificates files = Some g
     \<longrightarrow> g \<in> seen)"

text \<open>Authentication against the files as they are now, without any cache.\<close>

definition without_caches :: "access_store \<Rightarrow> access_store" where
  "without_caches s = s\<lparr>as_token_cache := None, as_principals_cache := None, as_certificates_cache := None\<rparr>"

lemma without_caches_flags [simp]:
  "auth_required (without_caches s) = auth_required s"
  "as_auth_principals_file (without_caches s) = as_auth_principals_file s"
  "as_auth_token_file (without_caches s) = as_auth_token_file s"
  "as_auth_certificates_file (without_caches s) = as_auth_certificates_file s"
  "as_auth_token (without_caches s) = as_auth_token s"
  "as_principals_cache (without_caches s) = None" "as_certificates_cache (without_caches s) = None"
  "as_token_cache (without_caches s) = None"
  by (simp_all add: without_caches_def auth_required_def)

lemma files_seenD:
  assumes "files_seen seen files"
  shows "\<forall>g. fl_token files = Some g \<longrightarrow> g \<in> seen" "\<forall>g. fl_principals files = Some g \<longrightarrow> g \<in> seen"
    "\<forall>g. fl_certificates files = Some g \<longrightarrow> g \<in> seen"
  using assms by (auto simp: files_seen_def)

lemma authenticate_fresh:
  assumes "stamps_identify seen" "caches_ok x seen s" "files_seen seen files" "authenticate x files provided s = (s', r)"
  shows "caches_ok x seen s'" "r = snd (authenticate x files provided (without_caches s))"
proof -
  note c = assms(2) [unfolded caches_ok_def] and f = files_seenD [OF assms(3)]
  note p = load_cached_ok [OF assms(1) _ f(2), of "ax_principals x" MAX_AUTH_CONFIG_BYTES "as_principals_cache s"]
    and t = load_cached_ok [OF assms(1) _ f(1), of token_value 4096 "as_token_cache s"]
  obtain pc pr where p0: "load_cached (ax_principals x) MAX_AUTH_CONFIG_BYTES (fl_principals files) (as_principals_cache s)
      = (pc, pr)" by force
  obtain tc tr where t0: "load_cached token_value 4096 (fl_token files) (as_token_cache s) = (tc, tr)" by force
  from p [OF _ p0] t [OF _ t0] c
  show "caches_ok x seen s'" "r = snd (authenticate x files provided (without_caches s))"
    using assms(4) by (auto simp: authenticate_def p0 t0 caches_ok_def case_prod_beta Let_def split: if_splits)
qed

lemma authenticate_certificate_fresh:
  assumes "stamps_identify seen" "caches_ok x seen s" "files_seen seen files"
    and "authenticate_certificate x files provided s = (s', r)"
  shows "caches_ok x seen s'" "r = snd (authenticate_certificate x files provided (without_caches s))"
proof -
  obtain cc cr where c0: "load_cached (ax_certificates x) MAX_AUTH_CONFIG_BYTES (fl_certificates files)
      (as_certificates_cache s) = (cc, cr)" by force
  from load_cached_ok [OF assms(1) _ files_seenD(3) [OF assms(3)] c0] assms(2)
  show "caches_ok x seen s'" "r = snd (authenticate_certificate x files provided (without_caches s))"
    using assms(4) by (auto simp: authenticate_certificate_def c0 caches_ok_def case_prod_beta Let_def split: if_splits)
qed

lemma principal_current_fresh:
  assumes "stamps_identify seen" "caches_ok x seen s" "files_seen seen files" "principal_current x files p s = (s', ok)"
  shows "caches_ok x seen s'" "ok = snd (principal_current x files p (without_caches s))"
proof -
  have "caches_ok x seen s' \<and> ok = snd (principal_current x files p (without_caches s))"
  proof (cases "ap_certificate_sha256 p")
    case None
    obtain v r where a: "authenticate x files (ap_credential p) s = (v, r)" by force
    from authenticate_fresh [OF assms(1-3) this] show ?thesis
      using assms(4) None a by (simp add: principal_current_def case_prod_beta)
  next
    case (Some fingerprint)
    obtain v r where a: "authenticate_certificate x files fingerprint s = (v, r)" by force
    from authenticate_certificate_fresh [OF assms(1-3) this] show ?thesis
      using assms(4) Some a by (simp add: principal_current_def case_prod_beta)
  qed
  then show "caches_ok x seen s'" "ok = snd (principal_current x files p (without_caches s))" by simp_all
qed

end
