(* ===== verification/Connection.thy ===== *)
theory Connection
  imports Access Server_Framing
begin

text \<open>
  A QUIC connection and its request streams: accepting, the HELLO handshake, the checks before
  a request reaches its handler, and the server as a state machine over many connections.

  A handler's checks are one step; what another stream does in between is another step of the
  same machine.  The clock readings, the credential files and the free space a step observes are
  its arguments.
\<close>

record connection =
  cn_remote :: ip_addr
  cn_peer_certificate :: "string option"
  cn_authenticated :: bool
  cn_principal :: "auth_principal option"
  cn_lease :: "string option"
  cn_features :: "string fset"
  cn_frame_mode :: nat

section \<open>Accepting a connection\<close>

definition accept_connection ::
    "ip_addr \<Rightarrow> string option \<Rightarrow> access_store \<Rightarrow> access_store \<times> (access_error + connection)" where
  "accept_connection remote certificate s =
     (case connection_guard s of
        None \<Rightarrow> (s, Inl ConnectionLimit)
      | Some s \<Rightarrow>
      let c = \<lparr>cn_remote = remote, cn_peer_certificate = certificate,
               cn_authenticated = (\<not> auth_required s),
               cn_principal = (if auth_required s then None else Some anonymous), cn_lease = None,
               cn_features = {||}, cn_frame_mode = FRAME_MODE_UNKNOWN\<rparr>
      in if auth_required s then (s, Inr c)
      else case principal_connection_guard (ap_id anonymous) s of
        None \<Rightarrow> (drop_connection_guard s, Inl PrincipalConnectionLimit)
      | Some s \<Rightarrow> (s, Inr (c\<lparr>cn_lease := Some (ap_id anonymous)\<rparr>)))"

text \<open>When the last task of a connection is gone its leases are released.\<close>

definition close_connection :: "connection \<Rightarrow> access_store \<Rightarrow> access_store" where
  "close_connection c s =
     drop_connection_guard (case cn_lease c of None \<Rightarrow> s | Some p \<Rightarrow> drop_principal_connection_guard p s)"

section \<open>HELLO\<close>

definition principal_identity_conflicts ::
    "string option \<Rightarrow> auth_principal option \<Rightarrow> auth_principal \<Rightarrow> bool" where
  "principal_identity_conflicts lease current candidate \<longleftrightarrow>
     (case lease of None \<Rightarrow> False | Some existing \<Rightarrow> existing \<noteq> ap_id candidate)
     \<or> (case current of None \<Rightarrow> False | Some existing \<Rightarrow> ap_credential existing \<noteq> ap_credential candidate)"

datatype principal_install_error = InstallConflict | InstallQuota

definition install_connection_principal ::
    "auth_principal \<Rightarrow> connection \<Rightarrow> access_store
       \<Rightarrow> access_store \<times> connection \<times> (principal_install_error + unit)" where
  "install_connection_principal candidate c s =
     (if principal_identity_conflicts (cn_lease c) (cn_principal c) candidate then (s, c, Inl InstallConflict)
      else if cn_lease c = None then
        (case principal_connection_guard (ap_id candidate) s of
           None \<Rightarrow> (s, c, Inl InstallQuota)
         | Some s \<Rightarrow> (s, c\<lparr>cn_lease := Some (ap_id candidate), cn_principal := Some candidate\<rparr>, Inr ()))
      else (s, c\<lparr>cn_principal := Some candidate\<rparr>, Inr ()))"

record hello_env =
  he_files :: auth_files
  he_now_attempt :: nat
  he_now_failure :: nat
  he_max_protocol_version :: u16
  he_server :: string

text \<open>The answer, whether the stream is finished, and the value the handler returns.\<close>

record hello_result =
  hy_reply :: "string + response"
  hy_finished :: bool
  hy_return :: bool

definition refuse :: "string \<Rightarrow> bool \<Rightarrow> bool \<Rightarrow> hello_result" where
  "refuse code finished ret = \<lparr>hy_reply = Inl code, hy_finished = finished, hy_return = ret\<rparr>"

definition hello_principal ::
    "auth_codec \<Rightarrow> auth_files \<Rightarrow> string option \<Rightarrow> connection \<Rightarrow> access_store \<Rightarrow> access_store \<times> auth_principal option" where
  "hello_principal x files auth_token c s =
     (if as_auth_certificates_file s then
        (case cn_peer_certificate c of
           None \<Rightarrow> (s, None)
         | Some fingerprint \<Rightarrow> authenticate_certificate x files fingerprint s)
      else authenticate x files (case auth_token of None \<Rightarrow> [] | Some t \<Rightarrow> t) s)"

definition invalid_features :: "string list \<Rightarrow> bool" where
  "invalid_features requested \<longleftrightarrow> 64 < length requested \<or> list_ex (\<lambda>f. f = [] \<or> 128 < length f) requested"

definition handle_hello ::
    "auth_codec \<Rightarrow> hello_env \<Rightarrow> u16 \<Rightarrow> string option \<Rightarrow> string list option \<Rightarrow> connection \<Rightarrow> access_store
       \<Rightarrow> access_store \<times> connection \<times> hello_result" where
  "handle_hello x env version auth_token requested_features c s =
     (if \<not> protocol_version_supported version \<or> he_max_protocol_version env < version
      then (s, c, refuse ''version_mismatch'' False False)
      else
      let (cell, r) = validate_frame_mode_for_version (cn_frame_mode c) version;
          c = c\<lparr>cn_frame_mode := cell\<rparr>
      in case r of
        Inl _ \<Rightarrow> (s, c, refuse ''version_mismatch'' True False)
      | Inr _ \<Rightarrow>
      let (s, allowed) = auth_attempt_allowed (he_now_attempt env) (cn_remote c) s in
      if \<not> allowed then (s, c, refuse ''authentication_rate_limited'' True True)
      else
      let (s, p) = hello_principal x (he_files env) auth_token c s in
      case p of
        None \<Rightarrow> (record_auth_failure (he_now_failure env) (cn_remote c) s, c,
                 refuse ''authentication_failed'' True True)
      | Some p \<Rightarrow>
      let s = record_auth_success (cn_remote c) s in
      if (case requested_features of None \<Rightarrow> False | Some requested \<Rightarrow> invalid_features requested)
      then (s, c, refuse ''invalid_features'' True True)
      else
      let features = (case requested_features of None \<Rightarrow> [] | Some requested \<Rightarrow> filter feature_supported requested);
          (s, c, installed) = install_connection_principal p c s
      in case installed of
        Inl InstallConflict \<Rightarrow> (s, c, refuse ''authentication_conflict'' True True)
      | Inl InstallQuota \<Rightarrow> (s, c, refuse ''principal_connection_limit'' True True)
      | Inr _ \<Rightarrow>
          (s, c\<lparr>cn_features := fset_of_list features, cn_authenticated := True\<rparr>,
           \<lparr>hy_reply = Inr (if requested_features = None then RespHello version (he_server env)
                           else RespHelloFeatures version (he_server env) features),
            hy_finished = False, hy_return = False\<rparr>))"

section \<open>Admitting a request\<close>

definition is_hello :: "request \<Rightarrow> bool" where
  "is_hello r = (case r of ReqHello _ _ \<Rightarrow> True | ReqHelloFeatures _ _ _ \<Rightarrow> True | _ \<Rightarrow> False)"

record request_env =
  re_files :: auth_files
  re_now :: nat
  re_available :: u64

definition revalidate ::
    "auth_codec \<Rightarrow> auth_files \<Rightarrow> connection \<Rightarrow> access_store \<Rightarrow> access_store \<times> connection" where
  "revalidate x files c s =
     (if \<not> cn_authenticated c then (s, c)
      else
      let (s, ok) = (case cn_principal c of None \<Rightarrow> (s, False) | Some p \<Rightarrow> principal_current x files p s)
      in (s, if ok then c else c\<lparr>cn_authenticated := False, cn_principal := None\<rparr>))"

text \<open>The checks of every request but HELLO, in their order.  An admitted request holds a stream
  lease of its principal; on a later refusal the lease is dropped with the handler.\<close>

definition admit_request ::
    "auth_codec \<Rightarrow> request_env \<Rightarrow> request \<Rightarrow> usize \<Rightarrow> connection \<Rightarrow> access_store
       \<Rightarrow> access_store \<times> connection \<times> (string + auth_principal)" where
  "admit_request x env request request_bytes c s =
     (let (s, c) = revalidate x (re_files env) c s in
      if \<not> cn_authenticated c then (s, c, Inl ''authentication_required'')
      else if as_draining s then (s, c, Inl ''server_draining'')
      else case cn_principal c of
        None \<Rightarrow> (s, c, Inl ''authentication principal is missing'')
      | Some p \<Rightarrow>
      (case principal_request_stream_guard (ap_id p) s of
        None \<Rightarrow> (s, c, Inl ''principal_request_stream_limit'')
      | Some s \<Rightarrow>
      (case admit_request_bytes (re_now env) p (request_kind request) request_bytes s of
        (s, Inl _) \<Rightarrow> (drop_principal_request_stream_guard (ap_id p) s, c, Inl ''principal_byte_budget'')
      | (s, Inr _) \<Rightarrow>
      if request_requires_storage_headroom request \<and> ensure_storage_headroom (re_available env) s \<noteq> Inr ()
      then (drop_principal_request_stream_guard (ap_id p) s, c, Inl ''storage_headroom'')
      else (s, c, Inr p))))"

section \<open>Authorizing a request\<close>

text \<open>What the arm of a request asks for before it acts: a scope, a session together with a
  scope, or nothing because the request is refused in this position.\<close>

datatype requirement = NoRequirement | ScopeOnly string | SessionScope uuid string | WrongPosition

definition request_requirement :: "request \<Rightarrow> requirement" where
  "request_requirement r = (case r of
     ReqHello _ _ \<Rightarrow> NoRequirement
   | ReqHelloFeatures _ _ _ \<Rightarrow> NoRequirement
   | ReqHealth \<Rightarrow> ScopeOnly ''health:read''
   | ReqOpenSession _ \<Rightarrow> ScopeOnly ''session:create''
   | ReqResumeSession sid _ \<Rightarrow> SessionScope sid ''session:read''
   | ReqResumeSessionStream sid _ \<Rightarrow> SessionScope sid ''session:read''
   | ReqAckEvents sid _ \<Rightarrow> SessionScope sid ''session:read''
   | ReqAckEventsConsumer sid _ _ \<Rightarrow> SessionScope sid ''session:read''
   | ReqSubscribeEvents sid _ _ _ \<Rightarrow> SessionScope sid ''session:read''
   | ReqExec sid _ _ \<Rightarrow> SessionScope sid ''process:execute''
   | ReqExecSummary sid _ _ _ \<Rightarrow> SessionScope sid ''process:execute''
   | ReqProcessOutputStream sid _ _ _ _ \<Rightarrow> SessionScope sid ''process:read''
   | ReqProcessState sid _ \<Rightarrow> SessionScope sid ''process:read''
   | ReqSpawn sid _ _ \<Rightarrow> SessionScope sid ''process:execute''
   | ReqSignal sid _ _ _ \<Rightarrow> SessionScope sid ''process:signal''
   | ReqPtyOpen sid _ _ \<Rightarrow> SessionScope sid ''pty:use''
   | ReqPtyInput _ _ \<Rightarrow> WrongPosition
   | ReqPtyInputSequenced _ _ _ \<Rightarrow> WrongPosition
   | ReqPtyResize _ _ _ \<Rightarrow> WrongPosition
   | ReqFileGet sid _ \<Rightarrow> SessionScope sid ''file:read''
   | ReqFileGetStream sid _ _ _ \<Rightarrow> SessionScope sid ''file:read''
   | ReqFilePut sid _ _ _ _ _ \<Rightarrow> SessionScope sid ''file:write''
   | ReqFilePutStreamBegin sid _ _ _ _ _ _ \<Rightarrow> SessionScope sid ''file:write''
   | ReqFilePutStreamResumeBegin sid _ _ _ _ _ _ \<Rightarrow> SessionScope sid ''file:write''
   | ReqFilePutStreamChunk _ _ \<Rightarrow> WrongPosition
   | ReqFilePutStreamEnd \<Rightarrow> WrongPosition
   | ReqFilePatch sid _ _ _ _ _ _ \<Rightarrow> SessionScope sid ''file:write''
   | ReqFilePatchRanges sid _ _ _ _ \<Rightarrow> SessionScope sid ''file:write''
   | ReqWorkspaceState sid _ _ _ _ _ _ _ _ _ \<Rightarrow> SessionScope sid ''workspace:read''
   | ReqPortOpen sid _ _ \<Rightarrow> SessionScope sid ''ports:open''
   | ReqArtifactGetStream sid _ _ _ \<Rightarrow> SessionScope sid ''artifact:read''
   | ReqArtifactPutStreamBegin sid _ _ _ _ \<Rightarrow> SessionScope sid ''artifact:write''
   | ReqArtifactPutStreamResumeBegin sid _ _ _ _ \<Rightarrow> SessionScope sid ''artifact:write''
   | ReqArtifactPutStreamChunk _ _ \<Rightarrow> WrongPosition
   | ReqArtifactPutStreamEnd \<Rightarrow> WrongPosition)"

definition authorize_request ::
    "access_store \<Rightarrow> auth_principal \<Rightarrow> request \<Rightarrow> string + session option" where
  "authorize_request s p request =
     (case request_requirement request of
        NoRequirement \<Rightarrow> Inr None
      | ScopeOnly scope \<Rightarrow> and_then (map_err (\<lambda>_. ''forbidden'') (require_scope p scope)) (\<lambda>_. Inr None)
      | SessionScope sid scope \<Rightarrow>
          and_then (map_err (\<lambda>_. ''forbidden'') (get_authorized s sid p scope)) (\<lambda>session. Inr (Some session))
      | WrongPosition \<Rightarrow> Inl ''invalid_state'')"

section \<open>The server\<close>

text \<open>The open connections and, for every admitted request that still runs, its connection and
  the principal whose stream lease it holds.\<close>

record server =
  sv_store :: access_store
  sv_connections :: "(nat, connection) fmap"
  sv_streams :: "(nat, nat \<times> string) fmap"

inductive server_step :: "auth_codec \<Rightarrow> auth_file set \<Rightarrow> server \<Rightarrow> server \<Rightarrow> bool"
  for x :: auth_codec and seen :: "auth_file set" where
  accepted: "fmlookup (sv_connections v) cid = None \<Longrightarrow>
    accept_connection remote certificate (sv_store v) = (s, Inr c) \<Longrightarrow>
    server_step x seen v (v\<lparr>sv_store := s, sv_connections := fmupd cid c (sv_connections v)\<rparr>)"
| rejected: "accept_connection remote certificate (sv_store v) = (s, Inl e) \<Longrightarrow>
    server_step x seen v (v\<lparr>sv_store := s\<rparr>)"
| hello: "fmlookup (sv_connections v) cid = Some c \<Longrightarrow> files_seen seen (he_files env) \<Longrightarrow>
    handle_hello x env version token features c (sv_store v) = (s, c', r) \<Longrightarrow>
    server_step x seen v (v\<lparr>sv_store := s, sv_connections := fmupd cid c' (sv_connections v)\<rparr>)"
| admitted: "fmlookup (sv_connections v) cid = Some c \<Longrightarrow> fmlookup (sv_streams v) sid = None \<Longrightarrow>
    files_seen seen (re_files renv) \<Longrightarrow> admit_request x renv request n c (sv_store v) = (s, c', Inr p) \<Longrightarrow>
    server_step x seen v (v\<lparr>sv_store := s, sv_connections := fmupd cid c' (sv_connections v),
      sv_streams := fmupd sid (cid, ap_id p) (sv_streams v)\<rparr>)"
| refused: "fmlookup (sv_connections v) cid = Some c \<Longrightarrow> files_seen seen (re_files renv) \<Longrightarrow>
    admit_request x renv request n c (sv_store v) = (s, c', Inl code) \<Longrightarrow>
    server_step x seen v (v\<lparr>sv_store := s, sv_connections := fmupd cid c' (sv_connections v)\<rparr>)"
| opened: "open_session oenv request_id p (sv_store v) = (s, r) \<Longrightarrow>
    fmlookup (as_sessions (sv_store v)) (oe_id oenv) = None \<Longrightarrow>
    (\<And>session. oe_created oenv = Some session \<Longrightarrow> se_owner session = ap_id p) \<Longrightarrow>
    server_step x seen v (v\<lparr>sv_store := s\<rparr>)"
| responded: "admit_response_bytes now p n (sv_store v) = (s, r') \<Longrightarrow>
    server_step x seen v (v\<lparr>sv_store := s\<rparr>)"
| finished: "fmlookup (sv_streams v) sid = Some (cid, q) \<Longrightarrow>
    server_step x seen v (v\<lparr>sv_store := drop_principal_request_stream_guard q (sv_store v),
      sv_streams := fmdrop sid (sv_streams v)\<rparr>)"
| closed: "fmlookup (sv_connections v) cid = Some c \<Longrightarrow>
    \<not> fmany (\<lambda>_ stream. fst stream = cid) (sv_streams v) \<Longrightarrow>
    server_step x seen v (v\<lparr>sv_store := close_connection c (sv_store v),
      sv_connections := fmdrop cid (sv_connections v)\<rparr>)"
| draining: "server_step x seen v (v\<lparr>sv_store := (sv_store v)\<lparr>as_draining := True\<rparr>\<rparr>)"

inductive_cases server_stepE: "server_step x seen v v'"

text \<open>A server that has loaded its sessions and not accepted a connection yet.\<close>

definition server_start :: "access_store \<Rightarrow> bool" where
  "server_start s \<longleftrightarrow> as_token_cache s = None \<and> as_principals_cache s = None \<and> as_certificates_cache s = None
     \<and> as_active_connections s = 0 \<and> as_principal_connections s = fmempty \<and> as_principal_request_streams s = fmempty
     \<and> as_principal_byte_windows s = fmempty \<and> as_response_byte_windows s = fmempty
     \<and> as_auth_failure_windows s = fmempty
     \<and> fmsize (as_sessions s) \<le> MAX_SESSIONS
     \<and> (\<forall>p. fmcount (\<lambda>session. se_owner session = p) (as_sessions s) \<le> MAX_SESSIONS_PER_PRINCIPAL)"

inductive server_reachable :: "auth_codec \<Rightarrow> auth_file set \<Rightarrow> access_store \<Rightarrow> server \<Rightarrow> bool"
  for x :: auth_codec and seen :: "auth_file set" and start :: access_store where
  initial: "server_start start \<Longrightarrow>
    server_reachable x seen start \<lparr>sv_store = start, sv_connections = fmempty, sv_streams = fmempty\<rparr>"
| step: "server_reachable x seen start v \<Longrightarrow> server_step x seen v v' \<Longrightarrow> server_reachable x seen start v'"

end
