(* ===== verification/Connection_Safety.thy ===== *)
theory Connection_Safety
  imports Connection
begin

text \<open>
  The leases of the connections and streams are exact in every reachable state of the server,
  a connection keeps the principal it was first bound to, and a request reaches its handler only
  under a credential that the current files still accept.
\<close>

section \<open>What the operations leave alone\<close>

definition same_policy :: "access_store \<Rightarrow> access_store \<Rightarrow> bool" where
  "same_policy s s' \<longleftrightarrow> as_auth_token s' = as_auth_token s \<and> as_auth_token_file s' = as_auth_token_file s
     \<and> as_auth_principals_file s' = as_auth_principals_file s
     \<and> as_auth_certificates_file s' = as_auth_certificates_file s
     \<and> as_request_bytes_limit s' = as_request_bytes_limit s
     \<and> as_response_bytes_limit s' = as_response_bytes_limit s \<and> as_min_free_bytes s' = as_min_free_bytes s"

definition same_tables :: "access_store \<Rightarrow> access_store \<Rightarrow> bool" where
  "same_tables s s' \<longleftrightarrow> same_policy s s' \<and> as_active_connections s' = as_active_connections s
     \<and> as_principal_connections s' = as_principal_connections s
     \<and> as_principal_request_streams s' = as_principal_request_streams s
     \<and> as_principal_byte_windows s' = as_principal_byte_windows s
     \<and> as_response_byte_windows s' = as_response_byte_windows s
     \<and> as_sessions s' = as_sessions s \<and> as_draining s' = as_draining s"

definition same_caches :: "access_store \<Rightarrow> access_store \<Rightarrow> bool" where
  "same_caches s s' \<longleftrightarrow> as_token_cache s' = as_token_cache s \<and> as_principals_cache s' = as_principals_cache s
     \<and> as_certificates_cache s' = as_certificates_cache s"

lemmas same_defs = same_tables_def same_policy_def same_caches_def

lemma same_tables_refl [simp]: "same_tables s s" "same_caches s s" by (simp_all add: same_defs)

lemma same_tables_trans: "same_tables s s' \<Longrightarrow> same_tables s' s'' \<Longrightarrow> same_tables s s''"
  by (simp add: same_defs)

lemma same_caches_ok: "same_caches s s' \<Longrightarrow> caches_ok x seen s' = caches_ok x seen s"
  by (simp add: caches_ok_def same_defs)

lemma authenticate_same: "authenticate x files provided s = (s', r) \<Longrightarrow> same_tables s s'"
  by (auto simp: authenticate_def same_defs Let_def case_prod_beta split: if_splits)

lemma authenticate_certificate_same: "authenticate_certificate x files provided s = (s', r) \<Longrightarrow> same_tables s s'"
  by (auto simp: authenticate_certificate_def same_defs Let_def case_prod_beta split: if_splits)

lemma principal_current_same: "principal_current x files p s = (s', ok) \<Longrightarrow> same_tables s s'"
  by (auto simp: principal_current_def Let_def split: prod.splits option.splits
      dest: authenticate_same authenticate_certificate_same)

lemma auth_attempt_same: "auth_attempt_allowed now source s = (s', ok) \<Longrightarrow> same_tables s s' \<and> same_caches s s'"
  by (auto simp: auth_attempt_allowed_def same_defs Let_def split: if_splits)

lemma auth_record_same:
  "same_tables s (record_auth_failure now source s)" "same_caches s (record_auth_failure now source s)"
  "same_tables s (record_auth_success source s)" "same_caches s (record_auth_success source s)"
  by (simp_all add: record_auth_failure_def record_auth_success_def same_defs Let_def)

lemma hello_principal_same: "hello_principal x files token c s = (s', r) \<Longrightarrow> same_tables s s'"
  by (auto simp: hello_principal_def split: if_splits option.splits dest: authenticate_same authenticate_certificate_same)

lemma hello_principal_caches:
  assumes "stamps_identify seen" "caches_ok x seen s" "files_seen seen files" "hello_principal x files token c s = (s', r)"
  shows "caches_ok x seen s'"
  using assms(4) assms(2) authenticate_fresh(1) [OF assms(1-3)] authenticate_certificate_fresh(1) [OF assms(1-3)]
  by (auto simp: hello_principal_def split: if_splits option.splits)

lemma revalidate_same: "revalidate x files c s = (s', c') \<Longrightarrow> same_tables s s'"
  by (auto simp: revalidate_def Let_def split: if_splits prod.splits option.splits dest: principal_current_same)

lemma revalidate_caches:
  assumes "stamps_identify seen" "caches_ok x seen s" "files_seen seen files" "revalidate x files c s = (s', c')"
  shows "caches_ok x seen s'"
  using assms(4) assms(2) principal_current_fresh(1) [OF assms(1-3)]
  by (auto simp: revalidate_def Let_def split: if_splits prod.splits option.splits)

text \<open>A connection's principal holds its lease.\<close>

definition connection_ok :: "connection \<Rightarrow> bool" where
  "connection_ok c \<longleftrightarrow> (\<forall>p. cn_principal c = Some p \<longrightarrow> cn_lease c = Some (ap_id p))"

lemma revalidate_connection:
  assumes "revalidate x files c s = (s', c')" "connection_ok c"
  shows "connection_ok c'" "cn_lease c' = cn_lease c" "cn_principal c' = Some p \<Longrightarrow> cn_principal c = Some p"
  using assms by (auto simp: revalidate_def connection_ok_def Let_def split: if_splits prod.splits)

lemma revalidate_current:
  assumes "revalidate x files c s = (s', c')" "cn_authenticated c'" "cn_principal c' = Some p"
  shows "\<exists>v. principal_current x files p s = (v, True)"
  using assms by (auto simp: revalidate_def Let_def split: if_splits prod.splits option.splits)

section \<open>The invariant\<close>

definition budgets_ok :: "access_store \<Rightarrow> bool" where
  "budgets_ok s \<longleftrightarrow> fmpred (\<lambda>_ w. bw_bytes w \<le> as_request_bytes_limit s) (as_principal_byte_windows s)
     \<and> fmpred (\<lambda>_ w. bw_bytes w \<le> as_response_bytes_limit s) (as_response_byte_windows s)"

definition sessions_ok :: "access_store \<Rightarrow> bool" where
  "sessions_ok s \<longleftrightarrow> fmsize (as_sessions s) \<le> MAX_SESSIONS
     \<and> (\<forall>p. fmcount (\<lambda>session. se_owner session = p) (as_sessions s) \<le> MAX_SESSIONS_PER_PRINCIPAL)"

definition lease_holders :: "(nat, connection) fmap \<Rightarrow> string \<Rightarrow> nat" where
  "lease_holders connections p = fmcount (\<lambda>c. cn_lease c = Some p) connections"

definition stream_holders :: "(nat, nat \<times> string) fmap \<Rightarrow> string \<Rightarrow> nat" where
  "stream_holders streams p = fmcount (\<lambda>t. snd t = p) streams"

definition server_inv :: "server \<Rightarrow> bool" where
  "server_inv v \<longleftrightarrow> connection_leases.exact (sv_store v) (lease_holders (sv_connections v))
     \<and> stream_leases.exact (sv_store v) (stream_holders (sv_streams v))
     \<and> as_active_connections (sv_store v) = fmsize (sv_connections v)
     \<and> fmsize (sv_connections v) \<le> MAX_ACTIVE_CONNECTIONS
     \<and> sessions_ok (sv_store v) \<and> budgets_ok (sv_store v)
     \<and> (\<forall>cid c. fmlookup (sv_connections v) cid = Some c \<longrightarrow> connection_ok c)"

lemma server_invD:
  assumes "server_inv v"
  shows "connection_leases.exact (sv_store v) (lease_holders (sv_connections v))"
    "stream_leases.exact (sv_store v) (stream_holders (sv_streams v))"
    "as_active_connections (sv_store v) = fmsize (sv_connections v)"
    "fmsize (sv_connections v) \<le> MAX_ACTIVE_CONNECTIONS"
    "sessions_ok (sv_store v)" "budgets_ok (sv_store v)"
    "fmlookup (sv_connections v) cid = Some c \<Longrightarrow> connection_ok c"
  using assms by (auto simp: server_inv_def)

lemma same_tables_inv:
  assumes "same_tables s s'"
  shows "connection_leases.exact s' h = connection_leases.exact s h" "stream_leases.exact s' k = stream_leases.exact s k"
    "as_active_connections s' = as_active_connections s" "sessions_ok s' = sessions_ok s" "budgets_ok s' = budgets_ok s"
  using assms
  by (simp_all add: same_defs connection_leases.exact_def stream_leases.exact_def sessions_ok_def budgets_ok_def)

lemma lease_holders_upd:
  assumes "fmlookup m cid = None \<or> (\<exists>c. fmlookup m cid = Some c \<and> cn_lease c = None)"
  shows "cn_lease c' = Some p \<Longrightarrow> lease_holders (fmupd cid c' m) = (lease_holders m)(p := lease_holders m p + 1)"
    "cn_lease c' = None \<Longrightarrow> lease_holders (fmupd cid c' m) = lease_holders m"
  using assms by (auto simp: lease_holders_def fun_eq_iff fmcount_upd fmcount_drop)

lemma lease_holders_same:
  assumes "fmlookup m cid = Some c" "cn_lease c' = cn_lease c"
  shows "lease_holders (fmupd cid c' m) = lease_holders m"
  using assms fmcount_pos [OF assms(1)]
  by (auto simp: lease_holders_def fun_eq_iff fmcount_upd fmcount_drop)

lemma fmsize_upd_same: "fmlookup m k = Some v \<Longrightarrow> fmsize (fmupd k v' m) = fmsize m"
  by (simp add: fmcontains_def fmsize_upd)

lemma fmsize_upd_new: "fmlookup m k = None \<Longrightarrow> fmsize (fmupd k v' m) = fmsize m + 1"
  by (simp add: fmcontains_def fmsize_upd)

section \<open>Preservation, operation by operation\<close>

lemma inv_same:
  assumes "server_inv v" "fmlookup (sv_connections v) cid = Some c" "same_tables (sv_store v) s"
    and "cn_lease c' = cn_lease c" "connection_ok c'"
  shows "server_inv (v\<lparr>sv_store := s, sv_connections := fmupd cid c' (sv_connections v)\<rparr>)"
  using assms(1,5) lease_holders_same [OF assms(2,4)] fmsize_upd_same [OF assms(2)] same_tables_inv [OF assms(3)]
  by (simp add: server_inv_def)

lemma inv_bound:
  assumes "server_inv v" "fmlookup (sv_connections v) cid = Some c" "same_tables (sv_store v) u"
    and "principal_connection_guard p u = Some s" "cn_lease c = None" "cn_lease c' = Some p" "connection_ok c'"
  shows "server_inv (v\<lparr>sv_store := s, sv_connections := fmupd cid c' (sv_connections v)\<rparr>)"
proof -
  have "connection_leases.exact u (lease_holders (sv_connections v))"
    using server_invD(1) [OF assms(1)] same_tables_inv(1) [OF assms(3)] by simp
  from connection_leases.exact_acquire [OF this assms(4)]
  have "connection_leases.exact s (lease_holders (fmupd cid c' (sv_connections v)))"
    using lease_holders_upd(1) [of "sv_connections v" cid c' p] assms(2,5,6) by simp
  moreover have "same_tables (sv_store v) (s\<lparr>as_principal_connections := as_principal_connections (sv_store v)\<rparr>)"
    using assms(3,4) by (auto simp: principal_connection_guard_def same_defs)
  from same_tables_inv(2-5) [OF this]
  have "stream_leases.exact s k = stream_leases.exact (sv_store v) k" "as_active_connections s = as_active_connections (sv_store v)"
    "sessions_ok s = sessions_ok (sv_store v)" "budgets_ok s = budgets_ok (sv_store v)" for k
    by (simp_all add: stream_leases.exact_def sessions_ok_def budgets_ok_def)
  ultimately show ?thesis
    using assms(1,7) fmsize_upd_same [OF assms(2)] by (simp add: server_inv_def)
qed

lemma install_result:
  assumes "install_connection_principal p c s = (s', c', r)" "connection_ok c"
  shows "connection_ok c' \<and> (same_tables s s' \<and> cn_lease c' = cn_lease c
    \<or> cn_lease c = None \<and> principal_connection_guard (ap_id p) s = Some s' \<and> cn_lease c' = Some (ap_id p))
    \<and> same_caches s s'"
proof -
  have "same_caches s t" if "principal_connection_guard q s = Some t" for q t
    using that by (auto simp: principal_connection_guard_def same_defs)
  then show ?thesis
    using assms
    by (auto simp: install_connection_principal_def connection_ok_def principal_identity_conflicts_def
        split: if_splits option.splits)
qed

lemma hello_result:
  assumes "handle_hello x env version token features c s = (s', c', r)" "connection_ok c"
  shows "connection_ok c' \<and> (same_tables s s' \<and> cn_lease c' = cn_lease c
    \<or> (\<exists>u p. same_tables s u \<and> cn_lease c = None \<and> principal_connection_guard p u = Some s' \<and> cn_lease c' = Some p))"
proof -
  obtain cell vr where v: "validate_frame_mode_for_version (cn_frame_mode c) version = (cell, vr)" by force
  define d where "d = c\<lparr>cn_frame_mode := cell\<rparr>"
  obtain s1 allowed where a: "auth_attempt_allowed (he_now_attempt env) (cn_remote d) s = (s1, allowed)" by force
  obtain s2 p where h: "hello_principal x (he_files env) token d s1 = (s2, p)" by force
  have d: "connection_ok d" "cn_lease d = cn_lease c" using assms(2) by (simp_all add: d_def connection_ok_def)
  have t1: "same_tables s s1" using auth_attempt_same [OF a] by simp
  have t2: "same_tables s s2" by (rule same_tables_trans [OF t1 hello_principal_same [OF h]])
  have t3: "same_tables s (record_auth_failure (he_now_failure env) (cn_remote d) s2)"
    "same_tables s (record_auth_success (cn_remote d) s2)"
    using same_tables_trans [OF t2] auth_record_same by blast+
  obtain s3 c3 i where i: "install_connection_principal (the p) d (record_auth_success (cn_remote d) s2) = (s3, c3, i)"
    by (metis prod_cases3)
  note e = install_result [OF i d(1)]
  have t4: "same_tables (record_auth_success (cn_remote d) s2) s3 \<Longrightarrow> same_tables s s3"
    using same_tables_trans [OF t3(2)] by blast
  have f: "connection_ok (c3\<lparr>cn_features := fs, cn_authenticated := b\<rparr>) = connection_ok c3" for fs b
    by (simp add: connection_ok_def)
  show ?thesis
    using assms(1) assms(2) d t1 t2 t3 e t4 f i
    unfolding handle_hello_def v prod.case Let_def d_def [symmetric] a h
    by (cases p) (auto split: if_splits sum.splits principal_install_error.splits option.splits)
qed

lemma hello_caches:
  assumes "stamps_identify seen" "caches_ok x seen s" "files_seen seen (he_files env)"
    and "handle_hello x env version token features c s = (s', c', r)" "connection_ok c"
  shows "caches_ok x seen s'"
proof -
  obtain cell vr where v: "validate_frame_mode_for_version (cn_frame_mode c) version = (cell, vr)" by force
  define d where "d = c\<lparr>cn_frame_mode := cell\<rparr>"
  obtain s1 allowed where a: "auth_attempt_allowed (he_now_attempt env) (cn_remote d) s = (s1, allowed)" by force
  obtain s2 p where h: "hello_principal x (he_files env) token d s1 = (s2, p)" by force
  have s1: "caches_ok x seen s1" using auth_attempt_same [OF a] assms(2) same_caches_ok by blast
  have s2: "caches_ok x seen s2" by (rule hello_principal_caches [OF assms(1) s1 assms(3) h])
  have s3: "caches_ok x seen (record_auth_failure (he_now_failure env) (cn_remote d) s2)"
    "caches_ok x seen (record_auth_success (cn_remote d) s2)"
    using s2 same_caches_ok auth_record_same by blast+
  obtain t c3 i where i: "install_connection_principal (the p) d (record_auth_success (cn_remote d) s2) = (t, c3, i)"
    by (metis prod_cases3)
  have "connection_ok d" using assms(5) by (simp add: d_def connection_ok_def)
  then have t: "caches_ok x seen t" using install_result [OF i] same_caches_ok s3(2) by blast
  show ?thesis
    using assms(4) assms(2) s1 s2 s3 t i
    unfolding handle_hello_def v prod.case Let_def d_def [symmetric] a h
    by (cases p) (auto split: if_splits sum.splits principal_install_error.splits option.splits)
qed

lemma admit_bytes_bounded:
  assumes "admit_bytes limit now key n windows = (windows', r)" "fmpred (\<lambda>_ w. bw_bytes w \<le> limit) windows"
  shows "fmpred (\<lambda>_ w. bw_bytes w \<le> limit) windows'"
  using assms by (auto simp: admit_bytes_def fmpred_iff Let_def split: if_splits option.splits)

lemma admit_request_bytes_frame:
  assumes "admit_request_bytes now p operation n s = (s', r)"
  shows "\<exists>w. s' = s\<lparr>as_principal_byte_windows := w\<rparr>" "budgets_ok s \<Longrightarrow> budgets_ok s'"
  using assms admit_bytes_bounded
  by (auto simp: admit_request_bytes_def budgets_ok_def Let_def split: prod.splits)

lemma admit_response_bytes_frame:
  assumes "admit_response_bytes now p n s = (s', r)"
  shows "\<exists>w. s' = s\<lparr>as_response_byte_windows := w\<rparr>" "budgets_ok s \<Longrightarrow> budgets_ok s'"
  using assms admit_bytes_bounded
  by (auto simp: admit_response_bytes_def budgets_ok_def Let_def split: prod.splits)

text \<open>Everything but the stream leases, the request budget and the caches.\<close>

definition same_kept :: "access_store \<Rightarrow> access_store \<Rightarrow> bool" where
  "same_kept s s' \<longleftrightarrow> same_policy s s' \<and> as_active_connections s' = as_active_connections s
     \<and> as_principal_connections s' = as_principal_connections s
     \<and> as_response_byte_windows s' = as_response_byte_windows s
     \<and> as_sessions s' = as_sessions s \<and> as_draining s' = as_draining s"

lemma same_kept_inv:
  assumes "same_kept s s'"
  shows "connection_leases.exact s' h = connection_leases.exact s h"
    "as_active_connections s' = as_active_connections s" "sessions_ok s' = sessions_ok s"
  using assms by (simp_all add: same_kept_def same_defs connection_leases.exact_def sessions_ok_def)

lemma same_tables_kept: "same_tables s s' \<Longrightarrow> same_kept s s'"
  by (simp add: same_kept_def same_defs)

definition headroom_ok :: "request_env \<Rightarrow> request \<Rightarrow> access_store \<Rightarrow> bool" where
  "headroom_ok env request s \<longleftrightarrow> request_requires_storage_headroom request \<longrightarrow> as_min_free_bytes s \<le> re_available env"

lemma headroom_iff: "ensure_storage_headroom available s = Inr () \<longleftrightarrow> as_min_free_bytes s \<le> available"
  by (auto simp: ensure_storage_headroom_def)

lemma stream_guard_frame:
  "principal_request_stream_guard p s = Some s' \<Longrightarrow> \<exists>a. s' = s\<lparr>as_principal_request_streams := a\<rparr>"
  by (auto simp: principal_request_stream_guard_def)

lemma admitted_bytes:
  assumes "principal_request_stream_guard q u = Some g" "admit_request_bytes now p operation n g = (t, r)"
    and "stream_leases.exact u k" "budgets_ok u"
  shows "stream_leases.exact t (k(q := k q + 1))" "stream_leases.exact (drop_principal_request_stream_guard q t) k"
    "budgets_ok t" "budgets_ok (drop_principal_request_stream_guard q t)" "same_kept u t" "same_caches u t"
    "same_kept u (drop_principal_request_stream_guard q t)" "same_caches u (drop_principal_request_stream_guard q t)"
proof -
  obtain a where g: "g = u\<lparr>as_principal_request_streams := a\<rparr>" using stream_guard_frame [OF assms(1)] by blast
  obtain w where t: "t = g\<lparr>as_principal_byte_windows := w\<rparr>" using admit_request_bytes_frame(1) [OF assms(2)] by blast
  have l: "as_principal_request_streams t = as_principal_request_streams g" by (simp add: t)
  show "stream_leases.exact t (k(q := k q + 1))"
    using stream_leases.exact_acquire [OF assms(3,1)] stream_leases.exact_cong [of t g] l by simp
  show "stream_leases.exact (drop_principal_request_stream_guard q t) k"
    using stream_leases.exact_undo [OF assms(3,1)] l by simp
  have "budgets_ok g" using assms(4) by (simp add: g budgets_ok_def)
  then show "budgets_ok t" by (rule admit_request_bytes_frame(2) [OF assms(2)])
  then show "budgets_ok (drop_principal_request_stream_guard q t)"
    by (simp add: budgets_ok_def drop_principal_request_stream_guard_def)
  show "same_kept u t" "same_caches u t"
    by (simp_all add: t g same_kept_def same_defs)
  then show "same_kept u (drop_principal_request_stream_guard q t)" "same_caches u (drop_principal_request_stream_guard q t)"
    by (simp_all add: same_kept_def same_defs drop_principal_request_stream_guard_def)
qed

lemma same_kept_trans: "same_kept s s' \<Longrightarrow> same_kept s' s'' \<Longrightarrow> same_kept s s''"
  by (simp add: same_kept_def same_defs)

text \<open>The three ways a request can leave the checks.\<close>

lemma admit_request_cases:
  assumes "admit_request x env request n c s = (s', c', r)"
  obtains (early) code where "revalidate x (re_files env) c s = (s', c')" "r = Inl code"
    | (late) u p g t b code where "revalidate x (re_files env) c s = (u, c')"
        "principal_request_stream_guard (ap_id p) u = Some g"
        "admit_request_bytes (re_now env) p (request_kind request) n g = (t, b)"
        "s' = drop_principal_request_stream_guard (ap_id p) t" "r = Inl code"
    | (through) u p g b where "revalidate x (re_files env) c s = (u, c')" "cn_principal c' = Some p"
        "principal_request_stream_guard (ap_id p) u = Some g"
        "admit_request_bytes (re_now env) p (request_kind request) n g = (s', b)" "r = Inr p"
        "cn_authenticated c'" "\<not> as_draining u"
        "request_requires_storage_headroom request \<longrightarrow> ensure_storage_headroom (re_available env) s' = Inr ()"
proof -
  obtain u d where u: "revalidate x (re_files env) c s = (u, d)" by force
  note eq = assms [unfolded admit_request_def u prod.case Let_def]
  show ?thesis
  proof (cases "cn_authenticated d \<and> \<not> as_draining u \<and> (\<exists>p. cn_principal d = Some p
      \<and> principal_request_stream_guard (ap_id p) u \<noteq> None)")
    case False
    then have "s' = u \<and> c' = d \<and> (\<exists>code. r = Inl code)"
      using eq by (auto split: if_splits option.splits)
    then show ?thesis using early u by blast
  next
    case True
    then obtain p g where p: "cn_principal d = Some p" "principal_request_stream_guard (ap_id p) u = Some g" by blast
    obtain t b where t: "admit_request_bytes (re_now env) p (request_kind request) n g = (t, b)" by force
    show ?thesis
    proof (cases "\<exists>e. b = Inl e \<or> request_requires_storage_headroom request
        \<and> ensure_storage_headroom (re_available env) t \<noteq> Inr ()")
      case late': True
      then have "s' = drop_principal_request_stream_guard (ap_id p) t \<and> c' = d \<and> (\<exists>code. r = Inl code)"
        using eq True p t by (cases b) auto
      then show ?thesis using late u p t by blast
    next
      case False
      then have "s' = t \<and> c' = d \<and> r = Inr p"
        using eq True p t by (cases b) auto
      then show ?thesis using through [of u p g b] u p t True False by blast
    qed
  qed
qed

lemma admit_result:
  assumes "admit_request x env request n c s = (s', c', r)" "budgets_ok s" "stream_leases.exact s k"
  obtains u where "revalidate x (re_files env) c s = (u, c')" "same_caches u s'" "budgets_ok s'" "same_kept s s'"
    "case r of
       Inl _ \<Rightarrow> stream_leases.exact s' k
     | Inr p \<Rightarrow> stream_leases.exact s' (k(ap_id p := k (ap_id p) + 1)) \<and> cn_authenticated c' \<and> cn_principal c' = Some p
         \<and> \<not> as_draining s \<and> headroom_ok env request s"
proof -
  have kept: "stream_leases.exact u k" "budgets_ok u" "same_kept s u" if "revalidate x (re_files env) c s = (u, d)" for u d
    using same_tables_inv [OF revalidate_same [OF that]] same_tables_kept [OF revalidate_same [OF that]] assms(2,3)
    by simp_all
  from assms(1) show ?thesis
  proof (cases rule: admit_request_cases)
    case (early code)
    show ?thesis by (rule that [OF early(1)]) (simp_all add: kept [OF early(1)] early(2))
  next
    case (late u p g t b code)
    note q = kept [OF late(1)] and b = admitted_bytes [OF late(2,3) kept(1,2) [OF late(1)]]
    show ?thesis
      using b by (intro that [OF late(1)]) (simp_all add: late(4,5) same_kept_trans [OF q(3)])
  next
    case (through u p g b)
    note q = kept [OF through(1)] and b = admitted_bytes [OF through(3,4) kept(1,2) [OF through(1)]]
    have k: "same_kept s s'" by (rule same_kept_trans [OF q(3) b(5)])
    have "as_min_free_bytes s' = as_min_free_bytes s" "as_draining u = as_draining s"
      using k q(3) by (simp_all add: same_kept_def same_defs)
    then have "\<not> as_draining s" "headroom_ok env request s"
      using through(7,8) by (simp_all add: headroom_ok_def headroom_iff)
    then show ?thesis
      using b k through(2,6) by (intro that [OF through(1)]) (simp_all add: through(5))
  qed
qed

lemma open_result:
  assumes "open_session env request_id p s = (s', r)" "sessions_ok s" "fmlookup (as_sessions s) (oe_id env) = None"
    and "\<And>session. oe_created env = Some session \<Longrightarrow> se_owner session = ap_id p"
  shows "sessions_ok s'" "same_caches s s'" "same_policy s s'" "as_active_connections s' = as_active_connections s"
    "as_principal_connections s' = as_principal_connections s" "as_principal_request_streams s' = as_principal_request_streams s"
    "as_principal_byte_windows s' = as_principal_byte_windows s" "as_response_byte_windows s' = as_response_byte_windows s"
proof -
  have d: "fmdrop (oe_id env) (as_sessions s) = as_sessions s"
    using assms(3) by (intro fmap_ext) simp
  show "sessions_ok s'"
    using assms d
    by (auto simp: open_session_def sessions_ok_def fmsize_upd fmcontains_def fmcount_upd Let_def
        split: if_splits sum.splits option.splits)
  show "same_caches s s'" "same_policy s s'" "as_active_connections s' = as_active_connections s"
    "as_principal_connections s' = as_principal_connections s" "as_principal_request_streams s' = as_principal_request_streams s"
    "as_principal_byte_windows s' = as_principal_byte_windows s" "as_response_byte_windows s' = as_response_byte_windows s"
    using assms(1) by (auto simp: open_session_def same_defs Let_def split: if_splits sum.splits option.splits)
qed

lemma inv_refused_accept:
  assumes "accept_connection remote certificate s = (s', Inl e)"
  shows "same_tables s s'" "same_caches s s'"
  using assms
  by (auto simp: accept_connection_def connection_guard_def drop_connection_guard_def same_defs Let_def
      split: if_splits option.splits)

lemma accept_result:
  assumes "accept_connection remote certificate s = (s', Inr c)"
  obtains u where "u = s\<lparr>as_active_connections := as_active_connections s + 1\<rparr>"
    "as_active_connections s < MAX_ACTIVE_CONNECTIONS" "connection_ok c"
    "cn_lease c = None \<and> s' = u \<or> (\<exists>p. cn_lease c = Some p \<and> principal_connection_guard p u = Some s')"
  using assms
  by (auto simp: accept_connection_def connection_guard_def connection_ok_def Let_def split: if_splits option.splits)

lemma connection_guard_frame:
  "principal_connection_guard p s = Some s' \<Longrightarrow> \<exists>a. s' = s\<lparr>as_principal_connections := a\<rparr>"
  by (auto simp: principal_connection_guard_def)

lemma inv_accepted:
  assumes "server_inv v" "fmlookup (sv_connections v) cid = None"
    and "accept_connection remote certificate (sv_store v) = (s, Inr c)"
  shows "server_inv (v\<lparr>sv_store := s, sv_connections := fmupd cid c (sv_connections v)\<rparr>)"
proof -
  from accept_result [OF assms(3)] obtain u where u: "u = (sv_store v)\<lparr>as_active_connections := as_active_connections (sv_store v) + 1\<rparr>"
      "as_active_connections (sv_store v) < MAX_ACTIVE_CONNECTIONS" "connection_ok c"
      "cn_lease c = None \<and> s = u \<or> (\<exists>p. cn_lease c = Some p \<and> principal_connection_guard p u = Some s)" by blast
  note d = server_invD [OF assms(1)] and h = lease_holders_upd [OF disjI1 [OF assms(2)]]
  have e: "connection_leases.exact u (lease_holders (sv_connections v))"
    using d(1) connection_leases.exact_cong [of u "sv_store v"] by (simp add: u(1))
  obtain a where a: "s = u\<lparr>as_principal_connections := a\<rparr>"
    using u(4) connection_guard_frame by (metis access_store.surjective access_store.update_convs(14))
  have "connection_leases.exact s (lease_holders (fmupd cid c (sv_connections v)))"
    using u(4) e h connection_leases.exact_acquire [OF e] by fastforce
  moreover have "stream_leases.exact s (stream_holders (sv_streams v))" "sessions_ok s" "budgets_ok s"
    "as_active_connections s = as_active_connections (sv_store v) + 1"
    using d by (simp_all add: a u(1) stream_leases.exact_def sessions_ok_def budgets_ok_def)
  ultimately show ?thesis
    using d u(2,3) fmsize_upd_new [OF assms(2)] by (auto simp: server_inv_def)
qed

lemma inv_closed:
  assumes "server_inv v" "fmlookup (sv_connections v) cid = Some c"
  shows "server_inv (v\<lparr>sv_store := close_connection c (sv_store v), sv_connections := fmdrop cid (sv_connections v)\<rparr>)"
proof -
  note d = server_invD [OF assms(1)]
  have "lease_holders (fmdrop cid (sv_connections v)) = (case cn_lease c of
      None \<Rightarrow> lease_holders (sv_connections v)
    | Some p \<Rightarrow> (lease_holders (sv_connections v))(p := lease_holders (sv_connections v) p - 1))"
    using assms(2) by (auto simp: lease_holders_def fun_eq_iff fmcount_drop split: option.split)
  then have "connection_leases.exact (close_connection c (sv_store v)) (lease_holders (fmdrop cid (sv_connections v)))"
    using d(1) connection_leases.exact_release [OF d(1)]
    by (auto simp: close_connection_def drop_connection_guard_def connection_leases.exact_def split: option.splits)
  moreover have "stream_leases.exact (close_connection c (sv_store v)) (stream_holders (sv_streams v))"
    "sessions_ok (close_connection c (sv_store v))" "budgets_ok (close_connection c (sv_store v))"
    "as_active_connections (close_connection c (sv_store v)) = as_active_connections (sv_store v) - 1"
    using d by (simp_all add: close_connection_def drop_connection_guard_def drop_principal_connection_guard_def
        stream_leases.exact_def sessions_ok_def budgets_ok_def split: option.split)
  moreover have "fmsize (fmdrop cid (sv_connections v)) = fmsize (sv_connections v) - 1"
    using assms(2) by (simp add: fmsize_drop fmcontains_def)
  ultimately show ?thesis
    using d by (auto simp: server_inv_def)
qed

lemma inv_finished:
  assumes "server_inv v" "fmlookup (sv_streams v) sid = Some (cid, q)"
  shows "server_inv (v\<lparr>sv_store := drop_principal_request_stream_guard q (sv_store v), sv_streams := fmdrop sid (sv_streams v)\<rparr>)"
proof -
  note d = server_invD [OF assms(1)]
  have "stream_holders (fmdrop sid (sv_streams v)) = (stream_holders (sv_streams v))(q := stream_holders (sv_streams v) q - 1)"
    using assms(2) by (auto simp: stream_holders_def fun_eq_iff fmcount_drop)
  then have "stream_leases.exact (drop_principal_request_stream_guard q (sv_store v)) (stream_holders (fmdrop sid (sv_streams v)))"
    using stream_leases.exact_release [OF d(2)] by simp
  moreover have "connection_leases.exact (drop_principal_request_stream_guard q (sv_store v)) (lease_holders (sv_connections v))"
    "sessions_ok (drop_principal_request_stream_guard q (sv_store v))" "budgets_ok (drop_principal_request_stream_guard q (sv_store v))"
    "as_active_connections (drop_principal_request_stream_guard q (sv_store v)) = as_active_connections (sv_store v)"
    using d by (simp_all add: drop_principal_request_stream_guard_def connection_leases.exact_def sessions_ok_def budgets_ok_def)
  ultimately show ?thesis using d by (auto simp: server_inv_def)
qed

lemma stream_holders_new: "fmlookup m sid = None \<Longrightarrow>
    stream_holders (fmupd sid (cid, p) m) = (stream_holders m)(p := stream_holders m p + 1)"
  by (auto simp: stream_holders_def fun_eq_iff fmcount_upd fmcount_drop)

lemma inv_request:
  assumes "server_inv v" "fmlookup (sv_connections v) cid = Some c"
    and "admit_request x renv request n c (sv_store v) = (s, c', r)"
    and "streams = (case r of Inl _ \<Rightarrow> sv_streams v | Inr p \<Rightarrow> fmupd sid (cid, ap_id p) (sv_streams v))"
    and "\<And>p. r = Inr p \<Longrightarrow> fmlookup (sv_streams v) sid = None"
  shows "server_inv (v\<lparr>sv_store := s, sv_connections := fmupd cid c' (sv_connections v), sv_streams := streams\<rparr>)"
proof -
  note d = server_invD [OF assms(1)]
  from assms(3) d(6,2) obtain u where u: "revalidate x (re_files renv) c (sv_store v) = (u, c')"
      "budgets_ok s" "same_kept (sv_store v) s" and e: "case r of
       Inl _ \<Rightarrow> stream_leases.exact s (stream_holders (sv_streams v))
     | Inr p \<Rightarrow> stream_leases.exact s ((stream_holders (sv_streams v))(ap_id p := stream_holders (sv_streams v) (ap_id p) + 1))
         \<and> cn_authenticated c' \<and> cn_principal c' = Some p \<and> \<not> as_draining (sv_store v)
         \<and> headroom_ok renv request (sv_store v)"
    by (rule admit_result)
  have c: "connection_ok c'" "cn_lease c' = cn_lease c" using revalidate_connection [OF u(1) d(7) [OF assms(2)]] by simp_all
  have "stream_leases.exact s (stream_holders streams)"
  proof (cases r)
    case (Inl code)
    then show ?thesis using e assms(4) by simp
  next
    case (Inr p)
    then show ?thesis using e assms(4) stream_holders_new [OF assms(5) [OF Inr]] by simp
  qed
  then show ?thesis
    using assms(1) c u(2) same_kept_inv [OF u(3)] lease_holders_same [OF assms(2) c(2)] fmsize_upd_same [OF assms(2)]
    by (simp add: server_inv_def)
qed

lemma inv_store:
  assumes "server_inv v" "as_principal_connections s = as_principal_connections (sv_store v)"
    "as_principal_request_streams s = as_principal_request_streams (sv_store v)"
    "as_active_connections s = as_active_connections (sv_store v)" "sessions_ok s" "budgets_ok s"
  shows "server_inv (v\<lparr>sv_store := s\<rparr>)"
  using assms by (simp add: server_inv_def connection_leases.exact_def stream_leases.exact_def)

lemma server_step_inv:
  assumes "server_step x seen v v'" "server_inv v"
  shows "server_inv v'"
  using assms(1)
proof cases
  case (rejected remote certificate s e)
  then show ?thesis
    using assms(2) same_tables_inv [OF inv_refused_accept(1) [OF rejected(2)]] by (simp add: server_inv_def)
next
  case (hello cid c env version token features s c' r)
  from hello_result [OF hello(4) server_invD(7) [OF assms(2) hello(2)]] show ?thesis
    using inv_same [OF assms(2) hello(2)] inv_bound [OF assms(2) hello(2)] unfolding hello(1) by blast
next
  case (refused cid c renv request n s c' code)
  have "server_inv (v\<lparr>sv_store := s, sv_connections := fmupd cid c' (sv_connections v), sv_streams := sv_streams v\<rparr>)"
    by (rule inv_request [OF assms(2) refused(2,4), of _ 0]) simp_all
  then show ?thesis unfolding refused(1) by simp
next
  case (opened oenv request_id p s r)
  note o = open_result [OF opened(2) server_invD(5) [OF assms(2)] opened(3) opened(4)]
  have "budgets_ok s"
    using o(3,7,8) server_invD(6) [OF assms(2)] by (simp add: budgets_ok_def same_policy_def)
  then show ?thesis unfolding opened(1) using o by (intro inv_store [OF assms(2)]) simp_all
next
  case (responded now p n s r')
  note d = server_invD [OF assms(2)] and b = admit_response_bytes_frame [OF responded(2)]
  then have "sessions_ok s" "budgets_ok s" by (auto simp: sessions_ok_def)
  then show ?thesis unfolding responded(1) using b(1) by (intro inv_store [OF assms(2)]) auto
next
  case draining
  then show ?thesis
    using server_invD [OF assms(2)] inv_store [OF assms(2)] by (simp add: sessions_ok_def budgets_ok_def)
next
  case (admitted cid c sid renv request n s c' p)
  then show ?thesis by (auto intro!: inv_request [OF assms(2) admitted(2,5)])
qed (use assms(2) inv_accepted inv_closed inv_finished in auto)

lemma server_start_inv: "server_start s \<Longrightarrow>
    server_inv \<lparr>sv_store = s, sv_connections = fmempty, sv_streams = fmempty\<rparr>"
  by (simp add: server_start_def server_inv_def connection_leases.exact_def stream_leases.exact_def held_def
      lease_holders_def stream_holders_def sessions_ok_def budgets_ok_def fun_eq_iff)

lemma server_reachable_inv: "server_reachable x seen start v \<Longrightarrow> server_inv v"
  by (induction rule: server_reachable.induct) (auto intro: server_start_inv server_step_inv)

lemma server_step_caches:
  assumes "stamps_identify seen" "server_step x seen v v'" "server_inv v" "caches_ok x seen (sv_store v)"
  shows "caches_ok x seen (sv_store v')"
proof -
  note same = same_caches_ok [where x = x and seen = seen]
  from assms(2) show ?thesis
  proof cases
    case (accepted cid remote certificate s c)
    from accepted(3) have "same_caches (sv_store v) s"
      by (rule accept_result) (auto simp: same_defs dest: connection_guard_frame)
    then show ?thesis using assms(4) same accepted(1) by simp
  next
    case (rejected remote certificate s e)
    then show ?thesis using assms(4) same [OF inv_refused_accept(2) [OF rejected(2)]] by simp
  next
    case (hello cid c env version token features s c' r)
    then show ?thesis
      using hello_caches [OF assms(1,4) hello(3,4) server_invD(7) [OF assms(3) hello(2)]] by simp
  next
    case (admitted cid c sid renv request n s c' p)
    from admitted(5) server_invD(6,2) [OF assms(3)] obtain u where
      "revalidate x (re_files renv) c (sv_store v) = (u, c')" "same_caches u s" by (rule admit_result)
    then show ?thesis
      using revalidate_caches [OF assms(1,4) admitted(4)] same [of u s] admitted(1) by simp
  next
    case (refused cid c renv request n s c' code)
    from refused(4) server_invD(6,2) [OF assms(3)] obtain u where
      "revalidate x (re_files renv) c (sv_store v) = (u, c')" "same_caches u s" by (rule admit_result)
    then show ?thesis
      using revalidate_caches [OF assms(1,4) refused(3)] same [of u s] refused(1) by simp
  next
    case (opened oenv request_id p s r)
    then show ?thesis
      using assms(4) same open_result(2) [OF opened(2) server_invD(5) [OF assms(3)] opened(3,4)] by simp
  next
    case (responded now p n s r')
    then show ?thesis
      using assms(4) admit_response_bytes_frame(1) [OF responded(2)] same [of "sv_store v" s] by (auto simp: same_defs)
  qed (use assms(4) same in \<open>auto simp: same_defs close_connection_def drop_connection_guard_def
      drop_principal_connection_guard_def drop_principal_request_stream_guard_def caches_ok_def split: option.splits\<close>)
qed

lemma server_reachable_caches:
  assumes "stamps_identify seen" "server_reachable x seen start v"
  shows "caches_ok x seen (sv_store v)"
  using assms(2)
proof (induction rule: server_reachable.induct)
  case initial
  then show ?case by (simp add: server_start_def caches_ok_def cache_ok_def)
next
  case (step v v')
  then show ?case using server_step_caches [OF assms(1)] server_reachable_inv by blast
qed

lemma server_step_lease:
  assumes "server_step x seen v v'" "server_inv v" "fmlookup (sv_connections v) cid = Some c" "cn_lease c = Some p"
    and "fmlookup (sv_connections v') cid = Some c'"
  shows "cn_lease c' = Some p"
  using assms(1)
proof cases
  case (hello cid' k env version token features s k' r)
  from hello_result [OF hello(4) server_invD(7) [OF assms(2) hello(2)]] show ?thesis
    using assms(3-5) hello by (auto split: if_splits)
next
  case (admitted cid' k sid renv request n s k' q)
  from admitted(5) server_invD(6,2) [OF assms(2)] obtain u where
    "revalidate x (re_files renv) k (sv_store v) = (u, k')" by (rule admit_result)
  then show ?thesis
    using revalidate_connection(2) server_invD(7) [OF assms(2) admitted(2)] assms(3-5) admitted(1,2)
    by (auto split: if_splits)
next
  case (refused cid' k renv request n s k' code)
  from refused(4) server_invD(6,2) [OF assms(2)] obtain u where
    "revalidate x (re_files renv) k (sv_store v) = (u, k')" by (rule admit_result)
  then show ?thesis
    using revalidate_connection(2) server_invD(7) [OF assms(2) refused(2)] assms(3-5) refused(1,2)
    by (auto split: if_splits)
qed (use assms(3-5) in \<open>auto split: if_splits\<close>)

section \<open>Properties\<close>

text \<open>A server with one token, one accepted connection and its HELLO.\<close>

definition demo_token :: string where
  "demo_token = replicate 40 (CHR ''k'')"

definition demo_store :: access_store where
  "demo_store = \<lparr>as_auth_token = Some demo_token, as_auth_token_file = False, as_auth_principals_file = False,
     as_auth_certificates_file = False, as_token_cache = None, as_principals_cache = None, as_certificates_cache = None,
     as_auth_failure_windows = fmempty, as_principal_byte_windows = fmempty, as_response_byte_windows = fmempty,
     as_request_bytes_limit = 1000, as_response_bytes_limit = 1000, as_active_connections = 0,
     as_principal_connections = fmempty, as_principal_request_streams = fmempty, as_min_free_bytes = 0,
     as_draining = False, as_sessions = fmempty, as_open_requests = fmempty\<rparr>"

definition demo_auth_codec :: auth_codec where
  "demo_auth_codec = \<lparr>ax_principals = (\<lambda>_. None), ax_certificates = (\<lambda>_. None)\<rparr>"

definition demo_files :: auth_files where
  "demo_files = \<lparr>fl_token = None, fl_principals = None, fl_certificates = None\<rparr>"

definition demo_connection :: connection where
  "demo_connection = \<lparr>cn_remote = V4 1, cn_peer_certificate = None, cn_authenticated = False, cn_principal = None,
     cn_lease = None, cn_features = {||}, cn_frame_mode = FRAME_MODE_UNKNOWN\<rparr>"

definition demo_bound :: connection where
  "demo_bound = demo_connection\<lparr>cn_authenticated := True, cn_principal := Some (legacy demo_token),
     cn_lease := Some ''legacy'', cn_frame_mode := FRAME_MODE_CURRENT\<rparr>"

definition demo_server :: server where
  "demo_server = \<lparr>sv_store = demo_store\<lparr>as_active_connections := 1, as_principal_connections := fmupd ''legacy'' 1 fmempty\<rparr>,
     sv_connections = fmupd 0 demo_bound fmempty, sv_streams = fmempty\<rparr>"

lemma demo_files_seen: "files_seen {} demo_files" "stamps_identify {}"
  by (simp_all add: files_seen_def demo_files_def stamps_identify_def)

lemma demo_server_reachable: "server_reachable demo_auth_codec {} demo_store demo_server"
proof -
  let ?v0 = "\<lparr>sv_store = demo_store, sv_connections = fmempty, sv_streams = fmempty\<rparr>"
  let ?v1 = "?v0\<lparr>sv_store := demo_store\<lparr>as_active_connections := 1\<rparr>, sv_connections := fmupd 0 demo_connection fmempty\<rparr>"
  let ?env = "\<lparr>he_files = demo_files, he_now_attempt = 5, he_now_failure = 6, he_max_protocol_version = 17, he_server = []\<rparr>"
  have "server_start demo_store"
    by (simp add: server_start_def demo_store_def consts_simps)
  then have r0: "server_reachable demo_auth_codec {} demo_store ?v0" by (rule server_reachable.initial)
  have "accept_connection (V4 1) None (sv_store ?v0) = (demo_store\<lparr>as_active_connections := 1\<rparr>, Inr demo_connection)"
    by (simp add: accept_connection_def connection_guard_def demo_store_def demo_connection_def auth_required_def consts_simps)
  from server_step.accepted [OF _ this, of 0] have r1: "server_reachable demo_auth_codec {} demo_store ?v1"
    using server_reachable.step [OF r0, of ?v1] by simp
  have [simp]: "fmdrop k (fmupd k w fmempty) = fmempty" for k :: ip_addr and w :: auth_failure_window
    by (rule fmap_ext) simp
  have "\<exists>r. handle_hello demo_auth_codec ?env 17 (Some demo_token) None demo_connection (sv_store ?v1)
      = (sv_store demo_server, demo_bound, r)"
    by (simp add: handle_hello_def demo_connection_def demo_bound_def demo_server_def demo_store_def
        validate_frame_mode_for_version_def frame_mode_for_version_def compare_exchange_mode_def
        auth_attempt_allowed_def auth_required_def prune_windows_def current_window_def fresh_window_def renew_window_def
        blocked_at_def hello_principal_def authenticate_def match_token_def demo_token_def record_auth_success_def
        install_connection_principal_def principal_identity_conflicts_def principal_connection_guard_def take_lease_def
        held_def legacy_def protocol_version_supported_def SUPPORTED_PROTOCOL_VERSIONS_def consts_simps
        fmretain_def oldest_window_def Let_def)
  then obtain r where h: "handle_hello demo_auth_codec ?env 17 (Some demo_token) None demo_connection (sv_store ?v1)
      = (sv_store demo_server, demo_bound, r)" by blast
  have "server_step demo_auth_codec {} ?v1 (?v1\<lparr>sv_store := sv_store demo_server,
      sv_connections := fmupd 0 demo_bound (sv_connections ?v1)\<rparr>)"
    by (rule server_step.hello [OF _ _ h]) (simp_all add: demo_files_seen)
  moreover have "?v1\<lparr>sv_store := sv_store demo_server, sv_connections := fmupd 0 demo_bound (sv_connections ?v1)\<rparr> = demo_server"
    by (simp add: demo_server_def)
  ultimately show ?thesis using server_reachable.step [OF r1] by simp
qed

text \<open>Claim C19. In every state the server can reach, the leases are exact: each principal holds as
  many connection leases as open connections are bound to it and as many stream leases as its
  admitted requests still run, never more than the limits; the connections, the sessions
  altogether and per owner, and the bytes charged to a window stay within theirs; and no step
  moves a bound connection to another principal.\<close>

theorem server_quotas_exact:
  assumes "server_reachable x seen start v"
  shows "(\<forall>p. held (as_principal_connections (sv_store v)) p = fmcount (\<lambda>c. cn_lease c = Some p) (sv_connections v)
        \<and> held (as_principal_connections (sv_store v)) p \<le> MAX_ACTIVE_CONNECTIONS_PER_PRINCIPAL
        \<and> held (as_principal_request_streams (sv_store v)) p = fmcount (\<lambda>t. snd t = p) (sv_streams v)
        \<and> held (as_principal_request_streams (sv_store v)) p \<le> MAX_CONCURRENT_REQUESTS_PER_PRINCIPAL
        \<and> fmcount (\<lambda>session. se_owner session = p) (as_sessions (sv_store v)) \<le> MAX_SESSIONS_PER_PRINCIPAL)
    \<and> as_active_connections (sv_store v) = fmsize (sv_connections v)
    \<and> fmsize (sv_connections v) \<le> MAX_ACTIVE_CONNECTIONS \<and> fmsize (as_sessions (sv_store v)) \<le> MAX_SESSIONS
    \<and> fmpred (\<lambda>_ w. bw_bytes w \<le> as_request_bytes_limit (sv_store v)) (as_principal_byte_windows (sv_store v))
    \<and> fmpred (\<lambda>_ w. bw_bytes w \<le> as_response_bytes_limit (sv_store v)) (as_response_byte_windows (sv_store v))
    \<and> (\<forall>v' cid c c' p. server_step x seen v v' \<longrightarrow> fmlookup (sv_connections v) cid = Some c \<longrightarrow> cn_lease c = Some p
        \<longrightarrow> fmlookup (sv_connections v') cid = Some c' \<longrightarrow> cn_lease c' = Some p)"
proof -
  note i = server_reachable_inv [OF assms]
  have c: "held (as_principal_connections (sv_store v)) p = fmcount (\<lambda>c. cn_lease c = Some p) (sv_connections v)"
    "held (as_principal_connections (sv_store v)) p \<le> MAX_ACTIVE_CONNECTIONS_PER_PRINCIPAL" for p
    using server_invD(1) [OF i] by (simp_all add: connection_leases.exact_def lease_holders_def)
  have t: "held (as_principal_request_streams (sv_store v)) p = fmcount (\<lambda>t. snd t = p) (sv_streams v)"
    "held (as_principal_request_streams (sv_store v)) p \<le> MAX_CONCURRENT_REQUESTS_PER_PRINCIPAL" for p
    using server_invD(2) [OF i] by (simp_all add: stream_leases.exact_def stream_holders_def)
  show ?thesis
    by (intro conjI allI impI c t server_invD(3,4) [OF i] server_invD(5) [OF i, unfolded sessions_ok_def, THEN conjunct1]
        server_invD(5) [OF i, unfolded sessions_ok_def, THEN conjunct2, rule_format]
        server_invD(6) [OF i, unfolded budgets_ok_def, THEN conjunct1]
        server_invD(6) [OF i, unfolded budgets_ok_def, THEN conjunct2])
       (rule server_step_lease [OF _ i])
qed

theorem server_quotas_exact_witness:
  "server_reachable demo_auth_codec {} demo_store demo_server
    \<and> held (as_principal_connections (sv_store demo_server)) ''legacy'' = fmcount (\<lambda>c. cn_lease c = Some ''legacy'')
        (sv_connections demo_server)
    \<and> held (as_principal_connections (sv_store demo_server)) ''legacy'' = 1
    \<and> as_active_connections (sv_store demo_server) = fmsize (sv_connections demo_server)"
proof -
  note q = server_quotas_exact [OF demo_server_reachable]
  have "held (as_principal_connections (sv_store demo_server)) ''legacy'' = 1"
    by (simp add: held_def demo_server_def)
  then show ?thesis
    using demo_server_reachable q [THEN conjunct1, rule_format, of "''legacy''"] q [THEN conjunct2, THEN conjunct1]
    by simp
qed

text \<open>Claim C18. A request that is admitted on a connection of a reachable server runs under the
  principal the connection is bound to, whose credential the credential files accept at this
  moment although they are cached, while the server is not draining and the required free space
  is there; a session it is given belongs to that principal, which has the scope of the request.
  A request that is refused leaves no stream lease behind.\<close>

theorem admitted_request_authorized:
  assumes "stamps_identify seen" "server_reachable x seen start v" "files_seen seen (re_files env)"
    and "fmlookup (sv_connections v) cid = Some c" "admit_request x env request n c (sv_store v) = (s, c', r)"
  shows "case r of
      Inl _ \<Rightarrow> held (as_principal_request_streams s) = held (as_principal_request_streams (sv_store v))
    | Inr p \<Rightarrow> cn_lease c = Some (ap_id p)
        \<and> (case ap_certificate_sha256 p of
             None \<Rightarrow> snd (authenticate x (re_files env) (ap_credential p) (without_caches (sv_store v))) = Some p
           | Some fingerprint \<Rightarrow>
               snd (authenticate_certificate x (re_files env) fingerprint (without_caches (sv_store v))) = Some p)
        \<and> \<not> as_draining (sv_store v)
        \<and> (request_requires_storage_headroom request \<longrightarrow> as_min_free_bytes (sv_store v) \<le> re_available env)
        \<and> (\<forall>session. authorize_request s p request = Inr (Some session) \<longrightarrow>
             se_owner session = ap_id p
             \<and> (\<exists>sid scope. request_requirement request = SessionScope sid scope \<and> allows p scope
                \<and> fmlookup (as_sessions s) sid = Some session))"
proof -
  note i = server_reachable_inv [OF assms(2)]
  from assms(5) server_invD(6,2) [OF i] obtain u where u: "revalidate x (re_files env) c (sv_store v) = (u, c')"
      and e: "case r of
       Inl _ \<Rightarrow> stream_leases.exact s (stream_holders (sv_streams v))
     | Inr p \<Rightarrow> stream_leases.exact s ((stream_holders (sv_streams v))(ap_id p := stream_holders (sv_streams v) (ap_id p) + 1))
         \<and> cn_authenticated c' \<and> cn_principal c' = Some p \<and> \<not> as_draining (sv_store v)
         \<and> headroom_ok env request (sv_store v)"
    by (rule admit_result)
  show ?thesis
  proof (cases r)
    case (Inl code)
    then show ?thesis using e server_invD(2) [OF i] by (simp add: stream_leases.exact_def)
  next
    case (Inr p)
    have c: "connection_ok c" by (rule server_invD(7) [OF i assms(4)])
    have a: "cn_authenticated c'" "cn_principal c' = Some p" using e Inr by simp_all
    have lease: "cn_lease c = Some (ap_id p)"
      using revalidate_connection(3) [OF u c a(2)] c by (simp add: connection_ok_def)
    obtain w where "principal_current x (re_files env) p (sv_store v) = (w, True)"
      using revalidate_current [OF u a] by blast
    from principal_current_fresh(2) [OF assms(1) server_reachable_caches [OF assms(1,2)] assms(3) this]
    have current: "case ap_certificate_sha256 p of
        None \<Rightarrow> snd (authenticate x (re_files env) (ap_credential p) (without_caches (sv_store v))) = Some p
      | Some fingerprint \<Rightarrow>
          snd (authenticate_certificate x (re_files env) fingerprint (without_caches (sv_store v))) = Some p"
      by (simp add: principal_current_def case_prod_beta split: option.splits)
    have session: "se_owner session = ap_id p \<and> (\<exists>sid scope. request_requirement request = SessionScope sid scope
        \<and> allows p scope \<and> fmlookup (as_sessions s) sid = Some session)"
      if "authorize_request s p request = Inr (Some session)" for session
      using that
      by (cases "request_requirement request")
         (auto simp: authorize_request_def get_authorized_def get_session_def require_scope_def and_then_Inr_iff
           ok_or_Inr_iff map_err_Inr_iff split: if_splits)
    show ?thesis using e Inr lease current session by (simp add: headroom_ok_def)
  qed
qed

theorem admitted_request_authorized_witness:
  "\<exists>s c'. admit_request demo_auth_codec \<lparr>re_files = demo_files, re_now = 7, re_available = 0\<rparr> ReqHealth 10 demo_bound
        (sv_store demo_server) = (s, c', Inr (legacy demo_token))
    \<and> cn_lease demo_bound = Some ''legacy''
    \<and> snd (authenticate demo_auth_codec demo_files demo_token (without_caches (sv_store demo_server)))
        = Some (legacy demo_token)"
proof -
  let ?env = "\<lparr>re_files = demo_files, re_now = 7, re_available = 0\<rparr>"
  have "\<exists>s c'. admit_request demo_auth_codec ?env ReqHealth 10 demo_bound (sv_store demo_server)
      = (s, c', Inr (legacy demo_token))"
    by (simp add: admit_request_def revalidate_def principal_current_def authenticate_def auth_required_def demo_bound_def
        demo_connection_def demo_server_def demo_store_def legacy_def match_token_def demo_token_def
        principal_request_stream_guard_def take_lease_def held_def admit_request_bytes_def admit_bytes_def
        request_requires_storage_headroom_def request_kind_def fmretain_def saturating_add_def u64_max_def
        consts_simps Let_def)
  then obtain s c' where a: "admit_request demo_auth_codec ?env ReqHealth 10 demo_bound (sv_store demo_server)
      = (s, c', Inr (legacy demo_token))" by blast
  have "fmlookup (sv_connections demo_server) 0 = Some demo_bound" by (simp add: demo_server_def)
  from admitted_request_authorized [OF demo_files_seen(2) demo_server_reachable _ this a]
  show ?thesis using a demo_files_seen(1) by (simp add: legacy_def)
qed

end
