(* ===== verification/Pty_Screen.thy ===== *)
theory Pty_Screen
  imports Connection Pty_Datagram
begin

text \<open>
  The server's side of a PTY attachment: the terminal state that outlives connections
  (\<open>crates/asp-pty/src/lib.rs\<close>), the replaceable screen datagrams, the scrollback page and the
  messages of the attachment's stream (\<open>handle_pty\<close>).

  The terminal emulator (\<open>vt100\<close>) is a parameter.  The tmux helper, the kernel's PTY and the
  datagram queue appear by their outcomes.
\<close>

section \<open>The terminal state\<close>

record 't terminal =
  vt_new :: "u16 \<Rightarrow> u16 \<Rightarrow> 't"
  vt_process :: "bytes \<Rightarrow> 't \<Rightarrow> 't"
  vt_set_size :: "u16 \<Rightarrow> u16 \<Rightarrow> 't \<Rightarrow> 't"
  vt_size :: "'t \<Rightarrow> u16 \<times> u16"
  vt_rows :: "'t \<Rightarrow> string list"
  vt_cursor_position :: "'t \<Rightarrow> u16 \<times> u16"
  vt_contents_formatted :: "'t \<Rightarrow> bytes"

record screen_snapshot =
  sn_generation :: u64
  sn_rows :: u16
  sn_cols :: u16
  sn_screen :: "string list"
  sn_cursor_row :: u16
  sn_cursor_col :: u16
  sn_tail :: bytes

record rich_screen_snapshot =
  rn_generation :: u64
  rn_rows :: u16
  rn_cols :: u16
  rn_screen :: bytes
  rn_cursor_row :: u16
  rn_cursor_col :: u16

record 't pty_state =
  pt_generation :: u64
  pt_tail :: bytes
  pt_parser :: 't
  pt_snapshot_cache :: "screen_snapshot option"
  pt_rich_snapshot_cache :: "rich_screen_snapshot option"

definition TAIL_LIMIT :: usize where [consts_simps]: "TAIL_LIMIT = 65536"

definition spawn_command_with_tmux :: "'t terminal \<Rightarrow> u16 \<Rightarrow> u16 \<Rightarrow> u64 \<Rightarrow> 't pty_state" where
  "spawn_command_with_tmux vt rows cols generation =
     \<lparr>pt_generation = generation, pt_tail = [], pt_parser = vt_new vt rows cols,
      pt_snapshot_cache = None, pt_rich_snapshot_cache = None\<rparr>"

fun trim_tail :: "bytes \<Rightarrow> bytes" where
  "trim_tail [] = []"
| "trim_tail (b # tail) = (if TAIL_LIMIT < length (b # tail) then trim_tail tail else b # tail)"

text \<open>One chunk of output in the reader thread.  The counter is a \<open>u64\<close> that wraps.\<close>

definition pty_read :: "'t terminal \<Rightarrow> bytes \<Rightarrow> 't pty_state \<Rightarrow> 't pty_state" where
  "pty_read vt chunk s =
     s\<lparr>pt_generation := (pt_generation s + 1) mod 2 ^ 64,
       pt_parser := vt_process vt chunk (pt_parser s),
       pt_tail := trim_tail (pt_tail s @ chunk),
       pt_snapshot_cache := None, pt_rich_snapshot_cache := None\<rparr>"

definition resize :: "'t terminal \<Rightarrow> u16 \<Rightarrow> u16 \<Rightarrow> 't pty_state \<Rightarrow> 't pty_state" where
  "resize vt rows cols s =
     s\<lparr>pt_parser := vt_set_size vt rows cols (pt_parser s),
       pt_snapshot_cache := None, pt_rich_snapshot_cache := None\<rparr>"

definition snapshot :: "'t terminal \<Rightarrow> 't pty_state \<Rightarrow> 't pty_state \<times> screen_snapshot" where
  "snapshot vt s =
     (case pt_snapshot_cache s of
        Some snap \<Rightarrow> (s, snap)
      | None \<Rightarrow>
      let snap = \<lparr>sn_generation = pt_generation s,
            sn_rows = fst (vt_size vt (pt_parser s)), sn_cols = snd (vt_size vt (pt_parser s)),
            sn_screen = vt_rows vt (pt_parser s),
            sn_cursor_row = fst (vt_cursor_position vt (pt_parser s)),
            sn_cursor_col = snd (vt_cursor_position vt (pt_parser s)), sn_tail = pt_tail s\<rparr>
      in (s\<lparr>pt_snapshot_cache := Some snap\<rparr>, snap))"

definition rich_snapshot :: "'t terminal \<Rightarrow> 't pty_state \<Rightarrow> 't pty_state \<times> rich_screen_snapshot" where
  "rich_snapshot vt s =
     (case pt_rich_snapshot_cache s of
        Some snap \<Rightarrow> (s, snap)
      | None \<Rightarrow>
      let snap = \<lparr>rn_generation = pt_generation s,
            rn_rows = fst (vt_size vt (pt_parser s)), rn_cols = snd (vt_size vt (pt_parser s)),
            rn_screen = vt_contents_formatted vt (pt_parser s),
            rn_cursor_row = fst (vt_cursor_position vt (pt_parser s)),
            rn_cursor_col = snd (vt_cursor_position vt (pt_parser s))\<rparr>
      in (s\<lparr>pt_rich_snapshot_cache := Some snap\<rparr>, snap))"

definition protocol_pty_snapshot :: "screen_snapshot \<Rightarrow> pty_snapshot" where
  "protocol_pty_snapshot snap =
     \<lparr>ps_generation = sn_generation snap, ps_rows = sn_rows snap, ps_cols = sn_cols snap,
      ps_screen = sn_screen snap, ps_cursor_row = sn_cursor_row snap,
      ps_cursor_col = sn_cursor_col snap, ps_tail = sn_tail snap\<rparr>"

definition protocol_pty_rich_snapshot :: "rich_screen_snapshot \<Rightarrow> pty_rich_snapshot" where
  "protocol_pty_rich_snapshot snap =
     \<lparr>rs_generation = rn_generation snap, rs_rows = rn_rows snap, rs_cols = rn_cols snap,
      rs_screen = rn_screen snap, rs_cursor_row = rn_cursor_row snap,
      rs_cursor_col = rn_cursor_col snap\<rparr>"

section \<open>Scrollback\<close>

definition is_char_boundary :: "string \<Rightarrow> nat \<Rightarrow> bool" where
  "is_char_boundary line i \<longleftrightarrow> i = 0 \<or> i = length line
     \<or> i < length line \<and> \<not> (128 \<le> byte_of (line ! i) \<and> byte_of (line ! i) < 192)"

fun boundary_before :: "string \<Rightarrow> nat \<Rightarrow> nat" where
  "boundary_before line 0 = 0"
| "boundary_before line (Suc i) =
     (if is_char_boundary line (Suc i) then Suc i else boundary_before line i)"

definition printable_line :: "string \<Rightarrow> string" where
  "printable_line line =
     (let line = concat (filter (\<lambda>p. \<not> list_ex is_control (str_chars p)) (str_pieces line)) in
      if PTY_SCROLLBACK_MAX_LINE_BYTES < length line
      then take (boundary_before line PTY_SCROLLBACK_MAX_LINE_BYTES) line else line)"

fun retain_lines :: "string list \<Rightarrow> usize \<Rightarrow> string list \<Rightarrow> string list" where
  "retain_lines retained n [] = retained"
| "retain_lines retained n (line # lines) =
     (if PTY_SCROLLBACK_MAX_LINES \<le> length retained then retained
      else
      let line = printable_line line;
          next_n = saturating_add n (length line)
      in if PTY_SCROLLBACK_MAX_BYTES < next_n then retained
         else retain_lines (retained @ [line]) next_n lines)"

definition protocol_pty_scrollback_snapshot ::
    "u64 \<Rightarrow> u16 \<Rightarrow> u16 \<Rightarrow> string list \<Rightarrow> pty_scrollback_snapshot" where
  "protocol_pty_scrollback_snapshot generation rows cols lines =
     \<lparr>sb_generation = generation, sb_rows = rows, sb_cols = cols, sb_lines = retain_lines [] 0 lines\<rparr>"

section \<open>Screen datagrams\<close>

definition PTY_DELTA_FULL_INTERVAL :: nat where [consts_simps]: "PTY_DELTA_FULL_INTERVAL = 16"

record pty_datagram_state =
  ds_last :: "screen_snapshot option"
  ds_delta_frames_since_full :: nat

definition changed_rows :: "string list \<Rightarrow> string list \<Rightarrow> pty_row_delta list" where
  "changed_rows old new =
     map (\<lambda>(row, _, text). \<lparr>rd_row = row mod 2 ^ 16, rd_text = text\<rparr>)
       (filter (\<lambda>(_, a, b). a \<noteq> b) (enumerate 0 (zip old new)))"

definition derive_pty_row_deltas :: "screen_snapshot \<Rightarrow> screen_snapshot \<Rightarrow> pty_row_delta list option" where
  "derive_pty_row_deltas previous snap =
     (if sn_generation snap \<le> sn_generation previous \<or> sn_rows previous \<noteq> sn_rows snap
         \<or> sn_cols previous \<noteq> sn_cols snap \<or> length (sn_screen previous) \<noteq> length (sn_screen snap)
      then None else Some (changed_rows (sn_screen previous) (sn_screen snap)))"

text \<open>The negotiated datagram size and, for a payload, whether the transport takes it.\<close>

record datagram_path =
  dp_max_datagram_size :: "usize option"
  dp_send :: "bytes \<Rightarrow> bool"

record datagram_codec =
  dc_full :: "pty_state_datagram \<Rightarrow> bytes option"
  dc_delta :: "pty_state_delta_datagram \<Rightarrow> bytes option"
  dc_rich :: "pty_state_rich_datagram \<Rightarrow> bytes option"

definition full_datagram :: "uuid \<Rightarrow> screen_snapshot \<Rightarrow> pty_state_datagram" where
  "full_datagram sid snap =
     \<lparr>pd_session_id = sid, pd_generation = sn_generation snap, pd_rows = sn_rows snap,
      pd_cols = sn_cols snap, pd_screen = sn_screen snap, pd_cursor_row = sn_cursor_row snap,
      pd_cursor_col = sn_cursor_col snap\<rparr>"

definition delta_datagram ::
    "uuid \<Rightarrow> screen_snapshot \<Rightarrow> screen_snapshot \<Rightarrow> pty_row_delta list \<Rightarrow> pty_state_delta_datagram" where
  "delta_datagram sid previous snap changes =
     \<lparr>dd_session_id = sid, dd_base_generation = sn_generation previous,
      dd_generation = sn_generation snap, dd_rows = sn_rows snap, dd_cols = sn_cols snap,
      dd_changes = changes, dd_cursor_row = sn_cursor_row snap, dd_cursor_col = sn_cursor_col snap\<rparr>"

definition send_pty_state_datagram ::
    "datagram_codec \<Rightarrow> datagram_path \<Rightarrow> uuid \<Rightarrow> screen_snapshot \<Rightarrow> bytes option" where
  "send_pty_state_datagram dc path sid snap =
     (case (dc_full dc (full_datagram sid snap), dp_max_datagram_size path) of
        (Some encoded, Some max_size) \<Rightarrow>
          if length encoded \<le> max_size \<and> dp_send path encoded then Some encoded else None
      | _ \<Rightarrow> None)"

text \<open>The base is only moved when the transport took the payload.\<close>

definition send_delta ::
    "datagram_codec \<Rightarrow> datagram_path \<Rightarrow> usize \<Rightarrow> uuid \<Rightarrow> screen_snapshot \<Rightarrow> usize \<Rightarrow> pty_datagram_state
       \<Rightarrow> bytes option" where
  "send_delta dc path max_size sid snap full_len st =
     (case ds_last st of
        None \<Rightarrow> None
      | Some previous \<Rightarrow>
          if PTY_DELTA_FULL_INTERVAL \<le> ds_delta_frames_since_full st then None
          else case derive_pty_row_deltas previous snap of
            None \<Rightarrow> None
          | Some changes \<Rightarrow>
              (case encode_pty_state_delta_datagram (dc_delta dc) (delta_datagram sid previous snap changes) max_size of
                 Inr (Some payload) \<Rightarrow>
                   if length payload < full_len \<and> dp_send path payload then Some payload else None
               | _ \<Rightarrow> None))"

definition send_pty_state_delta_or_full ::
    "datagram_codec \<Rightarrow> datagram_path \<Rightarrow> uuid \<Rightarrow> screen_snapshot \<Rightarrow> pty_datagram_state
       \<Rightarrow> pty_datagram_state \<times> bytes option" where
  "send_pty_state_delta_or_full dc path sid snap st =
     (case (dp_max_datagram_size path, dc_full dc (full_datagram sid snap)) of
        (Some max_size, Some full) \<Rightarrow>
          (case send_delta dc path max_size sid snap (length full) st of
             Some payload \<Rightarrow>
               (\<lparr>ds_last = Some snap, ds_delta_frames_since_full = min (ds_delta_frames_since_full st + 1) 255\<rparr>,
                Some payload)
           | None \<Rightarrow>
               if length full \<le> max_size \<and> dp_send path full
               then (\<lparr>ds_last = Some snap, ds_delta_frames_since_full = 0\<rparr>, Some full)
               else (\<lparr>ds_last = None, ds_delta_frames_since_full = 0\<rparr>, None))
      | _ \<Rightarrow> (st, None))"

definition rich_datagram :: "uuid \<Rightarrow> rich_screen_snapshot \<Rightarrow> pty_state_rich_datagram" where
  "rich_datagram sid snap =
     \<lparr>rich_session_id = sid, rich_generation = rn_generation snap, rich_rows = rn_rows snap,
      rich_cols = rn_cols snap, rich_screen = rn_screen snap, rich_cursor_row = rn_cursor_row snap,
      rich_cursor_col = rn_cursor_col snap\<rparr>"

definition send_pty_state_rich_datagram ::
    "datagram_codec \<Rightarrow> deflater \<Rightarrow> datagram_path \<Rightarrow> uuid \<Rightarrow> rich_screen_snapshot \<Rightarrow> bool \<Rightarrow> bytes option" where
  "send_pty_state_rich_datagram dc deflate path sid snap allow_compression =
     (case dp_max_datagram_size path of
        None \<Rightarrow> None
      | Some max_size \<Rightarrow>
          (case encode_pty_rich_datagram (dc_rich dc) deflate (rich_datagram sid snap) max_size allow_compression of
             Inr (Some payload) \<Rightarrow> if dp_send path payload then Some payload else None
           | _ \<Rightarrow> None))"

section \<open>Input\<close>

type_synonym input_sequencer = "u64 option"

definition sequencer_accept :: "u64 \<Rightarrow> input_sequencer \<Rightarrow> input_sequencer \<times> (u64 + bool)" where
  "sequencer_accept sequence last_seq =
     (case last_seq of
        None \<Rightarrow> if sequence = 0 then (Some sequence, Inr True) else (None, Inl 0)
      | Some l \<Rightarrow>
          if sequence \<le> l then (last_seq, Inr False)
          else if sequence = saturating_add l 1 then (Some sequence, Inr True)
          else (last_seq, Inl (saturating_add l 1)))"

definition PTY_INPUT_MAX_BYTES :: usize where [consts_simps]: "PTY_INPUT_MAX_BYTES = 65536"

definition PTY_MAX_DIMENSION :: u16 where [consts_simps]: "PTY_MAX_DIMENSION = 500"

definition invalid_pty_size :: "u16 \<Rightarrow> u16 \<Rightarrow> bool" where
  "invalid_pty_size rows cols \<longleftrightarrow> rows = 0 \<or> cols = 0 \<or> PTY_MAX_DIMENSION < rows \<or> PTY_MAX_DIMENSION < cols"

text \<open>How a message of the stream ends: the loop goes on, the stream is finished after an error
  response with a code, or the handler fails.\<close>

datatype pty_outcome = PtyGoesOn "response option" | PtyRefused string | PtyFailed

text \<open>The checks every message of the stream passes first.\<close>

definition pty_admit ::
    "auth_codec \<Rightarrow> request_env \<Rightarrow> string \<Rightarrow> usize \<Rightarrow> auth_principal option \<Rightarrow> access_store
       \<Rightarrow> access_store \<times> pty_outcome option" where
  "pty_admit x env operation frame_bytes current s =
     (case current of
        None \<Rightarrow> (s, Some PtyFailed)
      | Some p \<Rightarrow>
      (case principal_current x (re_files env) p s of
        (s, False) \<Rightarrow> (s, Some (PtyRefused ''authentication_revoked''))
      | (s, True) \<Rightarrow>
      if require_scope p ''pty:use'' \<noteq> Inr () then (s, Some PtyFailed)
      else case admit_request_bytes (re_now env) p operation frame_bytes s of
        (s, Inl _) \<Rightarrow> (s, Some (PtyRefused ''principal_byte_budget''))
      | (s, Inr _) \<Rightarrow> (s, None)))"

definition pty_input_check :: "request_env \<Rightarrow> bytes \<Rightarrow> access_store \<Rightarrow> pty_outcome option" where
  "pty_input_check env data s =
     (if PTY_INPUT_MAX_BYTES < length data then Some (PtyRefused ''pty_input_too_large'')
      else if ensure_storage_headroom (re_available env) s \<noteq> Inr () then Some (PtyRefused ''storage_headroom'')
      else None)"

text \<open>The state of an attachment: the session it shows, the last input sequence, the base of its
  datagrams, whether a datagram is due and the negotiated forms.\<close>

record attachment =
  at_session :: uuid
  at_inputs :: input_sequencer
  at_datagrams :: pty_datagram_state
  at_pending :: bool
  at_rich_state :: bool
  at_rich_compression :: bool
  at_delta_state :: bool

text \<open>A message on the stream: the attachment, the PTY, the bytes written to the terminal and the
  outcome.  \<open>write_ok\<close> and \<open>resize_ok\<close> are the outcomes of the calls on the kernel's PTY.\<close>

definition pty_message ::
    "'t terminal \<Rightarrow> auth_codec \<Rightarrow> request_env \<Rightarrow> bool \<Rightarrow> bool \<Rightarrow> request \<Rightarrow> usize \<Rightarrow> auth_principal option
       \<Rightarrow> access_store \<Rightarrow> attachment \<Rightarrow> 't pty_state
       \<Rightarrow> access_store \<times> attachment \<times> 't pty_state \<times> bytes option \<times> pty_outcome" where
  "pty_message vt x env write_ok resize_ok request n current s a pty = (case request of
     ReqPtyInput sid data \<Rightarrow>
       if sid \<noteq> at_session a then (s, a, pty, None, PtyRefused ''invalid_pty_message'')
       else (case pty_admit x env ''pty_input'' n current s of
         (s, Some out) \<Rightarrow> (s, a, pty, None, out)
       | (s, None) \<Rightarrow>
         (case pty_input_check env data s of
            Some out \<Rightarrow> (s, a, pty, None, out)
          | None \<Rightarrow> if write_ok then (s, a, pty, Some data, PtyGoesOn None) else (s, a, pty, None, PtyFailed)))
   | ReqPtyInputSequenced sid sequence data \<Rightarrow>
       if sid \<noteq> at_session a then (s, a, pty, None, PtyRefused ''invalid_pty_message'')
       else (case pty_admit x env ''pty_input_sequenced'' n current s of
         (s, Some out) \<Rightarrow> (s, a, pty, None, out)
       | (s, None) \<Rightarrow>
         (case pty_input_check env data s of
            Some out \<Rightarrow> (s, a, pty, None, out)
          | None \<Rightarrow>
            (case sequencer_accept sequence (at_inputs a) of
               (q, Inl _) \<Rightarrow> (s, a\<lparr>at_inputs := q\<rparr>, pty, None, PtyRefused ''pty_input_gap'')
             | (q, Inr False) \<Rightarrow> (s, a\<lparr>at_inputs := q\<rparr>, pty, None, PtyGoesOn (Some (RespPtyInputAck sequence)))
             | (q, Inr True) \<Rightarrow>
                 if write_ok
                 then (s, a\<lparr>at_inputs := q\<rparr>, pty, Some data, PtyGoesOn (Some (RespPtyInputAck sequence)))
                 else (s, a\<lparr>at_inputs := q\<rparr>, pty, None, PtyFailed))))
   | ReqPtyResize sid rows cols \<Rightarrow>
       if sid \<noteq> at_session a then (s, a, pty, None, PtyRefused ''invalid_pty_message'')
       else (case pty_admit x env ''pty_resize'' n current s of
         (s, Some out) \<Rightarrow> (s, a, pty, None, out)
       | (s, None) \<Rightarrow>
         if invalid_pty_size rows cols then (s, a, pty, None, PtyRefused ''invalid_pty_size'')
         else if \<not> resize_ok then (s, a, pty, None, PtyFailed)
         else (s, a\<lparr>at_pending := True\<rparr>, resize vt rows cols pty, None, PtyGoesOn None))
   | _ \<Rightarrow> (s, a, pty, None, PtyRefused ''invalid_pty_message''))"

section \<open>Output\<close>

text \<open>The first response of an attachment.  The output is subscribed to after it was sent.\<close>

definition attach_pty ::
    "'t terminal \<Rightarrow> uuid \<Rightarrow> string fset \<Rightarrow> 't pty_state \<Rightarrow> 't pty_state \<times> attachment \<times> response" where
  "attach_pty vt sid features pty =
     (let rich = ''pty_rich_state'' |\<in>| features;
          a = \<lparr>at_session = sid, at_inputs = None, at_datagrams = \<lparr>ds_last = None, ds_delta_frames_since_full = 0\<rparr>,
               at_pending = False, at_rich_state = rich,
               at_rich_compression = (rich \<and> ''pty_rich_compression'' |\<in>| features),
               at_delta_state = (\<not> rich \<and> ''pty_state_delta'' |\<in>| features)\<rparr>
      in if rich
         then (let (pty, snap) = rich_snapshot vt pty in (pty, a, RespPtyReadyRich (protocol_pty_rich_snapshot snap)))
         else (let (pty, snap) = snapshot vt pty
               in (pty, a\<lparr>at_datagrams := \<lparr>ds_last = Some snap, ds_delta_frames_since_full = 0\<rparr>\<rparr>,
                   RespPtyReady (protocol_pty_snapshot snap))))"

definition pty_chunk :: "bytes \<Rightarrow> attachment \<Rightarrow> 't pty_state \<Rightarrow> attachment \<times> response" where
  "pty_chunk data a pty = (a\<lparr>at_pending := True\<rparr>, RespPtyOutput (pt_generation pty) data)"

definition pty_lagged :: "'t terminal \<Rightarrow> attachment \<Rightarrow> 't pty_state \<Rightarrow> 't pty_state \<times> attachment \<times> response" where
  "pty_lagged vt a pty =
     (if at_rich_state a
      then (let (pty, snap) = rich_snapshot vt pty
            in (pty, a\<lparr>at_pending := True\<rparr>, RespPtyReadyRich (protocol_pty_rich_snapshot snap)))
      else (let (pty, snap) = snapshot vt pty
            in (pty, a\<lparr>at_datagrams := \<lparr>ds_last = Some snap, ds_delta_frames_since_full = 0\<rparr>, at_pending := True\<rparr>,
                RespPtyReady (protocol_pty_snapshot snap))))"

definition datagram_tick ::
    "'t terminal \<Rightarrow> datagram_codec \<Rightarrow> deflater \<Rightarrow> datagram_path \<Rightarrow> attachment \<Rightarrow> 't pty_state
       \<Rightarrow> 't pty_state \<times> attachment \<times> bytes option" where
  "datagram_tick vt dc deflate path a pty =
     (if \<not> at_pending a then (pty, a, None)
      else
      let a = a\<lparr>at_pending := False\<rparr> in
      if at_rich_state a
      then (let (pty, snap) = rich_snapshot vt pty
            in (pty, a, send_pty_state_rich_datagram dc deflate path (at_session a) snap (at_rich_compression a)))
      else if at_delta_state a
      then (let (pty, snap) = snapshot vt pty;
                (st, payload) = send_pty_state_delta_or_full dc path (at_session a) snap (at_datagrams a)
            in (pty, a\<lparr>at_datagrams := st\<rparr>, payload))
      else (let (pty, snap) = snapshot vt pty
            in (pty, a, send_pty_state_datagram dc path (at_session a) snap)))"

end
