(* ===== verification/Pty_Client.thy ===== *)
theory Pty_Client
  imports Pty_Screen
begin

text \<open>
  The client's side of a PTY attachment (\<open>crates/asp-client/src/main.rs\<close>): the screen it
  keeps as the base of row updates, the generation that orders reliable output and replaceable
  screens, what it paints on the local terminal, and the check of a scrollback page.
\<close>

section \<open>The screen\<close>

record plain_pty_screen_state =
  cs_generation :: u64
  cs_rows :: u16
  cs_cols :: u16
  cs_screen :: "string list"
  cs_cursor_row :: u16
  cs_cursor_col :: u16

definition from_snapshot :: "pty_snapshot \<Rightarrow> plain_pty_screen_state" where
  "from_snapshot snap =
     \<lparr>cs_generation = ps_generation snap, cs_rows = ps_rows snap, cs_cols = ps_cols snap,
      cs_screen = ps_screen snap, cs_cursor_row = ps_cursor_row snap, cs_cursor_col = ps_cursor_col snap\<rparr>"

definition from_datagram :: "pty_state_datagram \<Rightarrow> plain_pty_screen_state" where
  "from_datagram d =
     \<lparr>cs_generation = pd_generation d, cs_rows = pd_rows d, cs_cols = pd_cols d,
      cs_screen = pd_screen d, cs_cursor_row = pd_cursor_row d, cs_cursor_col = pd_cursor_col d\<rparr>"

definition MAX_ROW_BYTES :: usize where [consts_simps]: "MAX_ROW_BYTES = 65536"

fun valid_changes :: "u16 \<Rightarrow> usize \<Rightarrow> u16 option \<Rightarrow> pty_row_delta list \<Rightarrow> bool" where
  "valid_changes rows n previous_row [] = True"
| "valid_changes rows n previous_row (change # changes) =
     (if rows \<le> rd_row change \<or> n \<le> rd_row change \<or> MAX_ROW_BYTES < length (rd_text change)
         \<or> (case previous_row of None \<Rightarrow> False | Some previous \<Rightarrow> rd_row change \<le> previous)
      then False else valid_changes rows n (Some (rd_row change)) changes)"

definition apply_changes :: "pty_row_delta list \<Rightarrow> string list \<Rightarrow> string list" where
  "apply_changes changes screen = fold (\<lambda>change screen. screen[rd_row change := rd_text change]) changes screen"

definition apply_delta ::
    "pty_state_delta_datagram \<Rightarrow> plain_pty_screen_state \<Rightarrow> plain_pty_screen_state \<times> bool option" where
  "apply_delta delta c =
     (if dd_base_generation delta \<noteq> cs_generation c \<or> dd_generation delta \<le> dd_base_generation delta
         \<or> dd_rows delta \<noteq> cs_rows c \<or> dd_cols delta \<noteq> cs_cols c
         \<or> length (cs_screen c) < length (dd_changes delta)
      then (c, None)
      else if \<not> valid_changes (cs_rows c) (length (cs_screen c)) None (dd_changes delta) then (c, None)
      else
      (c\<lparr>cs_screen := apply_changes (dd_changes delta) (cs_screen c), cs_generation := dd_generation delta,
         cs_cursor_row := dd_cursor_row delta, cs_cursor_col := dd_cursor_col delta\<rparr>,
       Some (dd_changes delta \<noteq> [] \<or> cs_cursor_row c \<noteq> dd_cursor_row delta
         \<or> cs_cursor_col c \<noteq> dd_cursor_col delta)))"

definition record_pty_generation :: "u64 \<Rightarrow> u64 \<Rightarrow> u64 \<times> bool" where
  "record_pty_generation current candidate =
     (if candidate \<le> current then (current, False) else (candidate, True))"

section \<open>Painting\<close>

fun decimal :: "nat \<Rightarrow> string" where
  "decimal n = (if n < 10 then [char_of (48 + n)] else decimal (n div 10) @ [char_of (48 + n mod 10)])"

declare decimal.simps [simp del]

definition ESC :: string where "ESC = [CHR 0x1B]"

definition paint_row :: "nat \<Rightarrow> string \<Rightarrow> string" where
  "paint_row row text = ESC @ ''['' @ decimal (row + 1) @ '';1H'' @ ESC @ ''[2K'' @ text"

definition paint_cursor :: "u16 \<Rightarrow> u16 \<Rightarrow> string" where
  "paint_cursor row col =
     ESC @ ''['' @ decimal (min (row + 1) u16_max) @ '';'' @ decimal (min (col + 1) u16_max) @ ''H''"

definition render_pty_snapshot_to :: "pty_snapshot \<Rightarrow> bytes" where
  "render_pty_snapshot_to snap =
     as_bytes (ESC @ ''[2J'' @ concat (map (\<lambda>(row, text). paint_row row text) (enumerate 0 (ps_screen snap)))
       @ paint_cursor (ps_cursor_row snap) (ps_cursor_col snap))"

definition render_pty_delta_to :: "pty_state_delta_datagram \<Rightarrow> bytes" where
  "render_pty_delta_to delta =
     as_bytes (concat (map (\<lambda>change. paint_row (rd_row change) (rd_text change)) (dd_changes delta))
       @ paint_cursor (dd_cursor_row delta) (dd_cursor_col delta))"

definition render_pty_rich_snapshot_to :: "pty_rich_snapshot \<Rightarrow> bytes" where
  "render_pty_rich_snapshot_to snap = rs_screen snap"

definition render_pty_scrollback_to :: "pty_scrollback_snapshot \<Rightarrow> bytes" where
  "render_pty_scrollback_to snap =
     as_bytes (concat (map (\<lambda>line. [CHR 0x0D] @ line @ [CHR 0x0A]) (sb_lines snap)))"

section \<open>The attachment\<close>

fun scrollback_bytes :: "string list \<Rightarrow> usize \<Rightarrow> usize option" where
  "scrollback_bytes [] n = Some n"
| "scrollback_bytes (line # lines) n =
     (if PTY_SCROLLBACK_MAX_LINE_BYTES < length line \<or> list_ex is_control (str_chars line) then None
      else scrollback_bytes lines (saturating_add n (length line)))"

definition validate_pty_scrollback_snapshot :: "pty_scrollback_snapshot \<Rightarrow> bool" where
  "validate_pty_scrollback_snapshot snap \<longleftrightarrow>
     sb_rows snap \<noteq> 0 \<and> sb_cols snap \<noteq> 0 \<and> length (sb_lines snap) \<le> PTY_SCROLLBACK_MAX_LINES
     \<and> (case scrollback_bytes (sb_lines snap) 0 of None \<Rightarrow> False | Some n \<Rightarrow> n \<le> PTY_SCROLLBACK_MAX_BYTES)"

record shell_view =
  sh_session :: uuid
  sh_newest_generation :: u64
  sh_plain :: "plain_pty_screen_state option"
  sh_painted :: bytes

definition paint :: "bytes \<Rightarrow> shell_view \<Rightarrow> shell_view" where
  "paint b v = v\<lparr>sh_painted := sh_painted v @ b\<rparr>"

text \<open>The first responses of an attachment; \<^const>\<open>None\<close> when the attachment fails.\<close>

definition open_pty :: "uuid \<Rightarrow> response \<Rightarrow> response option \<Rightarrow> bytes \<Rightarrow> shell_view option" where
  "open_pty sid ready scrollback painted =
     (let history = (case scrollback of
            None \<Rightarrow> Some []
          | Some (RespPtyReadyScrollback snap) \<Rightarrow>
              if validate_pty_scrollback_snapshot snap then Some (render_pty_scrollback_to snap) else None
          | Some _ \<Rightarrow> None)
      in case (ready, history) of
        (RespPtyReady snap, Some h) \<Rightarrow>
          Some \<lparr>sh_session = sid, sh_newest_generation = ps_generation snap, sh_plain = Some (from_snapshot snap),
                sh_painted = painted @ h @ render_pty_snapshot_to snap\<rparr>
      | (RespPtyReadyRich snap, Some h) \<Rightarrow>
          Some \<lparr>sh_session = sid, sh_newest_generation = rs_generation snap, sh_plain = None,
                sh_painted = painted @ h @ render_pty_rich_snapshot_to snap\<rparr>
      | _ \<Rightarrow> None)"

text \<open>A response on the stream; \<^const>\<open>None\<close> when the attachment fails.\<close>

definition shell_response :: "response \<Rightarrow> shell_view \<Rightarrow> shell_view option" where
  "shell_response r v = (case r of
     RespPtyOutput generation data \<Rightarrow>
       Some (paint data (v\<lparr>sh_newest_generation := fst (record_pty_generation (sh_newest_generation v) generation)\<rparr>))
   | RespPtyInputAck _ \<Rightarrow> Some v
   | RespPtyReady snap \<Rightarrow>
       let (newest, newer) = record_pty_generation (sh_newest_generation v) (ps_generation snap);
           v = v\<lparr>sh_newest_generation := newest\<rparr>
       in Some (if newer then (paint (render_pty_snapshot_to snap) v)\<lparr>sh_plain := Some (from_snapshot snap)\<rparr> else v)
   | RespPtyReadyRich snap \<Rightarrow>
       let (newest, newer) = record_pty_generation (sh_newest_generation v) (rs_generation snap);
           v = v\<lparr>sh_newest_generation := newest\<rparr>
       in Some (if newer then (paint (render_pty_rich_snapshot_to snap) v)\<lparr>sh_plain := None\<rparr> else v)
   | _ \<Rightarrow> None)"

record datagram_decoders =
  dr_full :: "bytes \<Rightarrow> pty_state_datagram option"
  dr_delta :: "bytes \<Rightarrow> pty_state_delta_datagram option"
  dr_rich :: "bytes \<Rightarrow> pty_state_rich_datagram option"
  dr_inflate :: inflater

definition shell_delta :: "pty_state_delta_datagram \<Rightarrow> shell_view \<Rightarrow> shell_view" where
  "shell_delta delta v =
     (case sh_plain v of
        Some c \<Rightarrow>
          if dd_session_id delta = sh_session v \<and> sh_newest_generation v \<le> dd_generation delta then
            (case apply_delta delta c of
               (c, Some changed) \<Rightarrow>
                 let v = v\<lparr>sh_plain := Some c,
                           sh_newest_generation := max (sh_newest_generation v) (dd_generation delta)\<rparr>
                 in if changed then paint (render_pty_delta_to delta) v else v
             | (c, None) \<Rightarrow> v\<lparr>sh_plain := Some c\<rparr>)
          else v
      | None \<Rightarrow> v)"

definition shell_rich :: "pty_state_rich_datagram \<Rightarrow> shell_view \<Rightarrow> shell_view" where
  "shell_rich d v =
     (if rich_session_id d \<noteq> sh_session v then v
      else
      let (newest, newer) = record_pty_generation (sh_newest_generation v) (rich_generation d);
          v = v\<lparr>sh_newest_generation := newest\<rparr>
      in if newer
         then paint (render_pty_rich_snapshot_to
                \<lparr>rs_generation = rich_generation d, rs_rows = rich_rows d, rs_cols = rich_cols d,
                 rs_screen = rich_screen d, rs_cursor_row = rich_cursor_row d, rs_cursor_col = rich_cursor_col d\<rparr>) v
         else v)"

definition shell_full :: "pty_state_datagram \<Rightarrow> shell_view \<Rightarrow> shell_view" where
  "shell_full d v =
     (if pd_session_id d \<noteq> sh_session v then v
      else
      let (newest, newer) = record_pty_generation (sh_newest_generation v) (pd_generation d);
          v = v\<lparr>sh_newest_generation := newest\<rparr>
      in if newer
         then paint (render_pty_snapshot_to
                \<lparr>ps_generation = pd_generation d, ps_rows = pd_rows d, ps_cols = pd_cols d,
                 ps_screen = pd_screen d, ps_cursor_row = pd_cursor_row d, ps_cursor_col = pd_cursor_col d,
                 ps_tail = []\<rparr>) (v\<lparr>sh_plain := Some (from_datagram d)\<rparr>)
         else v)"

definition shell_datagram :: "datagram_decoders \<Rightarrow> string fset \<Rightarrow> bytes \<Rightarrow> shell_view \<Rightarrow> shell_view" where
  "shell_datagram dr features payload v =
     (case (if ''pty_state_delta'' |\<in>| features then decode_pty_state_delta_datagram (dr_delta dr) payload
            else Inr None) of
        Inr (Some delta) \<Rightarrow> shell_delta delta v
      | _ \<Rightarrow>
      (case decode_pty_rich_datagram (dr_rich dr) (dr_inflate dr) payload (''pty_rich_compression'' |\<in>| features) of
        Inr (Some d) \<Rightarrow> shell_rich d v
      | _ \<Rightarrow>
      (case decode_pty_state_datagram (dr_full dr) payload of
        Inl _ \<Rightarrow> v
      | Inr d \<Rightarrow> shell_full d v)))"

end
