(* ===== verification/Pty_Sync.thy ===== *)
theory Pty_Sync
  imports Pty_Client
begin

text \<open>
  A PTY attachment as a whole: the terminal that goes on producing output, the server's loop, a
  reliable stream, datagrams that may be lost, delayed, reordered and repeated, and the client.
  The lemmas relate the client's screen to the screens the terminal had.
\<close>

section \<open>The terminal over time\<close>

definition pty_after :: "'t terminal \<Rightarrow> 't pty_state \<Rightarrow> bytes list \<Rightarrow> 't pty_state" where
  "pty_after vt pty chunks = fold (pty_read vt) chunks pty"

definition uncached :: "'t pty_state \<Rightarrow> 't pty_state" where
  "uncached pty = pty\<lparr>pt_snapshot_cache := None, pt_rich_snapshot_cache := None\<rparr>"

text \<open>The screen of a terminal, and its screen after the first \<open>k\<close> chunks of output.\<close>

definition rendered :: "'t terminal \<Rightarrow> 't pty_state \<Rightarrow> screen_snapshot" where
  "rendered vt pty = snd (snapshot vt (uncached pty))"

definition screen_at :: "'t terminal \<Rightarrow> 't pty_state \<Rightarrow> bytes list \<Rightarrow> nat \<Rightarrow> screen_snapshot" where
  "screen_at vt pty chunks k = rendered vt (pty_after vt pty (take k chunks))"

definition past_screens :: "'t terminal \<Rightarrow> 't pty_state \<Rightarrow> bytes list \<Rightarrow> screen_snapshot set" where
  "past_screens vt pty chunks = screen_at vt pty chunks ` {..length chunks}"

lemma rendered_uncached: "uncached a = uncached b \<Longrightarrow> rendered vt a = rendered vt b"
  by (simp add: rendered_def)

lemma uncached_simps [simp]:
  "pt_generation (uncached p) = pt_generation p" "pt_parser (uncached p) = pt_parser p"
  "pt_tail (uncached p) = pt_tail p" "pt_snapshot_cache (uncached p) = None"
  by (simp_all add: uncached_def)

lemma uncached_eq_iff:
  "uncached a = uncached b \<longleftrightarrow>
     pt_generation a = pt_generation b \<and> pt_parser a = pt_parser b \<and> pt_tail a = pt_tail b"
  for a b :: "'t pty_state"
  by (cases a; cases b) (auto simp: uncached_def)

lemma rendered_generation [simp]: "sn_generation (rendered vt p) = pt_generation p"
  by (simp add: rendered_def snapshot_def Let_def)

lemma rendered_screen [simp]: "sn_screen (rendered vt p) = vt_rows vt (pt_parser p)"
  by (simp add: rendered_def snapshot_def Let_def)

lemma pty_read_uncached: "uncached a = uncached b \<Longrightarrow> uncached (pty_read vt chunk a) = uncached (pty_read vt chunk b)"
  by (simp add: uncached_eq_iff pty_read_def)

lemma pty_after_append: "pty_after vt pty (chunks @ [chunk]) = pty_read vt chunk (pty_after vt pty chunks)"
  by (simp add: pty_after_def)

lemma screen_at_append: "k \<le> length chunks \<Longrightarrow> screen_at vt pty (chunks @ more_chunks) k = screen_at vt pty chunks k"
  by (simp add: screen_at_def)

lemma past_screens_append: "past_screens vt pty chunks \<subseteq> past_screens vt pty (chunks @ [chunk])"
proof
  fix a assume "a \<in> past_screens vt pty chunks"
  then obtain k where "k \<le> length chunks" "a = screen_at vt pty chunks k" by (auto simp: past_screens_def)
  then show "a \<in> past_screens vt pty (chunks @ [chunk])"
    using screen_at_append [of k chunks vt pty "[chunk]"] by (auto simp: past_screens_def intro!: image_eqI [of _ _ k])
qed

lemma past_screens_last: "rendered vt (pty_after vt pty chunks) \<in> past_screens vt pty chunks"
  by (force simp: past_screens_def screen_at_def)

lemma pty_after_generation:
  "pt_generation pty + length chunks \<le> u64_max \<Longrightarrow>
     pt_generation (pty_after vt pty chunks) = pt_generation pty + length chunks"
proof (induction chunks rule: rev_induct)
  case (snoc chunk chunks)
  then show ?case by (simp add: pty_after_append) (simp add: pty_read_def u64_max_def)
qed (simp add: pty_after_def)

lemma past_generation:
  assumes "pt_generation pty + length chunks \<le> u64_max" "k \<le> length chunks"
  shows "sn_generation (screen_at vt pty chunks k) = pt_generation pty + k"
  using assms by (simp add: screen_at_def pty_after_generation)

lemma past_unique:
  assumes "pt_generation pty + length chunks \<le> u64_max" "a \<in> past_screens vt pty chunks"
    and "b \<in> past_screens vt pty chunks" "sn_generation a = sn_generation b"
  shows "a = b"
  using assms by (auto simp: past_screens_def past_generation)

lemma past_generation_le:
  assumes "pt_generation pty + length chunks \<le> u64_max" "a \<in> past_screens vt pty chunks"
  shows "sn_generation a \<le> pt_generation pty + length chunks"
  using assms by (auto simp: past_screens_def past_generation)

definition cache_fresh :: "'t terminal \<Rightarrow> 't pty_state \<Rightarrow> bool" where
  "cache_fresh vt pty \<longleftrightarrow> pt_snapshot_cache pty = None \<or> pt_snapshot_cache pty = Some (rendered vt pty)"

lemma snapshot_result:
  assumes "cache_fresh vt pty" "snapshot vt pty = (pty', snap)"
  shows "snap = rendered vt pty" "uncached pty' = uncached pty" "cache_fresh vt pty'"
  using assms
  by (auto simp: cache_fresh_def snapshot_def rendered_def uncached_def Let_def split: option.splits)

lemma cache_fresh_read [simp]: "cache_fresh vt (pty_read vt chunk pty)" "cache_fresh vt (resize vt rows cols pty)"
  by (simp_all add: cache_fresh_def pty_read_def resize_def)

section \<open>Row updates\<close>

text \<open>Updating the changed rows of a screen gives the other screen.\<close>

definition screen_of :: "screen_snapshot \<Rightarrow> plain_pty_screen_state" where
  "screen_of snap = from_snapshot (protocol_pty_snapshot snap)"

lemma screen_of_simps [simp]:
  "cs_generation (screen_of snap) = sn_generation snap" "cs_rows (screen_of snap) = sn_rows snap"
  "cs_cols (screen_of snap) = sn_cols snap" "cs_screen (screen_of snap) = sn_screen snap"
  "cs_cursor_row (screen_of snap) = sn_cursor_row snap" "cs_cursor_col (screen_of snap) = sn_cursor_col snap"
  by (simp_all add: screen_of_def from_snapshot_def protocol_pty_snapshot_def)

lemma from_full_datagram: "from_datagram (full_datagram sid snap) = screen_of snap"
  by (simp add: from_datagram_def full_datagram_def screen_of_def from_snapshot_def protocol_pty_snapshot_def)

lemma apply_changes_at:
  assumes "length old = length new" "i = length pre" "i + length old \<le> 2 ^ 16"
  shows "apply_changes (map (\<lambda>(row, _, text). \<lparr>rd_row = row mod 2 ^ 16, rd_text = text\<rparr>)
      (filter (\<lambda>(_, a, b). a \<noteq> b) (enumerate i (zip old new)))) (pre @ old) = pre @ new"
  using assms
proof (induction old arbitrary: new i pre)
  case (Cons a old)
  then obtain b rest where new: "new = b # rest" by (cases new) auto
  have i: "i mod 2 ^ 16 = length pre" using Cons.prems by simp
  have "apply_changes (map (\<lambda>(row, _, text). \<lparr>rd_row = row mod 2 ^ 16, rd_text = text\<rparr>)
      (filter (\<lambda>(_, a, b). a \<noteq> b) (enumerate (Suc i) (zip old rest)))) ((pre @ [b]) @ old) = (pre @ [b]) @ rest"
    using Cons.prems by (intro Cons.IH) (simp_all add: new)
  then show ?case using i by (simp add: new apply_changes_def)
qed (simp add: apply_changes_def)

lemma apply_changed_rows:
  "length old = length new \<Longrightarrow> length old \<le> 2 ^ 16 \<Longrightarrow> apply_changes (changed_rows old new) old = new"
  using apply_changes_at [of old new 0 "[]"] by (simp add: changed_rows_def)

lemma apply_derived:
  assumes "derive_pty_row_deltas previous snap = Some changes" "length (sn_screen previous) \<le> 2 ^ 16"
    and "apply_delta (delta_datagram sid previous snap changes) (screen_of previous) = (c, r)"
  shows "c = (if r = None then screen_of previous else screen_of snap)"
  using assms apply_changed_rows [of "sn_screen previous" "sn_screen snap"]
  by (auto simp: apply_delta_def delta_datagram_def derive_pty_row_deltas_def screen_of_def from_snapshot_def
      protocol_pty_snapshot_def split: if_splits)

lemma apply_other_base:
  "cs_generation c \<noteq> dd_base_generation delta \<Longrightarrow> apply_delta delta c = (c, None)"
  by (simp add: apply_delta_def)

section \<open>The attachment as a system\<close>

record 't pty_system =
  sy_pty :: "'t pty_state"
  sy_attachment :: attachment
  sy_queue :: "bytes list"
  sy_stream :: "response list"
  sy_sent :: "bytes set"
  sy_view :: shell_view
  sy_output :: "bytes list"

text \<open>The encoders and decoders of the two sides belong together, and a plain screen starts with
  the length of its session identifier, not with one of the prefixes.\<close>

definition datagrams_lawful :: "datagram_codec \<Rightarrow> datagram_decoders \<Rightarrow> bool" where
  "datagrams_lawful dc dr \<longleftrightarrow> postcard_law (dc_full dc) (dr_full dr) \<and> postcard_law (dc_delta dc) (dr_delta dr)
     \<and> (\<forall>d b. dc_full dc d = Some b \<longrightarrow> take 1 b = [16])"

inductive pty_system_step ::
    "'t terminal \<Rightarrow> datagram_codec \<Rightarrow> datagram_decoders \<Rightarrow> deflater \<Rightarrow> string fset \<Rightarrow> bool
       \<Rightarrow> 't pty_system \<Rightarrow> 't pty_system \<Rightarrow> bool"
  for vt :: "'t terminal" and dc dr deflate features resizable where
  produced: "pt_generation (sy_pty y) < u64_max \<Longrightarrow>
    pty_system_step vt dc dr deflate features resizable y
      (y\<lparr>sy_pty := pty_read vt chunk (sy_pty y), sy_queue := sy_queue y @ [chunk], sy_output := sy_output y @ [chunk]\<rparr>)"
| resized: "resizable \<Longrightarrow>
    pty_system_step vt dc dr deflate features resizable y
      (y\<lparr>sy_pty := resize vt rows cols (sy_pty y), sy_attachment := (sy_attachment y)\<lparr>at_pending := True\<rparr>\<rparr>)"
| relayed: "sy_queue y = chunk # queue \<Longrightarrow> pty_chunk chunk (sy_attachment y) (sy_pty y) = (a, r) \<Longrightarrow>
    pty_system_step vt dc dr deflate features resizable y
      (y\<lparr>sy_attachment := a, sy_queue := queue, sy_stream := sy_stream y @ [r]\<rparr>)"
| lagged: "sy_queue y = dropped @ queue \<Longrightarrow> dropped \<noteq> [] \<Longrightarrow>
    pty_lagged vt (sy_attachment y) (sy_pty y) = (pty, a, r) \<Longrightarrow>
    pty_system_step vt dc dr deflate features resizable y
      (y\<lparr>sy_pty := pty, sy_attachment := a, sy_queue := queue, sy_stream := sy_stream y @ [r]\<rparr>)"
| ticked: "datagram_tick vt dc deflate path (sy_attachment y) (sy_pty y) = (pty, a, payload) \<Longrightarrow>
    pty_system_step vt dc dr deflate features resizable y
      (y\<lparr>sy_pty := pty, sy_attachment := a, sy_sent := sy_sent y \<union> set_option payload\<rparr>)"
| received: "sy_stream y = r # stream \<Longrightarrow> shell_response r (sy_view y) = Some v \<Longrightarrow>
    pty_system_step vt dc dr deflate features resizable y (y\<lparr>sy_stream := stream, sy_view := v\<rparr>)"
| datagram: "payload \<in> sy_sent y \<Longrightarrow>
    pty_system_step vt dc dr deflate features resizable y
      (y\<lparr>sy_view := shell_datagram dr features payload (sy_view y)\<rparr>)"

text \<open>The attachment starts with the first response; \<open>gap\<close> is the output between the snapshot it
  carries and the subscription to the output.\<close>

inductive pty_system_reachable ::
    "'t terminal \<Rightarrow> datagram_codec \<Rightarrow> datagram_decoders \<Rightarrow> deflater \<Rightarrow> string fset \<Rightarrow> bool
       \<Rightarrow> uuid \<Rightarrow> 't pty_state \<Rightarrow> 't pty_system \<Rightarrow> bool"
  for vt :: "'t terminal" and dc dr deflate features resizable sid pty where
  attached: "attach_pty vt sid features pty = (pty', a, ready) \<Longrightarrow> open_pty sid ready None painted = Some v \<Longrightarrow>
    pt_generation pty + length gap \<le> u64_max \<Longrightarrow>
    pty_system_reachable vt dc dr deflate features resizable sid pty
      \<lparr>sy_pty = pty_after vt pty' gap, sy_attachment = a, sy_queue = [], sy_stream = [], sy_sent = {},
       sy_view = v, sy_output = gap\<rparr>"
| step: "pty_system_reachable vt dc dr deflate features resizable sid pty y \<Longrightarrow>
    pty_system_step vt dc dr deflate features resizable y y' \<Longrightarrow>
    pty_system_reachable vt dc dr deflate features resizable sid pty y'"

section \<open>What a datagram can carry\<close>

definition carries :: "datagram_codec \<Rightarrow> string fset \<Rightarrow> uuid \<Rightarrow> screen_snapshot set \<Rightarrow> bytes \<Rightarrow> bool" where
  "carries dc features sid past payload \<longleftrightarrow>
     (\<exists>snap \<in> past. dc_full dc (full_datagram sid snap) = Some payload)
     \<or> ''pty_state_delta'' |\<in>| features \<and> (\<exists>previous \<in> past. \<exists>snap \<in> past. \<exists>changes max_size. derive_pty_row_deltas previous snap = Some changes
          \<and> encode_pty_state_delta_datagram (dc_delta dc) (delta_datagram sid previous snap changes) max_size
              = Inr (Some payload))"

lemma carries_mono: "carries dc features sid past payload \<Longrightarrow> past \<subseteq> past' \<Longrightarrow> carries dc features sid past' payload"
  unfolding carries_def by blast

lemma send_full_carries:
  "send_pty_state_datagram dc path sid snap = Some payload \<Longrightarrow> snap \<in> past \<Longrightarrow> carries dc features sid past payload"
  by (auto simp: send_pty_state_datagram_def carries_def split: option.splits if_splits)

lemma send_delta_cases:
  assumes "send_delta dc path max_size sid snap n st = Some payload"
  obtains previous changes where "ds_last st = Some previous" "derive_pty_row_deltas previous snap = Some changes"
    "encode_pty_state_delta_datagram (dc_delta dc) (delta_datagram sid previous snap changes) max_size
       = Inr (Some payload)"
  using assms by (auto simp: send_delta_def split: option.splits if_splits sum.splits)

lemma send_delta_or_full_cases:
  assumes "send_pty_state_delta_or_full dc path sid snap st = (st', payload)"
  obtains (none) "payload = None" "ds_last st' = ds_last st \<or> ds_last st' = None"
  | (full) full where "payload = Some full" "dc_full dc (full_datagram sid snap) = Some full" "ds_last st' = Some snap"
  | (delta) previous changes max_size b where "payload = Some b" "ds_last st' = Some snap" "ds_last st = Some previous"
      "derive_pty_row_deltas previous snap = Some changes"
      "encode_pty_state_delta_datagram (dc_delta dc) (delta_datagram sid previous snap changes) max_size = Inr (Some b)"
proof (cases "dp_max_datagram_size path")
  case None
  then show thesis using assms none by (auto simp: send_pty_state_delta_or_full_def)
next
  case (Some max_size)
  show thesis
  proof (cases "dc_full dc (full_datagram sid snap)")
    case None
    then show thesis using assms Some none by (auto simp: send_pty_state_delta_or_full_def)
  next
    case (Some f)
    note sent = assms [unfolded send_pty_state_delta_or_full_def \<open>dp_max_datagram_size path = _\<close> Some, simplified]
    show thesis
    proof (cases "send_delta dc path max_size sid snap (length f) st")
      case None
      then show thesis using sent none full [of f] Some by (cases "length f \<le> max_size \<and> dp_send path f") auto
    next
      case (Some b)
      from Some obtain previous changes where "ds_last st = Some previous"
          "derive_pty_row_deltas previous snap = Some changes"
          "encode_pty_state_delta_datagram (dc_delta dc) (delta_datagram sid previous snap changes) max_size = Inr (Some b)"
        by (rule send_delta_cases)
      then show thesis using sent Some delta [of b previous changes max_size] by auto
    qed
  qed
qed

lemma send_delta_or_full_carries:
  assumes "send_pty_state_delta_or_full dc path sid snap st = (st', payload)" "snap \<in> past"
    and "set_option (ds_last st) \<subseteq> past" "''pty_state_delta'' |\<in>| features"
  shows "set_option (ds_last st') \<subseteq> past" "b \<in> set_option payload \<Longrightarrow> carries dc features sid past b"
proof -
  have "set_option (ds_last st') \<subseteq> past \<and> (\<forall>b \<in> set_option payload. carries dc features sid past b)"
    using assms(1)
  proof (cases rule: send_delta_or_full_cases)
    case none
    then show ?thesis using assms(3) by auto
  next
    case (full f)
    then show ?thesis using assms(2) by (auto simp: carries_def)
  next
    case (delta previous changes max_size b)
    then show ?thesis using assms(2-4) by (auto simp: carries_def)
  qed
  then show "set_option (ds_last st') \<subseteq> past" "b \<in> set_option payload \<Longrightarrow> carries dc features sid past b"
    by auto
qed

lemma decode_full_payload:
  assumes "datagrams_lawful dc dr" "dc_full dc d = Some b"
  shows "dr_full dr b = Some d" "decode_pty_state_delta_datagram (dr_delta dr) b = Inr None"
    "decode_pty_rich_datagram (dr_rich dr) (dr_inflate dr) b allow = Inr None"
proof -
  have "take 1 b = [16]" "dr_full dr b = Some d" using assms by (auto simp: datagrams_lawful_def postcard_law_def)
  then obtain rest where "b = 16 # rest" by (cases b) auto
  then show "dr_full dr b = Some d" "decode_pty_state_delta_datagram (dr_delta dr) b = Inr None"
    "decode_pty_rich_datagram (dr_rich dr) (dr_inflate dr) b allow = Inr None"
    using \<open>dr_full dr b = Some d\<close>
    by (simp_all add: decode_pty_state_delta_datagram_def decode_pty_rich_datagram_def starts_with_def consts_simps)
qed

lemma shell_datagram_full:
  assumes "datagrams_lawful dc dr" "dc_full dc d = Some b"
  shows "shell_datagram dr features b v = v \<or> shell_datagram dr features b v = shell_full d v"
proof -
  note full = decode_full_payload [OF assms]
  have "decode_pty_state_datagram (dr_full dr) b = Inr d \<or> (\<exists>e. decode_pty_state_datagram (dr_full dr) b = Inl e)"
    using full(1) by (auto simp: decode_pty_state_datagram_def decode_message_def visit_seq_empty)
  then show ?thesis using full(2,3) by (auto simp: shell_datagram_def)
qed

lemma shell_datagram_delta:
  assumes "datagrams_lawful dc dr"
    and "encode_pty_state_delta_datagram (dc_delta dc) d max_size = Inr (Some b)" "''pty_state_delta'' |\<in>| features"
  shows "shell_datagram dr features b v = shell_delta d v"
proof -
  from encode_delta_Some [OF assms(2)] obtain encoded where e: "dc_delta dc d = Some encoded"
      "b = PTY_DELTA_DATAGRAM_MAGIC @ encoded" "length encoded \<le> PTY_DELTA_DATAGRAM_MAX_DECODED_BYTES"
      "length (dd_changes d) \<le> PTY_DELTA_MAX_ROWS" by blast
  have de: "dr_delta dr encoded = Some d" using assms(1) e(1) by (auto simp: datagrams_lawful_def postcard_law_def)
  have "decode_pty_state_delta_datagram (dr_delta dr) b = Inr (Some d)"
    using e(3,4) de by (simp add: e(2) decode_pty_state_delta_datagram_def decode_message_def visit_seq_empty Let_def)
  then show ?thesis using assms(3) by (simp add: shell_datagram_def)
qed

section \<open>The invariant of an attachment\<close>

definition view_ok :: "screen_snapshot set \<Rightarrow> u64 \<Rightarrow> uuid \<Rightarrow> shell_view \<Rightarrow> bool" where
  "view_ok past g sid v \<longleftrightarrow> sh_session v = sid \<and> sh_newest_generation v \<le> g
     \<and> (\<forall>c. sh_plain v = Some c \<longrightarrow> c \<in> screen_of ` past \<and> cs_generation c \<le> sh_newest_generation v)"

definition response_ok :: "screen_snapshot set \<Rightarrow> u64 \<Rightarrow> response \<Rightarrow> bool" where
  "response_ok past g r = (case r of
     RespPtyOutput generation _ \<Rightarrow> generation \<le> g
   | RespPtyReady snap \<Rightarrow> snap \<in> protocol_pty_snapshot ` past
   | _ \<Rightarrow> False)"

definition attachment_ok :: "screen_snapshot set \<Rightarrow> string fset \<Rightarrow> uuid \<Rightarrow> attachment \<Rightarrow> bool" where
  "attachment_ok past features sid a \<longleftrightarrow> \<not> at_rich_state a \<and> at_session a = sid
     \<and> (at_delta_state a \<longrightarrow> ''pty_state_delta'' |\<in>| features) \<and> set_option (ds_last (at_datagrams a)) \<subseteq> past"

definition pty_of :: "'t terminal \<Rightarrow> 't pty_state \<Rightarrow> bytes list \<Rightarrow> 't pty_state \<Rightarrow> bool" where
  "pty_of vt pty chunks now_pty \<longleftrightarrow> uncached now_pty = uncached (pty_after vt pty chunks) \<and> cache_fresh vt now_pty
     \<and> pt_generation pty + length chunks \<le> u64_max"

definition pty_system_inv ::
    "'t terminal \<Rightarrow> datagram_codec \<Rightarrow> string fset \<Rightarrow> uuid \<Rightarrow> 't pty_state \<Rightarrow> 't pty_system \<Rightarrow> bool" where
  "pty_system_inv vt dc features sid pty y \<longleftrightarrow>
     pty_of vt pty (sy_output y) (sy_pty y)
     \<and> attachment_ok (past_screens vt pty (sy_output y)) features sid (sy_attachment y)
     \<and> (\<forall>r \<in> set (sy_stream y). response_ok (past_screens vt pty (sy_output y)) (pt_generation (sy_pty y)) r)
     \<and> (\<forall>b \<in> sy_sent y. carries dc features sid (past_screens vt pty (sy_output y)) b)
     \<and> view_ok (past_screens vt pty (sy_output y)) (pt_generation (sy_pty y)) sid (sy_view y)"

lemma pty_of_result:
  assumes "pty_of vt pty chunks p"
  shows "pt_generation p = pt_generation pty + length chunks" "rendered vt p \<in> past_screens vt pty chunks"
  using assms pty_after_generation [of pty chunks vt] rendered_uncached [of p "pty_after vt pty chunks" vt]
    past_screens_last [of vt pty chunks]
  by (simp_all add: pty_of_def uncached_eq_iff)

lemma pty_of_snapshot:
  assumes "pty_of vt pty chunks p" "snapshot vt p = (p', snap)"
  shows "pty_of vt pty chunks p'" "snap \<in> past_screens vt pty chunks" "pt_generation p' = pt_generation p"
  using assms snapshot_result [of vt p p' snap] pty_of_result(2) [OF assms(1)]
  by (auto simp: pty_of_def uncached_eq_iff)

lemma pty_of_read:
  assumes "pty_of vt pty chunks p" "pt_generation p < u64_max"
  shows "pty_of vt pty (chunks @ [chunk]) (pty_read vt chunk p)"
    "pt_generation p \<le> pt_generation (pty_read vt chunk p)"
  using assms pty_of_result(1) [OF assms(1)] pty_read_uncached [of p "pty_after vt pty chunks" vt chunk]
  by (simp_all add: pty_of_def pty_after_append, simp_all add: pty_read_def u64_max_def)

lemma view_ok_mono:
  "view_ok past g sid v \<Longrightarrow> past \<subseteq> past' \<Longrightarrow> g \<le> g' \<Longrightarrow> view_ok past' g' sid v"
  by (fastforce simp: view_ok_def)

lemma response_ok_mono:
  "response_ok past g r \<Longrightarrow> past \<subseteq> past' \<Longrightarrow> g \<le> g' \<Longrightarrow> response_ok past' g' r"
  by (auto simp: response_ok_def split: response.splits)

lemma attachment_ok_mono: "attachment_ok past features sid a \<Longrightarrow> past \<subseteq> past' \<Longrightarrow> attachment_ok past' features sid a"
  by (auto simp: attachment_ok_def)

lemma view_ok_response:
  assumes "view_ok past g sid v" "response_ok past g r" "shell_response r v = Some v'"
    and "\<And>snap. snap \<in> past \<Longrightarrow> sn_generation snap \<le> g"
  shows "view_ok past g sid v'"
proof (cases r)
  case (RespPtyOutput generation data)
  then show ?thesis
    using assms(1-3) by (auto simp: view_ok_def response_ok_def shell_response_def paint_def record_pty_generation_def)
next
  case (RespPtyReady p)
  then obtain snap where snap: "snap \<in> past" "p = protocol_pty_snapshot snap"
    using assms(2) by (auto simp: response_ok_def)
  have "from_snapshot p = screen_of snap" by (simp add: snap(2) screen_of_def)
  then have p: "ps_generation p = sn_generation snap" "from_snapshot p \<in> screen_of ` past"
      "cs_generation (from_snapshot p) = sn_generation snap"
    using snap(1) by (auto simp: snap(2) protocol_pty_snapshot_def)
  show ?thesis
    using assms(1) assms(3) [symmetric] RespPtyReady assms(4) [OF snap(1)] p
    by (cases "sn_generation snap \<le> sh_newest_generation v")
       (simp_all add: view_ok_def shell_response_def paint_def record_pty_generation_def Let_def)
qed (use assms(2) in \<open>simp_all add: response_ok_def\<close>)

lemma view_ok_full:
  assumes "view_ok past g sid v" "snap \<in> past" "sn_generation snap \<le> g"
  shows "view_ok past g sid (shell_full (full_datagram sid snap) v)"
proof -
  have "pd_generation (full_datagram sid snap) = sn_generation snap" by (simp add: full_datagram_def)
  then show ?thesis
    using assms
    by (auto simp: view_ok_def shell_full_def record_pty_generation_def paint_def from_full_datagram Let_def)
qed

lemma view_ok_delta:
  assumes "view_ok past g sid v" "previous \<in> past" "snap \<in> past" "sn_generation snap \<le> g"
    and "derive_pty_row_deltas previous snap = Some changes" "length (sn_screen previous) \<le> 2 ^ 16"
    and "\<And>a b. a \<in> past \<Longrightarrow> b \<in> past \<Longrightarrow> sn_generation a = sn_generation b \<Longrightarrow> a = b"
  shows "view_ok past g sid (shell_delta (delta_datagram sid previous snap changes) v)"
proof (cases "sh_plain v")
  case None
  then show ?thesis using assms(1) by (simp add: shell_delta_def)
next
  case (Some c)
  let ?d = "delta_datagram sid previous snap changes"
  obtain a where a: "a \<in> past" "c = screen_of a" using assms(1) Some by (auto simp: view_ok_def)
  have base: "dd_base_generation ?d = sn_generation previous" "dd_generation ?d = sn_generation snap"
    by (simp_all add: delta_datagram_def)
  obtain c' ch where app: "apply_delta ?d c = (c', ch)" by (cases "apply_delta ?d c")
  have c': "c' = c \<and> ch = None \<or> c' = screen_of snap \<and> ch \<noteq> None"
  proof (cases "sn_generation a = sn_generation previous")
    case True
    then have "c = screen_of previous" using assms(2,7) a by blast
    then show ?thesis using apply_derived [OF assms(5,6)] app by (metis option.distinct(1))
  next
    case False
    then show ?thesis using apply_other_base [of c ?d] app a base by simp
  qed
  show ?thesis
    using assms(1,3,4) c' app Some base
    by (auto simp: view_ok_def shell_delta_def paint_def Let_def split: option.splits)
qed

lemma view_ok_datagram:
  assumes "datagrams_lawful dc dr" "carries dc features sid past b" "view_ok past g sid v"
    and "\<And>snap. snap \<in> past \<Longrightarrow> sn_generation snap \<le> g" "\<And>snap. snap \<in> past \<Longrightarrow> length (sn_screen snap) \<le> 2 ^ 16"
    and "\<And>a b. a \<in> past \<Longrightarrow> b \<in> past \<Longrightarrow> sn_generation a = sn_generation b \<Longrightarrow> a = b"
  shows "view_ok past g sid (shell_datagram dr features b v)"
proof -
  from assms(2) consider (full) snap where "snap \<in> past" "dc_full dc (full_datagram sid snap) = Some b"
    | (delta) previous snap changes max_size where "''pty_state_delta'' |\<in>| features" "previous \<in> past" "snap \<in> past"
        "derive_pty_row_deltas previous snap = Some changes"
        "encode_pty_state_delta_datagram (dc_delta dc) (delta_datagram sid previous snap changes) max_size = Inr (Some b)"
    by (auto simp: carries_def)
  then show ?thesis
  proof cases
    case full
    from shell_datagram_full [OF assms(1) full(2), of features v] show ?thesis
      using view_ok_full [OF assms(3) full(1) assms(4) [OF full(1)]] assms(3) by (elim disjE) simp_all
  next
    case delta
    show ?thesis
      unfolding shell_datagram_delta [OF assms(1) delta(5,1)]
      by (rule view_ok_delta [OF assms(3) delta(2,3) assms(4) [OF delta(3)] delta(4) assms(5) [OF delta(2)] assms(6)])
  qed
qed

lemma inv_same_output:
  assumes "pty_system_inv vt dc features sid pty y" "sy_output y' = sy_output y"
    and "pty_of vt pty (sy_output y) (sy_pty y')"
    and "attachment_ok (past_screens vt pty (sy_output y)) features sid (sy_attachment y')"
    and "\<And>r. r \<in> set (sy_stream y') \<Longrightarrow> response_ok (past_screens vt pty (sy_output y)) (pt_generation (sy_pty y)) r"
    and "\<And>b. b \<in> sy_sent y' \<Longrightarrow> carries dc features sid (past_screens vt pty (sy_output y)) b"
    and "view_ok (past_screens vt pty (sy_output y)) (pt_generation (sy_pty y)) sid (sy_view y')"
  shows "pty_system_inv vt dc features sid pty y'"
proof -
  have "pt_generation (sy_pty y') = pt_generation (sy_pty y)"
    using assms(1,3) pty_of_result(1) unfolding pty_system_inv_def by metis
  then show ?thesis using assms(2-7) by (simp add: pty_system_inv_def)
qed

lemma inv_produced:
  assumes "pty_system_inv vt dc features sid pty y" "pt_generation (sy_pty y) < u64_max"
  shows "pty_system_inv vt dc features sid pty (y\<lparr>sy_pty := pty_read vt chunk (sy_pty y), sy_queue := q,
    sy_output := sy_output y @ [chunk]\<rparr>)"
proof -
  have i: "pty_of vt pty (sy_output y) (sy_pty y)" using assms(1) by (simp add: pty_system_inv_def)
  note sub = past_screens_append [of vt pty "sy_output y" chunk] and le = pty_of_read(2) [OF i assms(2), of chunk]
  show ?thesis
    using assms(1) pty_of_read(1) [OF i assms(2)]
    by (auto simp: pty_system_inv_def intro: attachment_ok_mono [OF _ sub] response_ok_mono [OF _ sub le]
        carries_mono [OF _ sub] view_ok_mono [OF _ sub le])
qed

lemma inv_lagged:
  assumes "pty_of vt pty chunks p" "attachment_ok (past_screens vt pty chunks) features sid a"
    and "pty_lagged vt a p = (p', a', r)"
  shows "pty_of vt pty chunks p'" "attachment_ok (past_screens vt pty chunks) features sid a'"
    "response_ok (past_screens vt pty chunks) g r"
proof -
  obtain q snap where s: "snapshot vt p = (q, snap)" by (cases "snapshot vt p")
  show "pty_of vt pty chunks p'" "attachment_ok (past_screens vt pty chunks) features sid a'"
    "response_ok (past_screens vt pty chunks) g r"
    using assms(2,3) pty_of_snapshot [OF assms(1) s] s
    by (auto simp: pty_lagged_def attachment_ok_def response_ok_def)
qed

lemma inv_tick:
  assumes "pty_of vt pty chunks p" "attachment_ok (past_screens vt pty chunks) features sid a"
    and "datagram_tick vt dc deflate path a p = (p', a', payload)"
  shows "pty_of vt pty chunks p'" "attachment_ok (past_screens vt pty chunks) features sid a'"
    "b \<in> set_option payload \<Longrightarrow> carries dc features sid (past_screens vt pty chunks) b"
proof -
  obtain q snap where s: "snapshot vt p = (q, snap)" by (cases "snapshot vt p")
  note q = pty_of_snapshot [OF assms(1) s]
  have "pty_of vt pty chunks p' \<and> attachment_ok (past_screens vt pty chunks) features sid a'
    \<and> (\<forall>b \<in> set_option payload. carries dc features sid (past_screens vt pty chunks) b)"
  proof (cases "at_pending a \<and> at_delta_state a")
    case True
    obtain st pl where d: "send_pty_state_delta_or_full dc path sid snap (at_datagrams a) = (st, pl)"
      by (cases "send_pty_state_delta_or_full dc path sid snap (at_datagrams a)")
    have a: "set_option (ds_last (at_datagrams a)) \<subseteq> past_screens vt pty chunks" "''pty_state_delta'' |\<in>| features"
        "at_session a = sid" "\<not> at_rich_state a"
      using assms(2) True by (simp_all add: attachment_ok_def)
    have "p' = q" "a' = a\<lparr>at_pending := False, at_datagrams := st\<rparr>" "payload = pl"
      using assms(3) True a s d by (simp_all add: datagram_tick_def)
    then show ?thesis
      using q(1) a send_delta_or_full_carries [OF d q(2) a(1,2)] by (simp add: attachment_ok_def)
  next
    case False
    then show ?thesis
      using assms q s send_full_carries [of dc path sid snap _ "past_screens vt pty chunks" features]
      by (auto simp: datagram_tick_def attachment_ok_def Let_def split: if_splits)
  qed
  then show "pty_of vt pty chunks p'" "attachment_ok (past_screens vt pty chunks) features sid a'"
    "b \<in> set_option payload \<Longrightarrow> carries dc features sid (past_screens vt pty chunks) b" by auto
qed

lemma pty_system_step_inv:
  assumes "datagrams_lawful dc dr" "\<And>t. length (vt_rows vt t) \<le> 2 ^ 16"
    and "pty_system_step vt dc dr deflate features False y y'" "pty_system_inv vt dc features sid pty y"
  shows "pty_system_inv vt dc features sid pty y'"
proof -
  have i: "pty_of vt pty (sy_output y) (sy_pty y)"
    "attachment_ok (past_screens vt pty (sy_output y)) features sid (sy_attachment y)"
    "view_ok (past_screens vt pty (sy_output y)) (pt_generation (sy_pty y)) sid (sy_view y)"
    "\<And>r. r \<in> set (sy_stream y) \<Longrightarrow> response_ok (past_screens vt pty (sy_output y)) (pt_generation (sy_pty y)) r"
    "\<And>b. b \<in> sy_sent y \<Longrightarrow> carries dc features sid (past_screens vt pty (sy_output y)) b"
    using assms(4) by (simp_all add: pty_system_inv_def)
  have len: "pt_generation pty + length (sy_output y) \<le> u64_max" using i(1) by (simp add: pty_of_def)
  have past: "sn_generation snap \<le> pt_generation (sy_pty y)" "length (sn_screen snap) \<le> 2 ^ 16"
    if "snap \<in> past_screens vt pty (sy_output y)" for snap
    using that past_generation_le [OF len that] pty_of_result(1) [OF i(1)] assms(2)
    by (simp, auto simp: past_screens_def screen_at_def)
  from assms(3) show ?thesis
  proof cases
    case (produced chunk)
    then show ?thesis using inv_produced [OF assms(4)] by simp
  next
    case (relayed chunk queue a r)
    show ?thesis
      by (rule inv_same_output [OF assms(4)])
         (use i relayed in \<open>auto simp: pty_chunk_def attachment_ok_def response_ok_def\<close>)
  next
    case (lagged dropped queue p a r)
    show ?thesis
      by (rule inv_same_output [OF assms(4)]) (use i(3-5) inv_lagged [OF i(1,2) lagged(4)] lagged(1) in auto)
  next
    case (ticked path p a payload)
    show ?thesis
      by (rule inv_same_output [OF assms(4)]) (use i(3-5) inv_tick [OF i(1,2) ticked(2)] ticked(1) in auto)
  next
    case (received r stream v)
    have "view_ok (past_screens vt pty (sy_output y)) (pt_generation (sy_pty y)) sid v"
      using received(2) i(4) by (intro view_ok_response [OF i(3) _ received(3) past(1)]) auto
    then show ?thesis
      by (intro inv_same_output [OF assms(4)]) (use i received in auto)
  next
    case (datagram payload)
    have "view_ok (past_screens vt pty (sy_output y)) (pt_generation (sy_pty y)) sid
        (shell_datagram dr features payload (sy_view y))"
      by (rule view_ok_datagram [OF assms(1) i(5) [OF datagram(2)] i(3) past past_unique [OF len]])
    then show ?thesis
      by (intro inv_same_output [OF assms(4)]) (use i datagram in auto)
  qed simp
qed

lemma pty_system_start_inv:
  assumes "''pty_rich_state'' |\<notin>| features" "cache_fresh vt pty" "pt_generation pty + length gap \<le> u64_max"
    and "attach_pty vt sid features pty = (p, a, ready)" "open_pty sid ready None painted = Some v"
  shows "pty_system_inv vt dc features sid pty
    \<lparr>sy_pty = pty_after vt p gap, sy_attachment = a, sy_queue = [], sy_stream = [], sy_sent = {}, sy_view = v,
     sy_output = gap\<rparr>"
proof -
  obtain q snap where s: "snapshot vt pty = (q, snap)" by (cases "snapshot vt pty")
  note q = snapshot_result [OF assms(2) s]
  have past: "snap \<in> past_screens vt pty gap"
    by (force simp: q(1) past_screens_def screen_at_def pty_after_def)
  have gen: "sn_generation snap = pt_generation pty" by (simp add: q(1))
  have "uncached (pty_after vt p gap) = uncached (pty_after vt pty gap) \<and> cache_fresh vt (pty_after vt p gap)"
    if "uncached p = uncached pty" "cache_fresh vt p" for p
    using that pty_read_uncached
    by (induction gap rule: rev_induct) (auto simp: pty_after_append, simp_all add: pty_after_def)
  then have "pty_of vt pty gap (pty_after vt p gap)"
    using assms(1,3,4) q s by (simp add: pty_of_def attach_pty_def)
  moreover from this have "pt_generation (pty_after vt p gap) = pt_generation pty + length gap" by (rule pty_of_result)
  moreover have "attachment_ok (past_screens vt pty gap) features sid a"
    using assms(1,4) past s by (auto simp: attach_pty_def attachment_ok_def)
  moreover have "ready = RespPtyReady (protocol_pty_snapshot snap)"
    using assms(1,4) s by (auto simp: attach_pty_def)
  then have "sh_session v = sid" "sh_newest_generation v = pt_generation pty" "sh_plain v = Some (screen_of snap)"
    using assms(5) gen by (auto simp: open_pty_def screen_of_def protocol_pty_snapshot_def)
  then have "view_ok (past_screens vt pty gap) (pt_generation pty + length gap) sid v"
    using past gen by (auto simp: view_ok_def)
  ultimately show ?thesis by (simp add: pty_system_inv_def)
qed

lemma pty_system_reachable_inv:
  assumes "datagrams_lawful dc dr" "\<And>t. length (vt_rows vt t) \<le> 2 ^ 16" "''pty_rich_state'' |\<notin>| features"
    and "cache_fresh vt pty" "pty_system_reachable vt dc dr deflate features False sid pty y"
  shows "pty_system_inv vt dc features sid pty y"
  using assms(5)
proof (induction rule: pty_system_reachable.induct)
  case (attached p a ready painted v gap)
  show ?case by (rule pty_system_start_inv [OF assms(3,4) attached(3,1,2)])
next
  case (step y y')
  show ?case by (rule pty_system_step_inv [OF assms(1,2) step.hyps(2) step.IH])
qed

section \<open>Input\<close>

definition sequenced_write :: "request \<Rightarrow> bytes option \<Rightarrow> (u64 \<times> bytes) list" where
  "sequenced_write request written =
     (case (written, request) of (Some data, ReqPtyInputSequenced _ sequence _) \<Rightarrow> [(sequence, data)] | _ \<Rightarrow> [])"

text \<open>The loop of \<open>handle_pty\<close> over the messages of its stream, up to the first that ends it: the
  sequenced inputs written to the terminal and the acknowledged sequences.\<close>

fun pty_stream_run ::
    "'t terminal \<Rightarrow> auth_codec \<Rightarrow> (request_env \<times> bool \<times> bool \<times> request \<times> usize \<times> auth_principal option) list
       \<Rightarrow> access_store \<Rightarrow> attachment \<Rightarrow> 't pty_state \<Rightarrow> (u64 \<times> bytes) list \<times> u64 list" where
  "pty_stream_run vt x [] s a pty = ([], [])"
| "pty_stream_run vt x ((env, write_ok, resize_ok, request, n, current) # messages) s a pty =
     (let (s, a, pty, written, out) = pty_message vt x env write_ok resize_ok request n current s a pty;
          w = sequenced_write request written
      in case out of
           PtyGoesOn r \<Rightarrow>
             let acks = (case r of Some (RespPtyInputAck sequence) \<Rightarrow> [sequence] | _ \<Rightarrow> []);
                 (ws, rest) = pty_stream_run vt x messages s a pty
             in (w @ ws, acks @ rest)
         | _ \<Rightarrow> (w, []))"

definition inputs_until :: "nat \<Rightarrow> input_sequencer" where
  "inputs_until k = (if k = 0 then None else Some (k - 1))"

lemma sequencer_accept_cases:
  assumes "sequencer_accept sequence (inputs_until k) = (q, r)"
  shows "r = Inr True \<and> sequence = k \<and> q = inputs_until (Suc k)
    \<or> r = Inr False \<and> sequence < k \<and> q = inputs_until k \<or> (\<exists>e. r = Inl e)"
  using assms
  by (auto simp: sequencer_accept_def inputs_until_def saturating_add_def min_def split: if_splits)

lemma pty_admit_not_goes_on: "pty_admit x env operation n current s \<noteq> (s', Some (PtyGoesOn r))"
  by (auto simp: pty_admit_def split: option.splits prod.splits bool.splits if_splits sum.splits)

lemma pty_input_check_not_goes_on: "pty_input_check env data s \<noteq> Some (PtyGoesOn r)"
  by (simp add: pty_input_check_def)

lemma pty_message_sequenced:
  assumes "at_inputs a = inputs_until k"
    and "pty_message vt x env write_ok resize_ok (ReqPtyInputSequenced sid sequence data) n current s a pty
      = (s', a', pty', written, out)"
  shows "written = Some data \<and> sequence = k \<and> out = PtyGoesOn (Some (RespPtyInputAck k)) \<and> at_inputs a' = inputs_until (Suc k)
    \<or> written = None \<and> sequence < k \<and> out = PtyGoesOn (Some (RespPtyInputAck sequence)) \<and> at_inputs a' = inputs_until k
    \<or> written = None \<and> (\<forall>r. out \<noteq> PtyGoesOn r)"
proof -
  obtain s1 o1 where adm: "pty_admit x env ''pty_input_sequenced'' n current s = (s1, o1)"
    by (cases "pty_admit x env ''pty_input_sequenced'' n current s")
  obtain q acc where acc: "sequencer_accept sequence (inputs_until k) = (q, acc)"
    by (cases "sequencer_accept sequence (inputs_until k)")
  show ?thesis
    using assms adm acc sequencer_accept_cases [OF acc] pty_admit_not_goes_on [of x env "''pty_input_sequenced''" n current s]
      pty_input_check_not_goes_on [of env data]
    by (auto simp: pty_message_def split: if_splits option.splits sum.splits bool.splits)
qed

lemma pty_message_other:
  assumes "\<And>sid sequence data. request \<noteq> ReqPtyInputSequenced sid sequence data"
    and "pty_message vt x env write_ok resize_ok request n current s a pty = (s', a', pty', written, out)"
  shows "at_inputs a' = at_inputs a" "sequenced_write request written = []"
    "out = PtyGoesOn r \<Longrightarrow> r = None"
proof -
  have "at_inputs a' = at_inputs a \<and> sequenced_write request written = [] \<and> (\<forall>r. out = PtyGoesOn r \<longrightarrow> r = None)"
    using assms
    by (cases request)
       (auto simp: pty_message_def sequenced_write_def pty_admit_not_goes_on pty_input_check_not_goes_on
         split: if_splits option.splits prod.splits)
  then show "at_inputs a' = at_inputs a" "sequenced_write request written = []" "out = PtyGoesOn r \<Longrightarrow> r = None"
    by auto
qed

definition received_requests ::
    "(request_env \<times> bool \<times> bool \<times> request \<times> usize \<times> auth_principal option) list \<Rightarrow> request set" where
  "received_requests messages = (\<lambda>(_, _, _, request, _, _). request) ` set messages"

lemma pty_stream_run_inputs:
  assumes "at_inputs a = inputs_until k" "pty_stream_run vt x messages s a pty = (ws, acks)"
  shows "map fst ws = [k..<k + length ws]" "set acks \<subseteq> {..<k + length ws}"
    "(q, d) \<in> set ws \<Longrightarrow> \<exists>sid. ReqPtyInputSequenced sid q d \<in> received_requests messages"
proof -
  have "map fst ws = [k..<k + length ws] \<and> set acks \<subseteq> {..<k + length ws}
    \<and> (\<forall>q d. (q, d) \<in> set ws \<longrightarrow> (\<exists>sid. ReqPtyInputSequenced sid q d \<in> received_requests messages))"
    using assms
  proof (induction messages arbitrary: k s a pty ws acks)
    case Nil
    then show ?case by simp
  next
    case (Cons m messages)
    obtain env write_ok resize_ok request n current where m: "m = (env, write_ok, resize_ok, request, n, current)"
      by (cases m) auto
    obtain s' a' pty' written out where
      h: "pty_message vt x env write_ok resize_ok request n current s a pty = (s', a', pty', written, out)"
      by (cases "pty_message vt x env write_ok resize_ok request n current s a pty") auto
    obtain ws' acks' where rest: "pty_stream_run vt x messages s' a' pty' = (ws', acks')"
      by (cases "pty_stream_run vt x messages s' a' pty'")
    have sub: "received_requests messages \<subseteq> received_requests (m # messages)" "request \<in> received_requests (m # messages)"
      unfolding received_requests_def by (rule image_mono) (auto simp: m)
    note run = Cons.prems(2) [unfolded m pty_stream_run.simps h, simplified, unfolded rest, simplified]
    show ?case
    proof (cases "\<exists>sid sequence data. request = ReqPtyInputSequenced sid sequence data")
      case True
      then obtain sid sequence data where req: "request = ReqPtyInputSequenced sid sequence data" by blast
      from pty_message_sequenced [OF Cons.prems(1) h [unfolded req]] consider
          (new) "written = Some data" "sequence = k" "out = PtyGoesOn (Some (RespPtyInputAck k))"
            "at_inputs a' = inputs_until (Suc k)"
        | (old) "written = None" "sequence < k" "out = PtyGoesOn (Some (RespPtyInputAck sequence))"
            "at_inputs a' = inputs_until k"
        | (stop) "written = None" "\<forall>r. out \<noteq> PtyGoesOn r" by blast
      then show ?thesis
      proof cases
        case new
        have w: "ws = (k, data) # ws'" "acks = k # acks'" using run new req by (simp_all add: sequenced_write_def)
        then have "[k..<k + length ws] = k # [Suc k..<Suc k + length ws']" by (simp add: upt_conv_Cons del: upt_Suc)
        with Cons.IH [OF new(4) rest] show ?thesis
          using w new(2) sub req by (auto simp del: upt_Suc) blast
      next
        case old
        from Cons.IH [OF old(4) rest] show ?thesis
          using run old sub req by (auto simp: sequenced_write_def) blast
      next
        case stop
        then show ?thesis using run by (cases out) (auto simp: sequenced_write_def)
      qed
    next
      case False
      then have other: "at_inputs a' = inputs_until k" "sequenced_write request written = []"
          "\<And>r. out = PtyGoesOn r \<Longrightarrow> r = None"
        using pty_message_other [OF _ h] Cons.prems(1) by auto
      from Cons.IH [OF other(1) rest] show ?thesis
        using run other(2,3) sub by (cases out) (auto, blast+)
    qed
  qed
  then show "map fst ws = [k..<k + length ws]" "set acks \<subseteq> {..<k + length ws}"
    "(q, d) \<in> set ws \<Longrightarrow> \<exists>sid. ReqPtyInputSequenced sid q d \<in> received_requests messages" by auto
qed

section \<open>A checkpoint after the output it shows\<close>

text \<open>An update when the reliable output overtakes the datagram of the same generation.\<close>

definition update_after_output ::
    "datagram_codec \<Rightarrow> datagram_decoders \<Rightarrow> string fset \<Rightarrow> datagram_path \<Rightarrow> uuid \<Rightarrow> screen_snapshot \<times> bytes
       \<Rightarrow> pty_datagram_state \<times> shell_view \<Rightarrow> pty_datagram_state \<times> shell_view" where
  "update_after_output dc dr features path sid = (\<lambda>(snap, data) (st, v).
     let (st, payload) = send_pty_state_delta_or_full dc path sid snap st;
         v = (case shell_response (RespPtyOutput (sn_generation snap) data) v of None \<Rightarrow> v | Some v \<Rightarrow> v)
     in (st, case payload of None \<Rightarrow> v | Some b \<Rightarrow> shell_datagram dr features b v))"

definition base_missed :: "plain_pty_screen_state \<Rightarrow> pty_datagram_state \<Rightarrow> bool" where
  "base_missed c st \<longleftrightarrow> (\<forall>previous. ds_last st = Some previous \<longrightarrow> cs_generation c < sn_generation previous)"

lemma update_after_output_stuck:
  assumes "datagrams_lawful dc dr" "''pty_state_delta'' |\<in>| features" "base_missed c st" "sh_plain v = Some c"
    and "cs_generation c < sn_generation snap"
    and "update_after_output dc dr features path sid (snap, data) (st, v) = (st', v')"
  shows "base_missed c st'" "sh_plain v' = Some c"
proof -
  obtain payload where sent: "send_pty_state_delta_or_full dc path sid snap st = (st', payload)"
    using assms(6) by (auto simp: update_after_output_def Let_def split: prod.splits)
  define u where "u = paint data (v\<lparr>sh_newest_generation :=
    fst (record_pty_generation (sh_newest_generation v) (sn_generation snap))\<rparr>)"
  have u: "sh_plain u = Some c" "sn_generation snap \<le> sh_newest_generation u"
    using assms(4) by (auto simp: u_def paint_def record_pty_generation_def)
  have v': "v' = (case payload of None \<Rightarrow> u | Some b \<Rightarrow> shell_datagram dr features b u)"
    using assms(6) sent by (cases payload) (auto simp: update_after_output_def shell_response_def Let_def u_def)
  from sent have "base_missed c st' \<and> sh_plain v' = Some c"
  proof (cases rule: send_delta_or_full_cases)
    case none
    then show ?thesis using assms(3) v' u(1) by (auto simp: base_missed_def)
  next
    case (full b)
    have "shell_full (full_datagram sid snap) u = u"
      using u(2) by (simp add: shell_full_def record_pty_generation_def full_datagram_def)
    then have "shell_datagram dr features b u = u" using shell_datagram_full [OF assms(1) full(2)] by metis
    then show ?thesis using full assms(5) v' u(1) by (simp add: base_missed_def)
  next
    case (delta previous changes max_size b)
    have "cs_generation c < sn_generation previous" using assms(3) delta(3) by (simp add: base_missed_def)
    then have "apply_delta (delta_datagram sid previous snap changes) c = (c, None)"
      by (intro apply_other_base) (simp add: delta_datagram_def)
    then have "sh_plain (shell_delta (delta_datagram sid previous snap changes) u) = Some c"
      using u(1) by (simp add: shell_delta_def)
    then show ?thesis
      using shell_datagram_delta [OF assms(1) delta(5) assms(2)] delta assms(5) v' by (simp add: base_missed_def)
  qed
  then show "base_missed c st'" "sh_plain v' = Some c" by auto
qed

lemma updates_after_output_stuck:
  assumes "datagrams_lawful dc dr" "''pty_state_delta'' |\<in>| features"
    and "base_missed c st" "sh_plain v = Some c" "\<And>u. u \<in> set updates \<Longrightarrow> cs_generation c < sn_generation (fst u)"
  shows "sh_plain (snd (fold (update_after_output dc dr features path sid) updates (st, v))) = Some c"
  using assms(3-5)
proof (induction updates arbitrary: st v)
  case (Cons update updates)
  obtain snap data where u: "update = (snap, data)" by (cases update)
  obtain st' v' where s: "update_after_output dc dr features path sid (snap, data) (st, v) = (st', v')"
    by (cases "update_after_output dc dr features path sid (snap, data) (st, v)")
  have "cs_generation c < sn_generation snap" using Cons.prems(3) [of update] u by simp
  from update_after_output_stuck [OF assms(1,2) Cons.prems(1,2) this s] show ?case
    using Cons.IH Cons.prems(3) by (simp add: u s)
qed simp

section \<open>A small terminal\<close>

text \<open>A grid that shows a chunk in its last row and cuts its rows when it shrinks.\<close>

type_synonym grid = "(u16 \<times> u16) \<times> string list"

definition grid_terminal :: "grid terminal" where
  "grid_terminal = \<lparr>vt_new = (\<lambda>rows cols. ((rows, cols), replicate rows [])),
     vt_process = (\<lambda>chunk ((rows, cols), screen). ((rows, cols), screen[rows - 1 := take cols (map (char_of \<circ> unat) chunk)])),
     vt_set_size = (\<lambda>rows cols (_, screen). ((rows, cols), map (take cols) screen)),
     vt_size = fst, vt_rows = (\<lambda>t. take 500 (snd t)), vt_cursor_position = (\<lambda>_. (0, 0)),
     vt_contents_formatted = (\<lambda>_. [])\<rparr>"

definition demo_pty :: "string list \<Rightarrow> grid pty_state" where
  "demo_pty screen = \<lparr>pt_generation = 5, pt_tail = [], pt_parser = ((2, 6), screen), pt_snapshot_cache = None,
     pt_rich_snapshot_cache = None\<rparr>"

definition demo_screen :: "u64 \<Rightarrow> string list \<Rightarrow> bytes \<Rightarrow> screen_snapshot" where
  "demo_screen generation screen tail = \<lparr>sn_generation = generation, sn_rows = 2, sn_cols = 6, sn_screen = screen,
     sn_cursor_row = 0, sn_cursor_col = 0, sn_tail = tail\<rparr>"

definition demo_full :: "u64 \<Rightarrow> string \<Rightarrow> pty_state_datagram" where
  "demo_full generation text = full_datagram 1 (demo_screen generation [''abc'', text] [])"

definition demo_row_delta :: pty_state_delta_datagram where
  "demo_row_delta = delta_datagram 1 (demo_screen 5 [''abc'', []] []) (demo_screen 6 [''abc'', ''X''] [])
     [\<lparr>rd_row = 1, rd_text = ''X''\<rparr>]"

definition demo_dc :: datagram_codec where
  "demo_dc = \<lparr>dc_full = (\<lambda>d. if d = demo_full 5 [] then Some (16 # replicate 40 5)
        else if d = demo_full 6 ''X'' then Some (16 # replicate 40 6) else None),
     dc_delta = (\<lambda>d. if d = demo_row_delta then Some [9] else None), dc_rich = (\<lambda>_. None)\<rparr>"

definition demo_dr :: datagram_decoders where
  "demo_dr = \<lparr>dr_full = (\<lambda>b. if b = 16 # replicate 40 5 then Some (demo_full 5 [])
        else if b = 16 # replicate 40 6 then Some (demo_full 6 ''X'') else None),
     dr_delta = (\<lambda>b. if b = [9] then Some demo_row_delta else None), dr_rich = (\<lambda>_. None),
     dr_inflate = (\<lambda>_. ([], False))\<rparr>"

definition demo_path :: datagram_path where
  "demo_path = \<lparr>dp_max_datagram_size = Some 1200, dp_send = (\<lambda>_. True)\<rparr>"

lemma demo_dc_lawful: "datagrams_lawful demo_dc demo_dr"
proof -
  have "demo_full 5 [] \<noteq> demo_full 6 ''X''" by (simp add: demo_full_def full_datagram_def demo_screen_def)
  then show ?thesis
    by (auto simp: datagrams_lawful_def postcard_law_def demo_dc_def demo_dr_def split: if_splits)
qed

lemma grid_rows: "length (vt_rows grid_terminal t) \<le> 2 ^ 16"
  by (simp add: grid_terminal_def)

lemma demo_datagrams:
  "full_datagram 1 (demo_screen generation [''abc'', text] tail) = demo_full generation text"
  "delta_datagram 1 (demo_screen 5 [''abc'', []] tail) (demo_screen 6 [''abc'', ''X''] tail') [\<lparr>rd_row = 1, rd_text = ''X''\<rparr>]
     = demo_row_delta"
  by (simp_all add: demo_full_def demo_row_delta_def full_datagram_def delta_datagram_def demo_screen_def)

lemma demo_derive:
  "derive_pty_row_deltas (demo_screen 5 [''abc'', []] tail) (demo_screen 6 [''abc'', ''X''] tail')
     = Some [\<lparr>rd_row = 1, rd_text = ''X''\<rparr>]"
  by (simp add: derive_pty_row_deltas_def demo_screen_def changed_rows_def)

lemma demo_dc_values:
  "dc_full demo_dc (demo_full 5 []) = Some (16 # replicate 40 5)"
  "dc_full demo_dc (demo_full 6 ''X'') = Some (16 # replicate 40 6)"
  "encode_pty_state_delta_datagram (dc_delta demo_dc) demo_row_delta 1200 = Inr (Some [0x50, 0x44, 9])"
proof -
  have "demo_full 6 ''X'' \<noteq> demo_full 5 []" by (simp add: demo_full_def full_datagram_def demo_screen_def)
  then show "dc_full demo_dc (demo_full 5 []) = Some (16 # replicate 40 5)"
    "dc_full demo_dc (demo_full 6 ''X'') = Some (16 # replicate 40 6)"
    by (simp_all add: demo_dc_def)
  have "length (dd_changes demo_row_delta) = 1" by (simp add: demo_row_delta_def delta_datagram_def)
  then show "encode_pty_state_delta_datagram (dc_delta demo_dc) demo_row_delta 1200 = Inr (Some [0x50, 0x44, 9])"
    by (simp add: encode_pty_state_delta_datagram_def encode_message_def demo_dc_def consts_simps saturating_add_def int_bounds)
qed

lemma demo_send_delta:
  "send_pty_state_delta_or_full demo_dc demo_path 1 (demo_screen 6 [''abc'', ''X''] tail')
      \<lparr>ds_last = Some (demo_screen 5 [''abc'', []] tail), ds_delta_frames_since_full = 0\<rparr>
    = (\<lparr>ds_last = Some (demo_screen 6 [''abc'', ''X''] tail'), ds_delta_frames_since_full = 1\<rparr>, Some [0x50, 0x44, 9])"
  by (simp add: send_pty_state_delta_or_full_def send_delta_def demo_path_def demo_datagrams demo_datagrams(2) [simplified]
      demo_derive demo_dc_values PTY_DELTA_FULL_INTERVAL_def)

lemma demo_apply:
  assumes "cs_generation c = 5" "cs_rows c = 2" "cs_cols c = 6" "length (cs_screen c) = 2" "sh_plain v = Some c"
    and "sh_session v = 1" "sh_newest_generation v = 5" "''pty_state_delta'' |\<in>| features"
  shows "sh_plain (shell_datagram demo_dr features [0x50, 0x44, 9] v) = Some (c\<lparr>cs_screen := (cs_screen c)[1 := ''X''],
      cs_generation := 6, cs_cursor_row := 0, cs_cursor_col := 0\<rparr>)"
    "sh_newest_generation (shell_datagram demo_dr features [0x50, 0x44, 9] v) = 6"
proof -
  have d: "shell_datagram demo_dr features [0x50, 0x44, 9] v = shell_delta demo_row_delta v"
    by (rule shell_datagram_delta [OF demo_dc_lawful demo_dc_values(3) assms(8)])
  have "apply_delta demo_row_delta c = (c\<lparr>cs_screen := (cs_screen c)[1 := ''X''], cs_generation := 6, cs_cursor_row := 0,
      cs_cursor_col := 0\<rparr>, Some True)"
    using assms(1-4) by (simp add: apply_delta_def demo_row_delta_def delta_datagram_def demo_screen_def apply_changes_def
        MAX_ROW_BYTES_def)
  moreover have "dd_session_id demo_row_delta = 1" "dd_generation demo_row_delta = 6"
    by (simp_all add: demo_row_delta_def delta_datagram_def demo_screen_def)
  ultimately show "sh_plain (shell_datagram demo_dr features [0x50, 0x44, 9] v) = Some (c\<lparr>cs_screen := (cs_screen c)[1 := ''X''],
      cs_generation := 6, cs_cursor_row := 0, cs_cursor_col := 0\<rparr>)"
    "sh_newest_generation (shell_datagram demo_dr features [0x50, 0x44, 9] v) = 6"
    using assms(5-7) by (simp_all add: d shell_delta_def paint_def)
qed

text \<open>One more chunk, relayed, shown in a row update and received.\<close>

lemma demo_update:
  assumes "pty_system_reachable grid_terminal demo_dc demo_dr deflate features resizable 1 pty y"
    and "pt_generation (sy_pty y) = 5" "pt_parser (sy_pty y) = ((2, 6), [''abc'', []])" "sy_queue y = []"
    and "at_session (sy_attachment y) = 1" "\<not> at_rich_state (sy_attachment y)" "at_delta_state (sy_attachment y)"
    and "at_datagrams (sy_attachment y) = \<lparr>ds_last = Some (demo_screen 5 [''abc'', []] tail), ds_delta_frames_since_full = 0\<rparr>"
    and "sh_plain (sy_view y) = Some c" "sh_session (sy_view y) = 1" "sh_newest_generation (sy_view y) = 5"
    and "cs_generation c = 5" "cs_rows c = 2" "cs_cols c = 6" "length (cs_screen c) = 2" "''pty_state_delta'' |\<in>| features"
  shows "\<exists>y'. pty_system_reachable grid_terminal demo_dc demo_dr deflate features resizable 1 pty y'
    \<and> sh_plain (sy_view y') = Some (c\<lparr>cs_screen := (cs_screen c)[1 := ''X''], cs_generation := 6, cs_cursor_row := 0,
        cs_cursor_col := 0\<rparr>)
    \<and> pt_generation (sy_pty y') = 6 \<and> pt_parser (sy_pty y') = ((2, 6), [''abc'', ''X''])
    \<and> sy_output y' = sy_output y @ [[88]]"
proof -
  let ?R = "pty_system_reachable grid_terminal demo_dc demo_dr deflate features resizable 1 pty"
  let ?p = "pty_read grid_terminal [88] (sy_pty y)"
  let ?y1 = "y\<lparr>sy_pty := ?p, sy_queue := sy_queue y @ [[88]], sy_output := sy_output y @ [[88]]\<rparr>"
  let ?a = "(sy_attachment y)\<lparr>at_pending := True\<rparr>"
  let ?y2 = "?y1\<lparr>sy_attachment := ?a, sy_queue := [], sy_stream := sy_stream ?y1 @ [RespPtyOutput (pt_generation ?p) [88]]\<rparr>"
  have r1: "?R ?y1"
    by (rule pty_system_reachable.step [OF assms(1) pty_system_step.produced]) (simp add: assms(2) u64_max_def)
  have r2: "?R ?y2"
    by (rule pty_system_reachable.step [OF r1 pty_system_step.relayed]) (simp_all add: assms(4) pty_chunk_def)
  have "char_of (88 :: nat) = CHR ''X''" using char_of_char [where c = "CHR ''X''" and 'a = nat] by (simp del: char_of_char)
  then have p: "pt_generation ?p = 6" "pt_parser ?p = ((2, 6), [''abc'', ''X''])"
    using assms(2,3) by (simp_all add: pty_read_def grid_terminal_def)
  obtain q where q: "snapshot grid_terminal ?p = (q, demo_screen 6 [''abc'', ''X''] (pt_tail ?p))"
      "pt_generation q = 6" "pt_parser q = ((2, 6), [''abc'', ''X''])"
    using p by (auto simp: snapshot_def Let_def pty_read_def grid_terminal_def demo_screen_def)
  let ?a3 = "?a\<lparr>at_pending := False, at_datagrams := \<lparr>ds_last = Some (demo_screen 6 [''abc'', ''X''] (pt_tail ?p)),
    ds_delta_frames_since_full = 1\<rparr>\<rparr>"
  have tick: "datagram_tick grid_terminal demo_dc deflate demo_path (sy_attachment ?y2) (sy_pty ?y2) = (q, ?a3, Some [0x50, 0x44, 9])"
    using assms(5-8) q(1) by (simp add: datagram_tick_def demo_send_delta)
  let ?y3 = "?y2\<lparr>sy_pty := q, sy_attachment := ?a3, sy_sent := sy_sent ?y2 \<union> set_option (Some [0x50, 0x44, 9])\<rparr>"
  have r3: "?R ?y3" by (rule pty_system_reachable.step [OF r2 pty_system_step.ticked [OF tick]])
  let ?y4 = "?y3\<lparr>sy_view := shell_datagram demo_dr features [0x50, 0x44, 9] (sy_view ?y3)\<rparr>"
  have r4: "?R ?y4" by (rule pty_system_reachable.step [OF r3 pty_system_step.datagram]) simp
  have "sh_plain (sy_view ?y4) = Some (c\<lparr>cs_screen := (cs_screen c)[1 := ''X''], cs_generation := 6, cs_cursor_row := 0,
        cs_cursor_col := 0\<rparr>)"
    using demo_apply(1) [OF assms(12-15) assms(9-11) assms(16)] by simp
  then show ?thesis using r4 q(2,3) by (intro exI [of _ ?y4]) simp
qed

lemma demo_start:
  assumes "length screen = 2"
  shows "\<exists>y. pty_system_reachable grid_terminal demo_dc demo_dr deflate {|''pty_state_delta''|} resizable 1 (demo_pty screen) y
    \<and> pt_generation (sy_pty y) = 5 \<and> pt_parser (sy_pty y) = ((2, 6), screen) \<and> pt_tail (sy_pty y) = [] \<and> sy_queue y = []
    \<and> at_session (sy_attachment y) = 1 \<and> \<not> at_rich_state (sy_attachment y) \<and> at_delta_state (sy_attachment y)
    \<and> at_datagrams (sy_attachment y) = \<lparr>ds_last = Some (demo_screen 5 screen []), ds_delta_frames_since_full = 0\<rparr>
    \<and> sh_session (sy_view y) = 1 \<and> sh_newest_generation (sy_view y) = 5 \<and> sy_output y = []
    \<and> sh_plain (sy_view y) = Some (screen_of (demo_screen 5 screen []))"
proof -
  obtain p where s: "snapshot grid_terminal (demo_pty screen) = (p, demo_screen 5 screen [])"
      "pt_generation p = 5" "pt_parser p = ((2, 6), screen)" "pt_tail p = []"
    using assms by (auto simp: snapshot_def Let_def demo_pty_def grid_terminal_def demo_screen_def)
  let ?a = "\<lparr>at_session = 1, at_inputs = None, at_datagrams = \<lparr>ds_last = Some (demo_screen 5 screen []),
     ds_delta_frames_since_full = 0\<rparr>, at_pending = False, at_rich_state = False, at_rich_compression = False,
     at_delta_state = True\<rparr>"
  let ?ready = "RespPtyReady (protocol_pty_snapshot (demo_screen 5 screen []))"
  have a: "attach_pty grid_terminal 1 {|''pty_state_delta''|} (demo_pty screen) = (p, ?a, ?ready)"
    by (simp add: attach_pty_def s(1))
  obtain v where v: "open_pty 1 ?ready None [] = Some v" "sh_session v = 1" "sh_newest_generation v = 5"
      "sh_plain v = Some (screen_of (demo_screen 5 screen []))"
    by (simp add: open_pty_def screen_of_def) (simp add: protocol_pty_snapshot_def demo_screen_def)
  have "pt_generation (demo_pty screen) + length ([] :: bytes list) \<le> u64_max" by (simp add: demo_pty_def u64_max_def)
  from pty_system_reachable.attached [OF a v(1) this] show ?thesis
    using s v by (intro exI conjI) (assumption | simp add: pty_after_def)+
qed

section \<open>Properties\<close>

text \<open>Claim C20. On an attachment whose window is not resized, the client's screen is at every
  moment exactly the screen the terminal had after some prefix of its output, whatever datagrams
  are lost, delayed, reordered or repeated and however they interleave with the reliable stream;
  it is never newer than the newest generation the client knows, which is never ahead of the
  terminal.  A complete screen of a generation the client has not seen brings it up to date.\<close>

theorem client_screen_is_a_past_screen:
  assumes "datagrams_lawful dc dr" "\<And>t. length (vt_rows vt t) \<le> 2 ^ 16" "''pty_rich_state'' |\<notin>| features"
    and "cache_fresh vt pty" "pty_system_reachable vt dc dr deflate features False sid pty y"
    and "sh_plain (sy_view y) = Some c"
  shows "(\<exists>k \<le> length (sy_output y). c = screen_of (screen_at vt pty (sy_output y) k)
        \<and> cs_generation c = pt_generation pty + k)
    \<and> cs_generation c \<le> sh_newest_generation (sy_view y)
    \<and> sh_newest_generation (sy_view y) \<le> pt_generation (sy_pty y)
    \<and> (\<forall>b. dc_full dc (full_datagram sid (rendered vt (sy_pty y))) = Some b
        \<longrightarrow> length b \<le> PTY_DATAGRAM_MAX_DECODED_BYTES \<longrightarrow> length (vt_rows vt (pt_parser (sy_pty y))) \<le> PTY_DATAGRAM_MAX_ROWS
        \<longrightarrow> sh_newest_generation (sy_view y) < pt_generation (sy_pty y)
        \<longrightarrow> sh_plain (shell_datagram dr features b (sy_view y)) = Some (screen_of (rendered vt (sy_pty y))))"
proof -
  have inv: "pty_system_inv vt dc features sid pty y" by (rule pty_system_reachable_inv [OF assms(1-5)])
  then have v: "view_ok (past_screens vt pty (sy_output y)) (pt_generation (sy_pty y)) sid (sy_view y)"
      and len: "pt_generation pty + length (sy_output y) \<le> u64_max"
    by (simp_all add: pty_system_inv_def pty_of_def)
  obtain k where k: "k \<le> length (sy_output y)" "c = screen_of (screen_at vt pty (sy_output y) k)"
    using v assms(6) by (auto simp: view_ok_def past_screens_def)
  have "sh_plain (shell_datagram dr features b (sy_view y)) = Some (screen_of (rendered vt (sy_pty y)))"
    if "dc_full dc (full_datagram sid (rendered vt (sy_pty y))) = Some b" "length b \<le> PTY_DATAGRAM_MAX_DECODED_BYTES"
      "length (vt_rows vt (pt_parser (sy_pty y))) \<le> PTY_DATAGRAM_MAX_ROWS"
      "sh_newest_generation (sy_view y) < pt_generation (sy_pty y)" for b
  proof -
    note full = decode_full_payload [OF assms(1) that(1)]
    have "decode_pty_state_datagram (dr_full dr) b = Inr (full_datagram sid (rendered vt (sy_pty y)))"
      using that(2,3) full(1)
      by (simp add: decode_pty_state_datagram_def decode_message_def visit_seq_empty)
         (simp add: full_datagram_def)
    then have "shell_datagram dr features b (sy_view y) = shell_full (full_datagram sid (rendered vt (sy_pty y))) (sy_view y)"
      using full(2,3) by (simp add: shell_datagram_def)
    moreover have "sh_session (sy_view y) = sid" using v by (simp add: view_ok_def)
    moreover have "pd_session_id (full_datagram sid (rendered vt (sy_pty y))) = sid"
        "pd_generation (full_datagram sid (rendered vt (sy_pty y))) = pt_generation (sy_pty y)"
      by (simp_all add: full_datagram_def)
    ultimately show ?thesis
      using that(4) by (simp add: shell_full_def record_pty_generation_def paint_def from_full_datagram)
  qed
  then show ?thesis
    using k v assms(6) past_generation [OF len k(1)] by (auto simp: view_ok_def)
qed

theorem client_screen_is_a_past_screen_witness:
  "\<exists>y c k. pty_system_reachable grid_terminal demo_dc demo_dr (\<lambda>_. None) {|''pty_state_delta''|} False 1
        (demo_pty [''abc'', []]) y
    \<and> sh_plain (sy_view y) = Some c \<and> cs_screen c = [''abc'', ''X'']
    \<and> c = screen_of (screen_at grid_terminal (demo_pty [''abc'', []]) (sy_output y) k)"
proof -
  let ?R = "pty_system_reachable grid_terminal demo_dc demo_dr (\<lambda>_. None) {|''pty_state_delta''|} False 1
        (demo_pty [''abc'', []])"
  obtain y where y: "?R y" "pt_generation (sy_pty y) = 5" "pt_parser (sy_pty y) = ((2, 6), [''abc'', []])"
      "sy_queue y = []" "at_session (sy_attachment y) = 1" "\<not> at_rich_state (sy_attachment y)"
      "at_delta_state (sy_attachment y)"
      "at_datagrams (sy_attachment y) = \<lparr>ds_last = Some (demo_screen 5 [''abc'', []] []), ds_delta_frames_since_full = 0\<rparr>"
      "sh_plain (sy_view y) = Some (screen_of (demo_screen 5 [''abc'', []] []))"
      "sh_session (sy_view y) = 1" "sh_newest_generation (sy_view y) = 5"
    using demo_start [of "[''abc'', []]" "\<lambda>_. None" False] by auto
  let ?c = "screen_of (demo_screen 5 [''abc'', []] [])"
  have c: "cs_generation ?c = 5" "cs_rows ?c = 2" "cs_cols ?c = 6" "length (cs_screen ?c) = 2"
      "''pty_state_delta'' |\<in>| {|''pty_state_delta''|}"
    by (simp_all add: demo_screen_def)
  from demo_update [OF y c] obtain y' where y': "?R y'"
      "sh_plain (sy_view y') = Some (?c\<lparr>cs_screen := (cs_screen ?c)[1 := ''X''], cs_generation := 6, cs_cursor_row := 0,
        cs_cursor_col := 0\<rparr>)" by blast
  have "cache_fresh grid_terminal (demo_pty [''abc'', []])" "''pty_rich_state'' |\<notin>| {|''pty_state_delta''|}"
    by (simp_all add: cache_fresh_def demo_pty_def)
  with client_screen_is_a_past_screen [OF demo_dc_lawful grid_rows _ _ y'] obtain k where
    "?c\<lparr>cs_screen := (cs_screen ?c)[1 := ''X''], cs_generation := 6, cs_cursor_row := 0, cs_cursor_col := 0\<rparr>
       = screen_of (screen_at grid_terminal (demo_pty [''abc'', []]) (sy_output y') k)" by auto
  moreover have "cs_screen (?c\<lparr>cs_screen := (cs_screen ?c)[1 := ''X''], cs_generation := 6, cs_cursor_row := 0,
      cs_cursor_col := 0\<rparr>) = [''abc'', ''X'']"
    by (simp add: demo_screen_def)
  ultimately show ?thesis using y' by blast
qed

text \<open>Claim C22. Once the client has missed the update that the server counts on, no later datagram
  changes its screen as long as the reliable output of every generation arrives before its
  datagram: the complete screen sent after every sixteen updates is not newer than what the client
  knows and is discarded.\<close>

theorem missed_update_never_repaired:
  assumes "datagrams_lawful dc dr" "''pty_state_delta'' |\<in>| features"
    and "sh_plain v = Some c" "ds_last st = Some previous" "cs_generation c < sn_generation previous"
    and "\<forall>u \<in> set updates. sn_generation previous < sn_generation (fst u)"
  shows "sh_plain (snd (fold (update_after_output dc dr features path sid) updates (st, v))) = Some c"
  using assms by (intro updates_after_output_stuck) (force simp: base_missed_def)+

theorem missed_update_never_repaired_witness:
  "sh_plain (snd (fold (update_after_output demo_dc demo_dr {|''pty_state_delta''|} demo_path 1)
      [(demo_screen 6 [''abc'', ''X''] [], [88])]
      (\<lparr>ds_last = Some (demo_screen 5 [''abc'', []] []), ds_delta_frames_since_full = 16\<rparr>,
       \<lparr>sh_session = 1, sh_newest_generation = 5, sh_plain = Some (screen_of (demo_screen 4 [[], []] [])), sh_painted = []\<rparr>)))
    = Some (screen_of (demo_screen 4 [[], []] []))"
  by (rule missed_update_never_repaired [OF demo_dc_lawful, where previous = "demo_screen 5 [''abc'', []] []"])
     (simp_all add: demo_screen_def)


text \<open>Claim C21. Sequenced input reaches the terminal once and in order: whatever the client sends
  on the stream of an attachment, the inputs written to the terminal carry the sequence numbers
  from zero without gaps and repetitions, each is one the client sent under its number, and only
  written inputs are acknowledged.\<close>

theorem pty_input_exactly_once:
  "let (ws, acks) = pty_stream_run vt x messages s (a\<lparr>at_inputs := None\<rparr>) pty
   in map fst ws = [0..<length ws] \<and> set acks \<subseteq> {..<length ws}
      \<and> set ws \<subseteq> {(sequence, data). \<exists>sid. ReqPtyInputSequenced sid sequence data \<in> received_requests messages}"
proof -
  obtain ws acks where run: "pty_stream_run vt x messages s (a\<lparr>at_inputs := None\<rparr>) pty = (ws, acks)"
    by (cases "pty_stream_run vt x messages s (a\<lparr>at_inputs := None\<rparr>) pty")
  have start: "at_inputs (a\<lparr>at_inputs := None\<rparr>) = inputs_until 0" by (simp add: inputs_until_def)
  show ?thesis
    using pty_stream_run_inputs [OF start run] by (auto simp: run)
qed

end
