(* ===== verification/Pty_Scrollback.thy ===== *)
theory Pty_Scrollback
  imports Pty_Client
begin

text \<open>
  The scrollback page of an attachment: what the server retains of the terminal's history always
  passes the client's check.
\<close>

section \<open>Characters of a string\<close>

definition continuation_char :: "char \<Rightarrow> bool" where
  "continuation_char c \<longleftrightarrow> 128 \<le> byte_of c \<and> byte_of c < 192"

definition piece_ok :: "string \<Rightarrow> bool" where
  "piece_ok p \<longleftrightarrow> p \<noteq> [] \<and> length p = char_width (hd p) \<and> \<not> continuation_char (hd p)
     \<and> list_all continuation_char (tl p)"

text \<open>The bytes of a \<open>String\<close> are a sequence of complete characters.\<close>

definition str_ok :: "string \<Rightarrow> bool" where
  "str_ok s \<longleftrightarrow> list_all piece_ok (str_pieces s)"

lemma concat_pieces: "concat (str_pieces s) = s"
  by (induction s rule: str_pieces.induct) simp_all

lemma pieces_concat: "list_all piece_ok ps \<Longrightarrow> str_pieces (concat ps) = ps"
proof (induction ps)
  case (Cons p ps)
  then obtain c cs where p: "p = c # cs" "length cs = char_width c - 1" "char_width c > 0"
    by (cases p) (auto simp: piece_ok_def)
  then show ?case using Cons by simp
qed simp

lemma str_chars_piece: "piece_ok p \<Longrightarrow> str_chars (p @ s) = str_chars p @ str_chars s"
proof -
  assume p: "piece_ok p"
  then obtain c cs where c: "p = c # cs" "length (c # cs) = char_width c" by (cases p) (auto simp: piece_ok_def)
  consider "byte_of c < 128" | "128 \<le> byte_of c" "byte_of c < 224" | "224 \<le> byte_of c" "byte_of c < 240"
    | "240 \<le> byte_of c" by linarith
  then show ?thesis
  proof cases
    case 1
    then show ?thesis using c by (simp add: char_width_def Let_def)
  next
    case 2
    then obtain c1 where "cs = [c1]" using c by (cases cs) (auto simp: char_width_def Let_def)
    then show ?thesis using 2 c by (simp add: Let_def)
  next
    case 3
    then have "length cs = 2" using c by (simp add: char_width_def Let_def)
    then obtain c1 c2 where "cs = [c1, c2]" by (auto simp: numeral_2_eq_2 length_Suc_conv)
    then show ?thesis using 3 c by (simp add: Let_def)
  next
    case 4
    then have "length cs = 3" using c by (simp add: char_width_def Let_def)
    then obtain c1 c2 c3 where "cs = [c1, c2, c3]" by (auto simp: numeral_3_eq_3 length_Suc_conv)
    then show ?thesis using 4 c by (simp add: Let_def)
  qed
qed

lemma str_chars_concat: "list_all piece_ok ps \<Longrightarrow> str_chars (concat ps) = concat (map str_chars ps)"
  by (induction ps) (simp_all add: str_chars_piece)

lemma boundary_before_ok: "boundary_before line n \<le> n" "is_char_boundary line (boundary_before line n)"
  by (induction line n rule: boundary_before.induct) (auto simp: is_char_boundary_def)

text \<open>Cutting at a character boundary leaves whole characters.\<close>

lemma take_at_boundary:
  assumes "list_all piece_ok ps" "is_char_boundary (concat ps) i" "i \<le> length (concat ps)"
  shows "\<exists>j. take i (concat ps) = concat (take j ps)"
  using assms
proof (induction ps arbitrary: i)
  case (Cons p ps)
  show ?case
  proof (cases "i < length p")
    case True
    have "i = 0"
    proof (rule ccontr)
      assume "i \<noteq> 0"
      then have "tl p ! (i - 1) = p ! i" "i - 1 < length (tl p)" using True by (cases p; auto)+
      moreover have "list_all continuation_char (tl p)" using Cons.prems(1) by (simp add: piece_ok_def)
      ultimately have "continuation_char (p ! i)" by (metis list_all_length)
      then show False
        using Cons.prems(2) True \<open>i \<noteq> 0\<close> by (auto simp: is_char_boundary_def continuation_char_def nth_append)
    qed
    then show ?thesis by (auto intro: exI [of _ 0])
  next
    case False
    have "is_char_boundary (concat ps) (i - length p)"
      using Cons.prems(2) False by (auto simp: is_char_boundary_def nth_append)
    moreover have "i - length p \<le> length (concat ps)" "list_all piece_ok ps" using Cons.prems(1,3) by simp_all
    ultimately obtain j where "take (i - length p) (concat ps) = concat (take j ps)"
      using Cons.IH [of "i - length p"] by blast
    then show ?thesis using False by (intro exI [of _ "Suc j"]) simp
  qed
qed simp

lemma printable_line_ok:
  assumes "str_ok line"
  shows "length (printable_line line) \<le> PTY_SCROLLBACK_MAX_LINE_BYTES"
    "\<not> list_ex is_control (str_chars (printable_line line))"
proof -
  define ps where "ps = filter (\<lambda>p. \<not> list_ex is_control (str_chars p)) (str_pieces line)"
  have ps: "list_all piece_ok ps" "list_all (\<lambda>p. \<not> list_ex is_control (str_chars p)) ps"
    using assms by (auto simp: ps_def str_ok_def list_all_iff)
  let ?n = "boundary_before (concat ps) PTY_SCROLLBACK_MAX_LINE_BYTES"
  have line: "printable_line line = (if PTY_SCROLLBACK_MAX_LINE_BYTES < length (concat ps)
      then take ?n (concat ps) else concat ps)"
    by (simp add: printable_line_def ps_def Let_def)
  then show "length (printable_line line) \<le> PTY_SCROLLBACK_MAX_LINE_BYTES"
    using boundary_before_ok(1) [of "concat ps" PTY_SCROLLBACK_MAX_LINE_BYTES] by auto
  have "\<exists>j. printable_line line = concat (take j ps)"
  proof (cases "PTY_SCROLLBACK_MAX_LINE_BYTES < length (concat ps)")
    case True
    then show ?thesis
      using take_at_boundary [OF ps(1) boundary_before_ok(2)] boundary_before_ok(1) [of "concat ps" PTY_SCROLLBACK_MAX_LINE_BYTES]
      unfolding line by (metis less_imp_le order_trans)
  next
    case False
    then show ?thesis unfolding line by (intro exI [of _ "length ps"]) simp
  qed
  then obtain j where j: "printable_line line = concat (take j ps)" ..
  have "list_all piece_ok (take j ps)" "list_all (\<lambda>p. \<not> list_ex is_control (str_chars p)) (take j ps)"
    using ps by (auto simp: list_all_iff dest: in_set_takeD)
  then show "\<not> list_ex is_control (str_chars (printable_line line))"
    unfolding j by (auto simp: str_chars_concat list_all_iff list_ex_iff)
qed

section \<open>The page\<close>

definition text_bytes :: "string list \<Rightarrow> nat" where
  "text_bytes lines = sum_list (map length lines)"

lemma retain_lines_result:
  assumes "n = text_bytes retained" "n \<le> PTY_SCROLLBACK_MAX_BYTES" "length retained \<le> PTY_SCROLLBACK_MAX_LINES"
  shows "\<exists>m. retain_lines retained n lines = retained @ take m (map printable_line lines)"
    "text_bytes (retain_lines retained n lines) \<le> PTY_SCROLLBACK_MAX_BYTES"
    "length (retain_lines retained n lines) \<le> PTY_SCROLLBACK_MAX_LINES"
proof -
  have "(\<exists>m. retain_lines retained n lines = retained @ take m (map printable_line lines))
    \<and> text_bytes (retain_lines retained n lines) \<le> PTY_SCROLLBACK_MAX_BYTES
    \<and> length (retain_lines retained n lines) \<le> PTY_SCROLLBACK_MAX_LINES"
    using assms
  proof (induction retained n lines rule: retain_lines.induct)
    case (1 retained n)
    then show ?case by auto
  next
    case (2 retained n line lines)
    let ?l = "printable_line line"
    show ?case
    proof (cases "PTY_SCROLLBACK_MAX_LINES \<le> length retained \<or> PTY_SCROLLBACK_MAX_BYTES < saturating_add n (length ?l)")
      case True
      then show ?thesis using 2(2-4) by (auto intro: exI [of _ 0])
    next
      case False
      have sum: "saturating_add n (length ?l) = n + length ?l"
        using False by (simp add: saturating_add_def min_def consts_simps int_bounds split: if_splits)
      have "(\<exists>m. retain_lines (retained @ [?l]) (n + length ?l) lines = (retained @ [?l]) @ take m (map printable_line lines))
          \<and> text_bytes (retain_lines (retained @ [?l]) (n + length ?l) lines) \<le> PTY_SCROLLBACK_MAX_BYTES
          \<and> length (retain_lines (retained @ [?l]) (n + length ?l) lines) \<le> PTY_SCROLLBACK_MAX_LINES"
        using False sum 2(2-4) 2(1) [OF _ refl refl, unfolded sum] by (simp add: text_bytes_def)
      then show ?thesis
        using False sum by (auto simp: Let_def intro: exI [of _ "Suc m" for m])
    qed
  qed
  then show "\<exists>m. retain_lines retained n lines = retained @ take m (map printable_line lines)"
    "text_bytes (retain_lines retained n lines) \<le> PTY_SCROLLBACK_MAX_BYTES"
    "length (retain_lines retained n lines) \<le> PTY_SCROLLBACK_MAX_LINES" by auto
qed

lemma scrollback_bytes_sum:
  assumes "\<And>line. line \<in> set lines \<Longrightarrow> length line \<le> PTY_SCROLLBACK_MAX_LINE_BYTES
      \<and> \<not> list_ex is_control (str_chars line)"
    and "n + text_bytes lines \<le> u64_max"
  shows "scrollback_bytes lines n = Some (n + text_bytes lines)"
  using assms
proof (induction lines arbitrary: n)
  case (Cons line lines)
  then have "saturating_add n (length line) = n + length line" by (simp add: text_bytes_def saturating_add_def)
  then show ?case using Cons by (simp add: text_bytes_def not_less)
qed (simp add: text_bytes_def)

section \<open>Properties\<close>

text \<open>Claim C24. The scrollback page a server builds from the rows of a terminal, whatever control
  characters they contain and however long they are, is a prefix of the history with the control
  characters removed and long lines cut between characters, and the client accepts it.\<close>

theorem scrollback_page_accepted:
  assumes "rows \<noteq> 0" "cols \<noteq> 0" "list_all str_ok lines"
  shows "validate_pty_scrollback_snapshot (protocol_pty_scrollback_snapshot generation rows cols lines)
    \<and> (\<exists>m. sb_lines (protocol_pty_scrollback_snapshot generation rows cols lines) = map printable_line (take m lines))"
proof -
  let ?lines = "retain_lines [] 0 lines"
  have start: "0 = text_bytes []" "(0 :: nat) \<le> PTY_SCROLLBACK_MAX_BYTES" "length ([] :: string list) \<le> PTY_SCROLLBACK_MAX_LINES"
    by (simp_all add: text_bytes_def)
  note page = retain_lines_result [OF start, of lines]
  obtain m where m: "?lines = take m (map printable_line lines)" using page(1) by auto
  have ok: "length line \<le> PTY_SCROLLBACK_MAX_LINE_BYTES \<and> \<not> list_ex is_control (str_chars line)"
    if "line \<in> set ?lines" for line
    using that assms(3) printable_line_ok by (auto simp: m list_all_iff dest!: in_set_takeD)
  have "0 + text_bytes ?lines \<le> u64_max" using page(2) by (simp add: consts_simps int_bounds)
  from scrollback_bytes_sum [OF ok this] show ?thesis
    using page(2,3) assms(1,2) m
    by (auto simp: validate_pty_scrollback_snapshot_def protocol_pty_scrollback_snapshot_def take_map)
qed

theorem scrollback_page_accepted_witness:
  "validate_pty_scrollback_snapshot (protocol_pty_scrollback_snapshot 7 24 80 [''ls'', [CHR 0x1B, CHR ''o'', CHR ''k'']])
    \<and> sb_lines (protocol_pty_scrollback_snapshot 7 24 80 [''ls'', [CHR 0x1B, CHR ''o'', CHR ''k'']]) = [''ls'', ''ok'']"
proof -
  have "list_all str_ok [''ls'', [CHR 0x1B, CHR ''o'', CHR ''k'']]"
    by (simp add: str_ok_def piece_ok_def continuation_char_def char_width_def byte_of_def)
  from scrollback_page_accepted [OF _ _ this, of 24 80 7]
  have "validate_pty_scrollback_snapshot (protocol_pty_scrollback_snapshot 7 24 80 [''ls'', [CHR 0x1B, CHR ''o'', CHR ''k'']])"
    by simp
  moreover have "sb_lines (protocol_pty_scrollback_snapshot 7 24 80 [''ls'', [CHR 0x1B, CHR ''o'', CHR ''k'']]) = [''ls'', ''ok'']"
    by (simp add: protocol_pty_scrollback_snapshot_def printable_line_def char_width_def byte_of_def is_control_def
        saturating_add_def consts_simps int_bounds)
  ultimately show ?thesis by simp
qed

end
