(* ===== verification/Spec2Isabelle.thy ===== *)
theory Spec2Isabelle
  imports Pty_Datagram Server_Framing Session_Restart Patch_Roundtrip Transaction_Safety Upload_Safety Connection_Safety
    Pty_Sync Pty_Scrollback
begin

text \<open>
  ASP (agent shell protocol): a verification library for the protocol, the server and the parts of
  the client that decide what is stored, replayed and shown.

  \<^bold>\<open>The program.\<close>  A client opens a QUIC connection to the server, authenticates with HELLO and runs
  each request on a stream of its own.  A session of the server is a durable log of events with an
  in-memory window, snapshots and consumer files beside it; file mutations are transactions on the
  workspace that end in such an event; a PTY attachment carries a terminal over one stream and
  unreliable datagrams.  Sources: \<open>crates/asp-protocol/src/lib.rs\<close> (messages and codecs),
  \<open>crates/asp-server/src/main.rs\<close>, \<open>crates/asp-client/src/main.rs\<close>, \<open>crates/asp-pty/src/lib.rs\<close>.

  \<^bold>\<open>Conventions.\<close>  Bytes are \<open>8 word\<close>, a \<open>String\<close> is the list of its UTF-8 bytes, the unsigned integers
  are natural numbers with the saturating and checked operations written out, a \<open>HashMap\<close> is a
  finite map.  Errors are values of sums.  The outcomes of system calls, clock readings, contents of
  credential files and crash points are arguments; Postcard, JSON, zlib, SHA-256 and the terminal
  emulator are parameters, with what the code relies on as named laws (\<open>codec_lawful\<close>, \<open>log_lawful\<close>,
  \<open>session_lawful\<close>, \<open>datagrams_lawful\<close>, \<open>stamps_identify\<close>).

  \<^bold>\<open>Theories.\<close>

  \<^item> \<open>Asp_Prelude\<close>: machine arithmetic, strings, finite maps, results; the collections of simp rules.
  \<^item> \<open>Wire\<close>: requests, responses, events and their classification (\<open>Request\<close>, \<open>Response\<close>,
    \<open>quic_stream_priority\<close>, \<open>request_kind\<close>, \<open>response_requires_encode_gate\<close>).
  \<^item> \<open>Framed_Stream\<close>, \<open>Frame_Codec\<close>, \<open>Server_Framing\<close>: the frame envelope and its streams
    (\<open>encode_frame_payload\<close>, \<open>read_frame\<close>), the compression heuristic, the server's bounded reads and
    the pinned framing mode (\<open>read_frame_with_budget\<close>, \<open>validate_frame_mode_for_version\<close>).  The locale
    \<open>framed_stream\<close> holds what the wire and the log share.
  \<^item> \<open>Pty_Datagram\<close>: the three datagram forms and their round trips.
  \<^item> \<open>Journal\<close>, \<open>Loaded_Session\<close>: the in-memory window (\<open>Journal\<close>) and the state rebuilt from events
    (\<open>LoadedSession\<close>); the locale \<open>event_journal\<close> is the interface between them.
  \<^item> \<open>Event_Log\<close>, \<open>Log_Recovery\<close>, \<open>Log_Replay\<close>: the write-ahead log as bytes in files
    (\<open>SessionDisk\<close>): atomic appends, recovery from torn tails and interrupted compactions, exact replay.
  \<^item> \<open>Session_Files\<close>: snapshot and consumer files and the restart of a session from all its files.
  \<^item> \<open>Session\<close>, \<open>Session_Safety\<close>, \<open>Session_Restart\<close>: commit, subscription, acknowledgement, compaction
    and restart of a live session.
  \<^item> \<open>Paths\<close>: the resolution of request paths over a file system with links.
  \<^item> \<open>File_Patch\<close>, \<open>Patch_Roundtrip\<close>: patches derived by the client and materialized by the server.
  \<^item> \<open>File_Transaction\<close>, \<open>Transaction_Safety\<close>: staging, intent, backup, install, event, cleanup,
    rollback and recovery of file mutations, with a crash after every step; the refinement of an
    atomic store.
  \<^item> \<open>File_Upload\<close>, \<open>Upload_Safety\<close>: streamed uploads (\<open>handle_file_put_stream_inner\<close>, the client's
    \<open>send_file_stream\<close>): staging, resumption behind the staged prefix, the receive loop, the commit,
    and the histories of interrupted attempts.
  \<^item> \<open>Access\<close>, \<open>Connection\<close>, \<open>Connection_Safety\<close>: credentials and their caches, scopes, failure
    windows, byte budgets and leases (locale \<open>lease_table\<close>); accepting, HELLO and the admission of
    requests as one step relation over all connections, with its invariant.
  \<^item> \<open>Pty_Screen\<close>, \<open>Pty_Client\<close>, \<open>Pty_Sync\<close>, \<open>Pty_Scrollback\<close>: both sides of a PTY attachment, the
    system they form with a lossy network, and the scrollback page.
  \<^item> this theory: properties that need the client and the server together.

  \<^bold>\<open>What is shown.\<close>  Appends, compactions and file mutations survive write failures and crashes; replay
  and subscription deliver every event exactly once; acknowledgements are durable; patches and
  frames are read back as they were written; an acknowledged upload has installed the declared body,
  and one that is repeated until it gets through delivers the client's file; resolved paths stay under the root; quotas and leases
  are exact in every reachable state and a request runs only under a currently valid principal that
  owns the session it touches; the client's PTY screen is always one the terminal had.  The
  properties of kind error pin down where the code does not do this: a lost tail behind a synced
  acknowledgement, an oversized snapshot, a failed header write after compaction, a blind overwrite,
  a reserved directory behind a link, a line patch that drops the end of a file, resizes that keep
  their generation, and screens that are never repaired.

  \<^bold>\<open>Bounds.\<close>  Loops that the code bounds by data are structural or well-founded recursions and total.
  The eviction loop of the in-memory window ends only because its byte count is exact, which is an
  invariant and not visible in its code; it is a partial function on \<open>option\<close>, \<^const>\<open>None\<close> is a loop
  that does not end, and the properties of commits and restarts state that a result exists.  A
  reader of a stream has fuel, and one unit more than there are messages is enough.  Following
  links is bounded by the 40 links the kernel follows.

  \<^bold>\<open>Not modelled.\<close>  Spawning and signalling processes, tmux, sockets, TLS and the QUIC transport are calls
  of the operating system and of libraries; counters, health report, audit trail and command line
  decide nothing that other parts read; the workspace index is a cache of directory listings; backup
  and restore copy files.  Processes and PTYs adopted at startup, artifact transfers, the
  client's retries, checkpoint files and local cache, and the benchmark are left out.
\<close>

section \<open>An edit from the client's cache to the server's file\<close>


lemma takeWhile_zip_same:
  "a \<noteq> b \<Longrightarrow> length (takeWhile (\<lambda>(l, r). l = r) (zip (xs @ [a]) (xs @ [b]))) = length xs"
  by (induction xs) auto


end
